theory Spec2Isabelle
  imports Complex_Main
begin

text \<open>
  A shallow embedding of the display caches of \<^verbatim>\<open>WaveClip.cpp\<close>: the correction engine
  (\<^verbatim>\<open>findCorrection\<close>, \<^verbatim>\<open>fillWhere\<close>), the invalid regions of the waveform cache, the two
  queries \<^verbatim>\<open>GetWaveDisplay\<close> and \<^verbatim>\<open>GetSpectrogram\<close>, and the mutations of the clip with the
  dirty generation. The definitions come first, in the order of the source; the properties
  follow.
\<close>

section \<open>Numeric conventions\<close>

text \<open>
  The display cache of \<^verbatim>\<open>WaveClip.cpp\<close> computes with C++ \<^verbatim>\<open>double\<close> values and converts
  them to integers. The embedding idealises a \<^verbatim>\<open>double\<close> as a \<^typ>\<open>real\<close>: rounding error
  and overflow are not modelled. Where the source divides by a value that can be zero, the
  IEEE result (an infinity or a NaN) is written out as a case of its own, because
  \<open>x / 0 = 0\<close> in HOL. \<^verbatim>\<open>sampleCount\<close>, \<^verbatim>\<open>int\<close> and \<^verbatim>\<open>long\<close> are modelled as \<^typ>\<open>int\<close>, and the
  overflow of their arithmetic is not modelled.
\<close>

text \<open>Conversion of a \<^verbatim>\<open>double\<close> to an integer type truncates towards zero.\<close>

definition double_to_int :: "real \<Rightarrow> int" where
  "double_to_int x = (if 0 \<le> x then \<lfloor>x\<rfloor> else \<lceil>x\<rceil>)"

text \<open>
  A \<^verbatim>\<open>sampleCount\<close> has 64 bits and an \<^verbatim>\<open>int\<close> has 32. Where the source stores a
  \<^verbatim>\<open>sampleCount\<close> in an \<^verbatim>\<open>int\<close> (line 627) the value is reduced modulo \<open>2 ^ 32\<close> into the
  range of the \<^verbatim>\<open>int\<close>.
\<close>

definition narrow_int :: "int \<Rightarrow> int" where
  "narrow_int x = (x + 2 ^ 31) mod 2 ^ 32 - 2 ^ 31"

section \<open>The correction engine\<close>

text \<open>
  \<^verbatim>\<open>findCorrection\<close> (source lines 441-482). The two reference parameters \<^verbatim>\<open>oldX0\<close> and
  \<^verbatim>\<open>correction\<close> are the components of the result. The source reads \<^verbatim>\<open>oldWhere[1]\<close>
  unchecked; both callers guard the call by \<^verbatim>\<open>len > 0\<close> of the old cache, whose mapping
  then has at least two entries.
\<close>

definition findCorrection ::
  "int list \<Rightarrow> int \<Rightarrow> int \<Rightarrow> real \<Rightarrow> real \<Rightarrow> real \<Rightarrow> int \<times> real" where
  "findCorrection oldWhere oldLen newLen t0 rate samplesPerPixel =
    (let oldWhere0 = real_of_int (oldWhere ! 1) - samplesPerPixel;
         oldWhereLast = oldWhere0 + real_of_int oldLen * samplesPerPixel;
         denom = oldWhereLast - oldWhere0;
         guessWhere0 = t0 * rate
     in if oldWhereLast \<le> guessWhere0
           \<or> guessWhere0 + real_of_int newLen * samplesPerPixel \<le> oldWhere0
           \<or> denom < 0.5
        then (oldLen, 0)
        else
          (let oldX0 = \<lfloor>0.5 + real_of_int oldLen * (guessWhere0 - oldWhere0) / denom\<rfloor>;
               where0 = oldWhere0 + real_of_int oldX0 * samplesPerPixel;
               correction0 = where0 - guessWhere0
           in (oldX0, max (- samplesPerPixel) (min samplesPerPixel correction0))))"

text \<open>
  \<^verbatim>\<open>fillWhere\<close> (source lines 484-495) writes entries \<open>0 .. len\<close> of the vector it is given.
  The loop over \<open>x = 1 .. len\<close> is a fold over the indices.
\<close>

definition fillWhere ::
  "int list \<Rightarrow> int \<Rightarrow> real \<Rightarrow> real \<Rightarrow> real \<Rightarrow> real \<Rightarrow> real \<Rightarrow> int list" where
  "fillWhere wh len bias correction t0 rate samplesPerPixel =
    (let w0 = 0.5 + correction + bias + t0 * rate
     in fold (\<lambda>x w. w[x := \<lfloor>w0 + real x * samplesPerPixel\<rfloor>])
             [1 ..< nat (len + 1)]
             (wh[0 := max 0 \<lfloor>w0\<rfloor>]))"


section \<open>The waveform cache and its invalid regions\<close>

text \<open>
  \<^verbatim>\<open>WaveCache::InvalidRegion\<close> (source lines 98-105): a closed interval of pixel columns.
\<close>

record invalidRegion =
  region_start :: int
  region_end :: int

text \<open>
  \<^verbatim>\<open>class WaveCache\<close> (source lines 46-260). The region mutex is a matter of scheduling
  and has no counterpart here.
\<close>

record waveCache =
  wc_dirty :: int
  wc_len :: int
  wc_start :: real
  wc_pps :: real
  wc_rate :: int
  wc_where :: "int list"
  wc_min :: "real list"
  wc_max :: "real list"
  wc_rms :: "real list"
  wc_bl :: "int list"
  wc_numODPixels :: int
  wc_mRegions :: "invalidRegion list"

text \<open>\<^verbatim>\<open>CountODPixels\<close> (source lines 249-254): the entries below zero in \<open>bl[start, end)\<close>.\<close>

definition CountODPixels :: "int list \<Rightarrow> int \<Rightarrow> int \<Rightarrow> int" where
  "CountODPixels bl start end' =
     int (length (filter (\<lambda>b. b < 0) (take (nat (end' - start)) (drop (nat start) bl))))"

text \<open>The default constructor (source lines 48-61) and the sized one (lines 63-79).\<close>

definition WaveCache_default :: waveCache where
  "WaveCache_default =
     \<lparr> wc_dirty = - 1, wc_len = - 1, wc_start = - 1, wc_pps = 0, wc_rate = - 1,
       wc_where = [], wc_min = [], wc_max = [], wc_rms = [], wc_bl = [],
       wc_numODPixels = 0, wc_mRegions = [] \<rparr>"

definition WaveCache_new :: "int \<Rightarrow> real \<Rightarrow> int \<Rightarrow> real \<Rightarrow> int \<Rightarrow> waveCache" where
  "WaveCache_new len pixelsPerSecond rate t0 dirty =
     (let bl = replicate (nat len) 0
      in \<lparr> wc_dirty = dirty, wc_len = len, wc_start = t0, wc_pps = pixelsPerSecond,
           wc_rate = rate,
           wc_where = replicate (nat (1 + len)) 0,
           wc_min = replicate (nat len) 0, wc_max = replicate (nat len) 0,
           wc_rms = replicate (nat len) 0, wc_bl = bl,
           wc_numODPixels = CountODPixels bl 0 len, wc_mRegions = [] \<rparr>)"

text \<open>
  \<^verbatim>\<open>AddInvalidRegion\<close> (source lines 109-205), in its four steps.

  Step 1 (lines 114-118): the sample range in pixel columns of this cache. The caller has
  checked \<open>pps \<noteq> 0\<close>; the division by \<^verbatim>\<open>samplesPerPixel\<close> supposes a non-zero rate.
\<close>

definition invalPixels :: "waveCache \<Rightarrow> int \<Rightarrow> int \<Rightarrow> int \<times> int" where
  "invalPixels c sampleStart sampleEnd =
     (let samplesPerPixel = real_of_int (wc_rate c) / wc_pps c;
          invalStart = double_to_int
            ((real_of_int sampleStart - wc_start c * real_of_int (wc_rate c)) / samplesPerPixel);
          invalEnd = double_to_int
            ((real_of_int sampleEnd - wc_start c * real_of_int (wc_rate c)) / samplesPerPixel + 1)
      in (invalStart, invalEnd))"

text \<open>Step 2 (lines 127-135): clipping of one endpoint to \<open>[0, len]\<close>.\<close>

definition clipPixel :: "int \<Rightarrow> int \<Rightarrow> int" where
  "clipPixel len x = (if x < 0 then 0 else if x > len then len else x)"

text \<open>
  Step 3 (lines 142-176): the first region, in container order, that meets the new range or
  is pixel adjacent to it takes the union; \<open>None\<close> is the source's \<^verbatim>\<open>added == false\<close>.
\<close>

fun unionFirst :: "int \<Rightarrow> int \<Rightarrow> invalidRegion list \<Rightarrow> invalidRegion list option" where
  "unionFirst invalStart invalEnd [] = None"
| "unionFirst invalStart invalEnd (region # rest) =
     (if region_start region \<le> invalEnd + 1 \<and> region_end region \<ge> invalStart - 1
      then Some
        (region \<lparr> region_start :=
                    (if region_start region > invalStart then invalStart else region_start region),
                  region_end :=
                    (if region_end region < invalEnd then invalEnd else region_end region) \<rparr>
         # rest)
      else map_option ((#) region) (unionFirst invalStart invalEnd rest))"

text \<open>
  Step 4 (lines 180-204): the patch loop over neighbours in the container, with cursor \<open>i\<close>.
  When regions \<open>i - 1\<close> and \<open>i\<close> meet, region \<open>i\<close> takes the union and region \<open>i - 1\<close> is
  erased; the cursor steps back and forth, so the next pass has the same \<open>i\<close>. The early
  exit then reads through the reference to slot \<open>i\<close>, which after the erasure holds the next
  region; when there is none the loop ends at its bound whatever is read.
\<close>

function patchRegions :: "nat \<Rightarrow> int \<Rightarrow> invalidRegion list \<Rightarrow> invalidRegion list" where
  "patchRegions i invalEnd rs =
     (if 0 < i \<and> i < length rs then
        (let region = rs ! i; prevRegion = rs ! (i - 1)
         in if region_start region \<le> region_end prevRegion + 1
               \<and> region_end region \<ge> region_start prevRegion - 1
            then
              (let merged = region
                     \<lparr> region_start :=
                         (if region_start region > region_start prevRegion
                          then region_start prevRegion else region_start region),
                       region_end :=
                         (if region_end region < region_end prevRegion
                          then region_end prevRegion else region_end region) \<rparr>;
                   rs' = take (i - 1) rs @ merged # drop (i + 1) rs
               in if i < length rs' \<and> region_start (rs' ! i) > invalEnd then rs'
                  else patchRegions i invalEnd rs')
            else if region_start region > invalEnd then rs
            else patchRegions (i + 1) invalEnd rs)
      else rs)"
  by pat_completeness auto
termination
proof (relation "measure (\<lambda>(i, invalEnd, rs). 2 * length rs - i)")
  show "wf (measure (\<lambda>(i, invalEnd, rs). 2 * length rs - i))"
    by simp
next
  fix i :: nat and invalEnd :: int and rs rs' :: "invalidRegion list"
    and region prevRegion merged :: invalidRegion
  assume "0 < i \<and> i < length rs"
    and "rs' = take (i - 1) rs @ merged # drop (i + 1) rs"
  then have "2 * length rs' - i < 2 * length rs - i"
    by auto
  then show "((i, invalEnd, rs'), (i, invalEnd, rs))
      \<in> measure (\<lambda>(i, invalEnd, rs). 2 * length rs - i)"
    by simp
next
  fix i :: nat and invalEnd :: int and rs :: "invalidRegion list"
  assume "0 < i \<and> i < length rs"
  then have "2 * length rs - Suc i < 2 * length rs - i"
    by arith
  then show "((i + 1, invalEnd, rs), (i, invalEnd, rs))
      \<in> measure (\<lambda>(i, invalEnd, rs). 2 * length rs - i)"
    by simp
qed

declare patchRegions.simps [simp del]

definition AddInvalidRegion :: "waveCache \<Rightarrow> int \<Rightarrow> int \<Rightarrow> waveCache" where
  "AddInvalidRegion c sampleStart sampleEnd =
     (if wc_pps c = 0 then c
      else
        (let (invalStart, invalEnd) = invalPixels c sampleStart sampleEnd
         in if (invalStart < 0 \<and> invalEnd < 0)
               \<or> (invalStart \<ge> wc_len c \<and> invalEnd \<ge> wc_len c)
            then c
            else
              (let invalStart' = clipPixel (wc_len c) invalStart;
                   invalEnd' = clipPixel (wc_len c) invalEnd;
                   inserted =
                     (case unionFirst invalStart' invalEnd' (wc_mRegions c) of
                        Some rs \<Rightarrow> rs
                      | None \<Rightarrow>
                          \<lparr> region_start = invalStart', region_end = invalEnd' \<rparr>
                          # wc_mRegions c)
               in c \<lparr> wc_mRegions := patchRegions 1 invalEnd' inserted \<rparr>)))"

definition ClearInvalidRegions :: "waveCache \<Rightarrow> waveCache" where
  "ClearInvalidRegions c = c \<lparr> wc_mRegions := [] \<rparr>"


section \<open>The Sample Sequence collaborator\<close>

text \<open>
  \<^verbatim>\<open>Sequence\<close> is defined elsewhere (\<^verbatim>\<open>Sequence.h\<close>); the clip uses it through its interface only.
  Its state is a type parameter \<open>'s\<close> and its operations are the fields of a record, one
  for each member function the clip calls. An operation that changes the sequence in
  place returns the changed sequence beside its boolean result. Sample buffers are lists of
  \<^typ>\<open>real\<close>, whatever the stored format.
\<close>

datatype sampleFormat = int16Sample | int24Sample | floatSample

text \<open>The four arrays a summarising call writes, one entry for each pixel column.\<close>

record waveColumns =
  col_min :: "real list"
  col_max :: "real list"
  col_rms :: "real list"
  col_bl :: "int list"

record 's sequenceOps =
  seqGetNumSamples :: "'s \<Rightarrow> int"
  seqGetSampleFormat :: "'s \<Rightarrow> sampleFormat"
  seqGetMaxBlockSize :: "'s \<Rightarrow> int"
  seqGetIdealAppendLen :: "'s \<Rightarrow> int"
  seqGetWaveDisplay :: "'s \<Rightarrow> int \<Rightarrow> int list \<Rightarrow> bool \<times> waveColumns"
  seqSet :: "'s \<Rightarrow> real list \<Rightarrow> int \<Rightarrow> int \<Rightarrow> bool \<times> 's"
  seqAppend :: "'s \<Rightarrow> real list \<Rightarrow> bool \<times> 's"
  seqInsertSilence :: "'s \<Rightarrow> int \<Rightarrow> int \<Rightarrow> bool \<times> 's"
  seqDelete :: "'s \<Rightarrow> int \<Rightarrow> int \<Rightarrow> bool \<times> 's"
  seqPaste :: "'s \<Rightarrow> int \<Rightarrow> 's \<Rightarrow> bool \<times> 's"
  seqConvertToSampleFormat :: "'s \<Rightarrow> sampleFormat \<Rightarrow> bool \<times> bool \<times> 's"
  seqResampled :: "'s \<Rightarrow> int \<Rightarrow> int \<Rightarrow> 's option"

text \<open>
  \<open>seqGetWaveDisplay s len wh\<close> stands for
  \<^verbatim>\<open>s->GetWaveDisplay(min, max, rms, bl, len, where)\<close>: \<open>wh\<close> is the mapping from the
  position the call is given, and the columns returned are what the call has written
  from the positions it is given, also when it reports failure.
  \<open>seqResampled s oldRate newRate\<close> stands for the loop of \<^verbatim>\<open>WaveClip::Resample\<close> (source
  lines 1752-1794) that feeds the resampler from \<open>s\<close> and appends to a new sequence;
  \<open>None\<close> is its \<^verbatim>\<open>error\<close> flag.
\<close>

text \<open>Writing \<open>n\<close> values of \<open>src\<close> into \<open>dst\<close> from position \<open>p\<close>, as the callee or \<^verbatim>\<open>memcpy\<close> does.\<close>

definition blit :: "'a list \<Rightarrow> int \<Rightarrow> int \<Rightarrow> 'a list \<Rightarrow> 'a list" where
  "blit dst p n src =
     fold (\<lambda>k d. d[nat p + k := src ! k]) [0 ..< min (nat n) (length src)] dst"

definition writeColumns :: "waveColumns \<Rightarrow> int \<Rightarrow> int \<Rightarrow> waveColumns \<Rightarrow> waveColumns" where
  "writeColumns cols p n out =
     \<lparr> col_min = blit (col_min cols) p n (col_min out),
       col_max = blit (col_max cols) p n (col_max out),
       col_rms = blit (col_rms cols) p n (col_rms out),
       col_bl = blit (col_bl cols) p n (col_bl out) \<rparr>"

definition cacheColumns :: "waveCache \<Rightarrow> waveColumns" where
  "cacheColumns c =
     \<lparr> col_min = wc_min c, col_max = wc_max c, col_rms = wc_rms c, col_bl = wc_bl c \<rparr>"

definition setCacheColumns :: "waveCache \<Rightarrow> waveColumns \<Rightarrow> waveCache" where
  "setCacheColumns c cols =
     c \<lparr> wc_min := col_min cols, wc_max := col_max cols,
         wc_rms := col_rms cols, wc_bl := col_bl cols \<rparr>"

text \<open>
  \<^verbatim>\<open>LoadInvalidRegion\<close> (source lines 217-240) for one region, and \<^verbatim>\<open>LoadInvalidRegions\<close>
  (lines 242-247) for all of them in container order. The result of the summarising call
  is not looked at.
\<close>

definition LoadInvalidRegion ::
  "'s sequenceOps \<Rightarrow> 's \<Rightarrow> bool \<Rightarrow> invalidRegion \<Rightarrow> waveCache \<Rightarrow> waveCache" where
  "LoadInvalidRegion ops sequence updateODCount region c =
     (let invStart = region_start region;
          invEnd = region_end region;
          regionODPixels =
            (if updateODCount then CountODPixels (wc_bl c) invStart invEnd else 0);
          (ok, out) = seqGetWaveDisplay ops sequence (invEnd - invStart)
                        (drop (nat invStart) (wc_where c));
          c1 = setCacheColumns c (writeColumns (cacheColumns c) invStart (invEnd - invStart) out)
      in if updateODCount
         then c1 \<lparr> wc_numODPixels :=
                     wc_numODPixels c1
                     - (regionODPixels - CountODPixels (wc_bl c1) invStart invEnd) \<rparr>
         else c1)"

definition LoadInvalidRegions ::
  "'s sequenceOps \<Rightarrow> 's \<Rightarrow> bool \<Rightarrow> waveCache \<Rightarrow> waveCache" where
  "LoadInvalidRegions ops sequence updateODCount c =
     fold (LoadInvalidRegion ops sequence updateODCount) (wc_mRegions c) c"


section \<open>The spectrogram cache\<close>

text \<open>
  Modelled from the spec: the declarations of \<^verbatim>\<open>SpectrogramSettings\<close> and \<^verbatim>\<open>SpecCache\<close>
  (in the headers \<^verbatim>\<open>SpectrogramSettings.h\<close> and \<^verbatim>\<open>WaveClip.h\<close>, which \<^verbatim>\<open>WaveClip.cpp\<close> includes
  and does not repeat). The spec gives a spectrogram cache
  its length, start, pixels per second, dirty generation, the algorithm identifier and its
  parameters (window type, window size, zero-padding factor, frequency gain), a flat buffer
  of length times bins values and a mapping of length plus one entries. The enumerators
  \<^verbatim>\<open>algReassignment\<close> and \<^verbatim>\<open>algPitchEAC\<close> are named in the source; \<open>algSTFT\<close> is the standard
  mode. \<open>ss_Points\<close> is \<^verbatim>\<open>settings.hFFT->Points\<close>.
\<close>

datatype algorithm = algSTFT | algReassignment | algPitchEAC

record spectrogramSettings =
  ss_algorithm :: algorithm
  ss_windowType :: int
  ss_windowSize :: int
  ss_zeroPaddingFactor :: int
  ss_frequencyGain :: int
  ss_Points :: int

record specCache =
  sc_len :: int
  sc_algorithm :: "algorithm option"
  sc_pps :: real
  sc_start :: real
  sc_windowType :: int
  sc_windowSize :: int
  sc_zeroPaddingFactor :: int
  sc_frequencyGain :: int
  sc_freq :: "real list"
  sc_where :: "int list"
  sc_dirty :: int

text \<open>
  Modelled from the spec: the two constructors of \<^verbatim>\<open>SpecCache\<close>. The empty cache has length
  \<open>- 1\<close> and no algorithm (\<open>None\<close>), so that it matches no request; the sized one has a
  zeroed buffer of \<open>len\<close> columns of half the FFT length and is tagged dirty \<open>- 1\<close> until
  \<^verbatim>\<open>GetSpectrogram\<close> sets the generation (source line 1163).
\<close>

definition SpecCache_default :: specCache where
  "SpecCache_default =
     \<lparr> sc_len = - 1, sc_algorithm = None, sc_pps = - 1, sc_start = - 1,
       sc_windowType = - 1, sc_windowSize = - 1, sc_zeroPaddingFactor = - 1,
       sc_frequencyGain = - 1, sc_freq = [], sc_where = [], sc_dirty = - 1 \<rparr>"

definition SpecCache_new ::
  "int \<Rightarrow> algorithm \<Rightarrow> real \<Rightarrow> real \<Rightarrow> int \<Rightarrow> int \<Rightarrow> int \<Rightarrow> int \<Rightarrow> specCache" where
  "SpecCache_new cacheLen alg pixelsPerSecond t0 windowType windowSize zeroPaddingFactor
       frequencyGain =
     \<lparr> sc_len = cacheLen, sc_algorithm = Some alg, sc_pps = pixelsPerSecond, sc_start = t0,
       sc_windowType = windowType, sc_windowSize = windowSize,
       sc_zeroPaddingFactor = zeroPaddingFactor, sc_frequencyGain = frequencyGain,
       sc_freq = replicate (nat (cacheLen * ((zeroPaddingFactor * windowSize) div 2))) 0,
       sc_where = replicate (nat (1 + cacheLen)) 0,
       sc_dirty = - 1 \<rparr>"

section \<open>The clip\<close>

text \<open>
  \<^verbatim>\<open>class WaveClip\<close>, with the members the display caches depend on. The envelope, the
  cut lines, the pixel cache of the spectrogram and the display rectangle take no part in
  the cache reconciliation and are left out. The append buffer holds converted samples.
\<close>

record 's waveClip =
  mOffset :: real
  mRate :: int
  mSequence :: 's
  mWaveCache :: "waveCache option"
  mSpecCache :: "specCache option"
  mAppendBuffer :: "real list"
  mAppendBufferLen :: int
  mDirty :: int

text \<open>The constructor (source lines 293-305).\<close>

definition WaveClip_new :: "'s \<Rightarrow> int \<Rightarrow> 's waveClip" where
  "WaveClip_new sequence rate =
     \<lparr> mOffset = 0, mRate = rate, mSequence = sequence,
       mWaveCache = Some WaveCache_default, mSpecCache = Some SpecCache_default,
       mAppendBuffer = [], mAppendBufferLen = 0, mDirty = 0 \<rparr>"

text \<open>
  Modelled from the spec: \<^verbatim>\<open>WaveDisplay\<close>, the caller's view of the arrays (declared in
  \<^verbatim>\<open>WaveClip.h\<close>). \<open>d_where\<close> is the pointer
  \<^verbatim>\<open>display.where\<close> with what it points at, \<open>None\<close> for the null pointer; a display whose
  pointer is set on entry owns its buffers (the spec's caller-owned scratch buffer path).
  On return from the other path the pointers refer to the arrays of the cache, of which
  the model keeps the contents.
\<close>

record waveDisplay =
  d_width :: int
  d_where :: "int list option"
  d_min :: "real list"
  d_max :: "real list"
  d_rms :: "real list"
  d_bl :: "int list"

definition displayColumns :: "waveDisplay \<Rightarrow> waveColumns" where
  "displayColumns d =
     \<lparr> col_min = d_min d, col_max = d_max d, col_rms = d_rms d, col_bl = d_bl d \<rparr>"

definition setDisplay :: "waveDisplay \<Rightarrow> waveColumns \<Rightarrow> int list \<Rightarrow> waveDisplay" where
  "setDisplay d cols wh =
     d \<lparr> d_where := Some wh, d_min := col_min cols, d_max := col_max cols,
         d_rms := col_rms cols, d_bl := col_bl cols \<rparr>"

section \<open>The waveform query\<close>

text \<open>
  The tolerant comparison of pixels per second (source lines 538-539 and 768-770):
  \<^verbatim>\<open>fabs(tstep - 1.0 / pps) * n < (1.0 / rate)\<close> with \<^verbatim>\<open>tstep = 1.0 / pixelsPerSecond\<close>.
  A zero \<open>pixelsPerSecond\<close> or \<open>pps\<close> makes the left side an infinity or a NaN and the
  comparison false; otherwise a zero rate makes the right side an infinity and the
  comparison true.
\<close>

definition ppsMatches :: "real \<Rightarrow> real \<Rightarrow> int \<Rightarrow> int \<Rightarrow> bool" where
  "ppsMatches pixelsPerSecond pps n rate =
     (if pixelsPerSecond = 0 \<or> pps = 0 then False
      else if rate = 0 then True
      else \<bar>1 / pixelsPerSecond - 1 / pps\<bar> * real_of_int n < 1 / real_of_int rate)"

text \<open>\<^verbatim>\<open>match\<close> (source lines 541-545) and the test of the full hit (lines 547-549).\<close>

definition waveCacheMatch :: "'s waveClip \<Rightarrow> int \<Rightarrow> real \<Rightarrow> bool" where
  "waveCacheMatch clip numPixels pixelsPerSecond =
     (case mWaveCache clip of
        None \<Rightarrow> False
      | Some c \<Rightarrow>
          ppsMatches pixelsPerSecond (wc_pps c) numPixels (mRate clip)
          \<and> wc_len c > 0
          \<and> wc_dirty c = mDirty clip)"

definition waveCacheFullHit :: "'s waveClip \<Rightarrow> int \<Rightarrow> real \<Rightarrow> real \<Rightarrow> bool" where
  "waveCacheFullHit clip numPixels t0 pixelsPerSecond =
     (case mWaveCache clip of
        None \<Rightarrow> False
      | Some c \<Rightarrow>
          waveCacheMatch clip numPixels pixelsPerSecond
          \<and> wc_start c = t0
          \<and> wc_len c \<ge> numPixels)"

text \<open>
  The range of pixels that can be copied from the old cache (source lines 576-579 and
  1131-1134).
\<close>

definition copyRange :: "int \<Rightarrow> int \<Rightarrow> int \<Rightarrow> int \<times> int" where
  "copyRange numPixels oldLen oldX0 =
     (let copyBegin = min numPixels (max 0 (- oldX0));
          copyEnd = min numPixels (copyBegin + oldLen - max 0 oldX0)
      in (copyBegin, copyEnd))"

text \<open>
  The columns that land in the append buffer (source lines 627-699). \<open>appendStart\<close> is the
  first loop, which stops at the first column whose right edge is beyond the sequence, or
  at \<open>p1\<close>;
  \<open>appendColumn\<close> is one pass of the second loop, with \<^verbatim>\<open>didUpdate\<close> in the state.
\<close>

definition appendStart :: "int list \<Rightarrow> int \<Rightarrow> int \<Rightarrow> int \<Rightarrow> int" where
  "appendStart wh numSamples p0 p1 =
     (case filter (\<lambda>a. wh ! nat (a + 1) > numSamples) [p0 .. p1 - 1] of
        [] \<Rightarrow> max p0 p1
      | a # _ \<Rightarrow> a)"

definition appendColumn ::
  "real list \<Rightarrow> int \<Rightarrow> int \<Rightarrow> int list \<Rightarrow> int \<Rightarrow> waveColumns \<times> bool
   \<Rightarrow> waveColumns \<times> bool" where
  "appendColumn appendBuffer appendBufferLen numSamples wh i st =
     (let (cols, didUpdate) = st;
          left0 = wh ! nat i - numSamples;
          right0 = wh ! nat (i + 1) - numSamples;
          left = (if left0 < 0 then 0 else left0);
          right = (if right0 > appendBufferLen then appendBufferLen else right0)
      in if right > left then
           (let len = right - left;
                b = take (nat len) (drop (nat left) appendBuffer);
                val = hd b;
                theMax = fold (\<lambda>v m. max m v) (tl b) val;
                theMin = fold (\<lambda>v m. min m v) (tl b) val;
                sumsq = fold (\<lambda>v q. q + v * v) (tl b) (val * val)
            in (cols \<lparr> col_min := (col_min cols)[nat i := theMin],
                       col_max := (col_max cols)[nat i := theMax],
                       col_rms := (col_rms cols)[nat i := sqrt (sumsq / real_of_int len)],
                       col_bl := (col_bl cols)[nat i := 1] \<rparr>,
                True))
         else (cols, didUpdate))"

text \<open>
  The computation of the columns \<open>[p0, p1)\<close> (source lines 621-715), common to both kinds of
  display. The boolean is \<open>False\<close> where the source returns \<^verbatim>\<open>false\<close> at line 712. The
  number of samples of the sequence is kept in an \<^verbatim>\<open>int\<close> (line 627).
\<close>

definition fetchColumns ::
  "'s sequenceOps \<Rightarrow> 's waveClip \<Rightarrow> int list \<Rightarrow> int \<Rightarrow> int \<Rightarrow> waveColumns
   \<Rightarrow> bool \<times> waveColumns" where
  "fetchColumns ops clip wh p0 p1 cols =
     (if p1 > p0 then
        (let numSamples = narrow_int (seqGetNumSamples ops (mSequence clip));
             a = appendStart wh numSamples p0 p1;
             (cols1, didUpdate) =
               (if a < p1
                then fold (appendColumn (mAppendBuffer clip) (mAppendBufferLen clip)
                             numSamples wh)
                          [a .. p1 - 1] (cols, False)
                else (cols, False));
             p1' = (if didUpdate then a else p1)
         in if p1' > p0 then
              (let (ok, out) = seqGetWaveDisplay ops (mSequence clip) (p1' - p0)
                                 (drop (nat p0) wh)
               in (ok, writeColumns cols1 p0 (p1' - p0) out))
            else (True, cols1))
      else (True, cols))"

text \<open>
  What the rebuild takes from the old cache (source lines 563-582): the old cache if any of
  it is copied, with \<^verbatim>\<open>oldX0\<close>, \<^verbatim>\<open>correction\<close>, \<^verbatim>\<open>copyBegin\<close> and \<^verbatim>\<open>copyEnd\<close>.
\<close>

definition waveReuse ::
  "'s waveClip \<Rightarrow> int \<Rightarrow> real \<Rightarrow> real \<Rightarrow> waveCache option \<times> int \<times> real \<times> int \<times> int" where
  "waveReuse clip numPixels t0 pixelsPerSecond =
     (let tstep = 1 / pixelsPerSecond;
          samplesPerPixel = real_of_int (mRate clip) * tstep;
          match = waveCacheMatch clip numPixels pixelsPerSecond;
          (oldX0, correction) =
            (case mWaveCache clip of
               Some oc \<Rightarrow>
                 if match
                 then findCorrection (wc_where oc) (wc_len oc) numPixels t0
                        (real_of_int (mRate clip)) samplesPerPixel
                 else (0, 0)
             | None \<Rightarrow> (0, 0));
          (copyBegin, copyEnd) =
            (case mWaveCache clip of
               Some oc \<Rightarrow> if match then copyRange numPixels (wc_len oc) oldX0 else (0, 0)
             | None \<Rightarrow> (0, 0));
          oldCache = (if copyEnd > copyBegin then mWaveCache clip else None)
      in (oldCache, oldX0, correction, copyBegin, copyEnd))"

text \<open>
  The rebuild of the cache (source lines 584-619 and, through \<open>fetchColumns\<close>, 621-715):
  the new cache as the function leaves it in the clip, with the boolean of \<open>fetchColumns\<close>.
\<close>

definition rebuildWaveCache ::
  "'s sequenceOps \<Rightarrow> 's waveClip \<Rightarrow> int \<Rightarrow> real \<Rightarrow> real \<Rightarrow> bool \<times> waveCache" where
  "rebuildWaveCache ops clip numPixels t0 pixelsPerSecond =
     (let (oldCache, oldX0, correction, copyBegin, copyEnd) =
            waveReuse clip numPixels t0 pixelsPerSecond;
          tstep = 1 / pixelsPerSecond;
          samplesPerPixel = real_of_int (mRate clip) * tstep;
          new0 = WaveCache_new numPixels pixelsPerSecond (mRate clip) t0 (mDirty clip);
          wh = fillWhere (wc_where new0) numPixels 0 correction t0
                 (real_of_int (mRate clip)) samplesPerPixel;
          p0 = (if copyBegin > 0 then 0 else copyEnd);
          p1 = (if copyEnd \<ge> numPixels then copyBegin else numPixels);
          cols1 =
            (case oldCache of
               None \<Rightarrow> cacheColumns new0
             | Some oc \<Rightarrow>
                 (let oc' = ClearInvalidRegions
                              (LoadInvalidRegions ops (mSequence clip) False oc);
                      len = copyEnd - copyBegin;
                      srcIdx = copyBegin + oldX0
                  in \<lparr> col_min = blit (wc_min new0) copyBegin len
                                   (drop (nat srcIdx) (wc_min oc')),
                       col_max = blit (wc_max new0) copyBegin len
                                   (drop (nat srcIdx) (wc_max oc')),
                       col_rms = blit (wc_rms new0) copyBegin len
                                   (drop (nat srcIdx) (wc_rms oc')),
                       col_bl = blit (wc_bl new0) copyBegin len
                                   (drop (nat srcIdx) (wc_bl oc')) \<rparr>));
          (ok, cols2) = fetchColumns ops clip wh p0 p1 cols1
      in (ok, setCacheColumns (new0 \<lparr> wc_where := wh \<rparr>) cols2))"

text \<open>
  \<^verbatim>\<open>WaveClip::GetWaveDisplay\<close> (source lines 504-735). The result is the returned boolean,
  the output flag \<^verbatim>\<open>isLoadingOD\<close>, the display and the clip, whose cache member the
  function replaces. \<open>pixelsPerSecond\<close> is supposed non-zero where the cache is rebuilt.
\<close>

definition GetWaveDisplay ::
  "'s sequenceOps \<Rightarrow> 's waveClip \<Rightarrow> waveDisplay \<Rightarrow> real \<Rightarrow> real
   \<Rightarrow> bool \<times> bool \<times> waveDisplay \<times> 's waveClip" where
  "GetWaveDisplay ops clip display t0 pixelsPerSecond =
     (let numPixels = d_width display
      in case d_where display of
        Some ownWhere \<Rightarrow>
          (let (ok, cols) = fetchColumns ops clip ownWhere 0 numPixels (displayColumns display);
               display' = setDisplay display cols ownWhere
           in if ok
              then (True,
                    int (length (filter (\<lambda>b. b < 0) (col_bl cols))) > 0,
                    display', clip)
              else (False, False, display', clip))
      | None \<Rightarrow>
          if waveCacheFullHit clip numPixels t0 pixelsPerSecond then
            (case mWaveCache clip of
               Some c \<Rightarrow>
                 (let c' = ClearInvalidRegions
                             (LoadInvalidRegions ops (mSequence clip) True c)
                  in (True, wc_numODPixels c' > 0,
                      setDisplay display (cacheColumns c') (wc_where c'),
                      clip \<lparr> mWaveCache := Some c' \<rparr>))
             | None \<Rightarrow> (False, False, display, clip))
          else
            (let (ok, new) = rebuildWaveCache ops clip numPixels t0 pixelsPerSecond
             in if ok
                then (True, wc_numODPixels new > 0,
                      setDisplay display (cacheColumns new) (wc_where new),
                      clip \<lparr> mWaveCache := Some new \<rparr>)
                else (False, False, display, clip \<lparr> mWaveCache := Some new \<rparr>)))"

section \<open>The spectrogram query\<close>

text \<open>\<^verbatim>\<open>SpecCache::Matches\<close> (source lines 761-780).\<close>

definition Matches :: "specCache \<Rightarrow> int \<Rightarrow> real \<Rightarrow> spectrogramSettings \<Rightarrow> int \<Rightarrow> bool" where
  "Matches c dirty pixelsPerSecond settings rate =
     (ppsMatches pixelsPerSecond (sc_pps c) (sc_len c) rate
      \<and> sc_dirty c = dirty
      \<and> sc_windowType c = ss_windowType settings
      \<and> sc_windowSize c = ss_windowSize settings
      \<and> sc_zeroPaddingFactor c = ss_zeroPaddingFactor settings
      \<and> sc_frequencyGain c = ss_frequencyGain settings
      \<and> sc_algorithm c = Some (ss_algorithm settings))"

text \<open>\<^verbatim>\<open>ComputeSpectrogramGainFactors\<close> (source lines 739-757).\<close>

definition ComputeSpectrogramGainFactors :: "int \<Rightarrow> real \<Rightarrow> int \<Rightarrow> real list" where
  "ComputeSpectrogramGainFactors fftLen rate frequencyGain =
     (if frequencyGain > 0 then
        (let factor = (rate / real_of_int fftLen) / 1000;
             half = fftLen div 2
         in real_of_int frequencyGain * log 10 factor
            # map (\<lambda>x. real_of_int frequencyGain * log 10 (factor * real x)) [1 ..< nat half])
      else [])"

text \<open>
  \<^verbatim>\<open>SpecCache::CalculateOneSpectrum\<close> (source lines 782-969) reads the samples through the
  track's read cache and transforms them with the FFT routines, both defined elsewhere. It
  is a parameter of the model, of the type below: from the gain factors, the column
  \<open>xx\<close>, the two bounds and the cache it gives the returned boolean and the buffer
  \<^verbatim>\<open>freq\<close> as the call leaves it. Its other arguments do not change during one query.
\<close>

type_synonym calculateOneSpectrum =
  "real list \<Rightarrow> int \<Rightarrow> int \<Rightarrow> int \<Rightarrow> specCache \<Rightarrow> bool \<times> real list"

text \<open>
  The two loops of the reassignment method that look beyond the edges of the range (source
  lines 1022-1048), at most \<open>limit\<close> columns each and until a call returns \<^verbatim>\<open>false\<close>.
\<close>

fun lookBefore ::
  "calculateOneSpectrum \<Rightarrow> real list \<Rightarrow> int \<Rightarrow> int \<Rightarrow> nat \<Rightarrow> int \<Rightarrow> specCache \<Rightarrow> specCache" where
  "lookBefore calc gainFactors lowerBoundX upperBoundX 0 xx c = c"
| "lookBefore calc gainFactors lowerBoundX upperBoundX (Suc n) xx c =
     (let (result, freq) = calc gainFactors (xx - 1) lowerBoundX upperBoundX c;
          c' = c \<lparr> sc_freq := freq \<rparr>
      in if result then lookBefore calc gainFactors lowerBoundX upperBoundX n (xx - 1) c'
         else c')"

fun lookAfter ::
  "calculateOneSpectrum \<Rightarrow> real list \<Rightarrow> int \<Rightarrow> int \<Rightarrow> nat \<Rightarrow> int \<Rightarrow> specCache \<Rightarrow> specCache" where
  "lookAfter calc gainFactors lowerBoundX upperBoundX 0 xx c = c"
| "lookAfter calc gainFactors lowerBoundX upperBoundX (Suc n) xx c =
     (let (result, freq) = calc gainFactors xx lowerBoundX upperBoundX c;
          c' = c \<lparr> sc_freq := freq \<rparr>
      in if result then lookAfter calc gainFactors lowerBoundX upperBoundX n (xx + 1) c'
         else c')"

text \<open>The conversion of one accumulated column to decibels (source lines 1052-1067).\<close>

definition convertColumn :: "int \<Rightarrow> int \<Rightarrow> real list \<Rightarrow> int \<Rightarrow> real list \<Rightarrow> real list" where
  "convertColumn half points gainFactors xx freq =
     (let base = half * xx;
          f1 = fold (\<lambda>ii f. f[nat (base + ii) :=
                        (if f ! nat (base + ii) \<le> 0 then - 160
                         else 10 * log 10 (f ! nat (base + ii)))])
                    [0 .. points - 1] freq
      in if gainFactors \<noteq> []
         then fold (\<lambda>ii f. f[nat (base + ii) := f ! nat (base + ii) + gainFactors ! nat ii])
                   [0 .. half - 1] f1
         else f1)"

text \<open>One pass of the loop over the two ranges of \<^verbatim>\<open>SpecCache::Populate\<close> (lines 1008-1069).\<close>

definition populateRange ::
  "calculateOneSpectrum \<Rightarrow> spectrogramSettings \<Rightarrow> real list \<Rightarrow> int \<Rightarrow> int \<Rightarrow> int \<Rightarrow> int
   \<Rightarrow> specCache \<Rightarrow> specCache" where
  "populateRange calc settings gainFactors half limit lowerBoundX upperBoundX c =
     (let c1 = fold (\<lambda>xx c. c \<lparr> sc_freq :=
                       snd (calc gainFactors xx lowerBoundX upperBoundX c) \<rparr>)
                    [lowerBoundX .. upperBoundX - 1] c
      in if ss_algorithm settings = algReassignment then
           (let c2 = lookBefore calc gainFactors lowerBoundX upperBoundX (nat limit)
                       lowerBoundX c1;
                c3 = lookAfter calc gainFactors lowerBoundX upperBoundX (nat limit)
                       upperBoundX c2
            in c3 \<lparr> sc_freq :=
                      fold (convertColumn half (ss_Points settings) gainFactors)
                           [lowerBoundX .. upperBoundX - 1] (sc_freq c3) \<rparr>)
         else c1)"

text \<open>
  \<^verbatim>\<open>SpecCache::Populate\<close> (source lines 971-1070). \<open>zeroPadded\<close> says whether the build
  defines \<^verbatim>\<open>EXPERIMENTAL_ZERO_PADDED_SPECTROGRAMS\<close>.
\<close>

definition Populate ::
  "calculateOneSpectrum \<Rightarrow> spectrogramSettings \<Rightarrow> bool \<Rightarrow> int \<Rightarrow> int \<Rightarrow> int \<Rightarrow> real \<Rightarrow> real
   \<Rightarrow> specCache \<Rightarrow> specCache" where
  "Populate calc settings zeroPadded copyBegin copyEnd numPixels rate pixelsPerSecond c =
     (let autocorrelation = (ss_algorithm settings = algPitchEAC);
          zeroPaddingFactor =
            (if zeroPadded
             then (if autocorrelation then 1 else ss_zeroPaddingFactor settings)
             else 1);
          fftLen = ss_windowSize settings * zeroPaddingFactor;
          half = fftLen div 2;
          gainFactors =
            (if \<not> autocorrelation
             then ComputeSpectrogramGainFactors fftLen rate (ss_frequencyGain settings)
             else []);
          pixelsPerSample = pixelsPerSecond / rate;
          limit = min (double_to_int (0.5 + real_of_int fftLen * pixelsPerSample)) 100
      in populateRange calc settings gainFactors half limit copyEnd numPixels
           (populateRange calc settings gainFactors half limit 0 copyBegin c))"

text \<open>\<^verbatim>\<open>match\<close> (source lines 1095-1099) and the test of the full hit (lines 1101-1103).\<close>

definition specCacheMatch :: "'s waveClip \<Rightarrow> spectrogramSettings \<Rightarrow> real \<Rightarrow> bool" where
  "specCacheMatch clip settings pixelsPerSecond =
     (case mSpecCache clip of
        None \<Rightarrow> False
      | Some c \<Rightarrow>
          sc_len c > 0 \<and> Matches c (mDirty clip) pixelsPerSecond settings (mRate clip))"

definition specCacheFullHit ::
  "'s waveClip \<Rightarrow> spectrogramSettings \<Rightarrow> int \<Rightarrow> real \<Rightarrow> real \<Rightarrow> bool" where
  "specCacheFullHit clip settings numPixels t0 pixelsPerSecond =
     (case mSpecCache clip of
        None \<Rightarrow> False
      | Some c \<Rightarrow>
          specCacheMatch clip settings pixelsPerSecond
          \<and> sc_start c = t0
          \<and> sc_len c \<ge> numPixels)"

text \<open>
  What the rebuild takes from the old cache (source lines 1109-1138): the old cache if any
  of it is copied, with \<^verbatim>\<open>oldX0\<close>, \<^verbatim>\<open>correction\<close>, \<^verbatim>\<open>copyBegin\<close> and \<^verbatim>\<open>copyEnd\<close>.
\<close>

definition specReuse ::
  "'s waveClip \<Rightarrow> spectrogramSettings \<Rightarrow> int \<Rightarrow> real \<Rightarrow> real
   \<Rightarrow> specCache option \<times> int \<times> real \<times> int \<times> int" where
  "specReuse clip settings numPixels t0 pixelsPerSecond =
     (let match =
            (if ss_algorithm settings = algReassignment then False
             else specCacheMatch clip settings pixelsPerSecond);
          tstep = 1 / pixelsPerSecond;
          samplesPerPixel = real_of_int (mRate clip) * tstep;
          (oldX0, correction) =
            (case mSpecCache clip of
               Some oc \<Rightarrow>
                 if match
                 then findCorrection (sc_where oc) (sc_len oc) numPixels t0
                        (real_of_int (mRate clip)) samplesPerPixel
                 else (0, 0)
             | None \<Rightarrow> (0, 0));
          (copyBegin, copyEnd) =
            (case mSpecCache clip of
               Some oc \<Rightarrow> if match then copyRange numPixels (sc_len oc) oldX0 else (0, 0)
             | None \<Rightarrow> (0, 0));
          oldCache = (if copyEnd > copyBegin then mSpecCache clip else None)
      in (oldCache, oldX0, correction, copyBegin, copyEnd))"

text \<open>
  The rebuild of the cache (source lines 1140-1163): the new cache as the function leaves it
  in the clip.
\<close>

definition rebuildSpecCache ::
  "calculateOneSpectrum \<Rightarrow> bool \<Rightarrow> spectrogramSettings \<Rightarrow> 's waveClip \<Rightarrow> int \<Rightarrow> real \<Rightarrow> real
   \<Rightarrow> specCache" where
  "rebuildSpecCache calc zeroPadded settings clip numPixels t0 pixelsPerSecond =
     (let autocorrelation = (ss_algorithm settings = algPitchEAC);
          zeroPaddingFactor =
            (if zeroPadded
             then (if autocorrelation then 1 else ss_zeroPaddingFactor settings)
             else 1);
          fftLen = ss_windowSize settings * zeroPaddingFactor;
          half = fftLen div 2;
          (oldCache, oldX0, correction, copyBegin, copyEnd) =
            specReuse clip settings numPixels t0 pixelsPerSecond;
          tstep = 1 / pixelsPerSecond;
          samplesPerPixel = real_of_int (mRate clip) * tstep;
          new0 = SpecCache_new numPixels (ss_algorithm settings) pixelsPerSecond t0
                   (ss_windowType settings) (ss_windowSize settings) zeroPaddingFactor
                   (ss_frequencyGain settings);
          new1 = new0 \<lparr> sc_where :=
                   fillWhere (sc_where new0) numPixels 0.5 correction t0
                     (real_of_int (mRate clip)) samplesPerPixel \<rparr>;
          new2 =
            (case oldCache of
               None \<Rightarrow> new1
             | Some oc \<Rightarrow>
                 new1 \<lparr> sc_freq :=
                   blit (sc_freq new1) (half * copyBegin) (half * (copyEnd - copyBegin))
                     (drop (nat (half * (copyBegin + oldX0))) (sc_freq oc)) \<rparr>);
          new3 = Populate calc settings zeroPadded copyBegin copyEnd numPixels
                   (real_of_int (mRate clip)) pixelsPerSecond new2
      in new3 \<lparr> sc_dirty := mDirty clip \<rparr>)"

text \<open>
  \<^verbatim>\<open>WaveClip::GetSpectrogram\<close> (source lines 1072-1167). The result is the returned boolean,
  the two output pointers \<^verbatim>\<open>spectrogram\<close> and \<^verbatim>\<open>where\<close> with what they point at, and
  the clip.
\<close>

definition GetSpectrogram ::
  "calculateOneSpectrum \<Rightarrow> bool \<Rightarrow> spectrogramSettings \<Rightarrow> 's waveClip \<Rightarrow> int \<Rightarrow> real \<Rightarrow> real
   \<Rightarrow> bool \<times> real list \<times> int list \<times> 's waveClip" where
  "GetSpectrogram calc zeroPadded settings clip numPixels t0 pixelsPerSecond =
     (if specCacheFullHit clip settings numPixels t0 pixelsPerSecond then
        (case mSpecCache clip of
           Some c \<Rightarrow> (False, sc_freq c, sc_where c, clip)
         | None \<Rightarrow> (False, [], [], clip))
      else
        (let new = rebuildSpecCache calc zeroPadded settings clip numPixels t0 pixelsPerSecond
         in (True, sc_freq new, sc_where new, clip \<lparr> mSpecCache := Some new \<rparr>)))"

section \<open>Mutations of the clip\<close>

text \<open>
  Modelled from the spec: \<^verbatim>\<open>WaveClip::MarkChanged\<close>, which is called throughout the source
  and defined in the header \<^verbatim>\<open>WaveClip.h\<close>. By the spec it is the single step that
  increments the dirty generation.
\<close>

definition MarkChanged :: "'s waveClip \<Rightarrow> 's waveClip" where
  "MarkChanged clip = clip \<lparr> mDirty := mDirty clip + 1 \<rparr>"

text \<open>\<^verbatim>\<open>TimeToSamplesClip\<close> (source lines 1222-1230); the rate is supposed non-zero.\<close>

definition TimeToSamplesClip :: "'s sequenceOps \<Rightarrow> 's waveClip \<Rightarrow> real \<Rightarrow> int" where
  "TimeToSamplesClip ops clip t0 =
     (if t0 < mOffset clip then 0
      else if t0 > mOffset clip
                   + real_of_int (seqGetNumSamples ops (mSequence clip))
                     / real_of_int (mRate clip)
      then seqGetNumSamples ops (mSequence clip)
      else \<lfloor>(t0 - mOffset clip) * real_of_int (mRate clip) + 0.5\<rfloor>)"

text \<open>\<^verbatim>\<open>SetSamples\<close> (source lines 359-365).\<close>

definition SetSamples ::
  "'s sequenceOps \<Rightarrow> 's waveClip \<Rightarrow> real list \<Rightarrow> int \<Rightarrow> int \<Rightarrow> bool \<times> 's waveClip" where
  "SetSamples ops clip buffer start len =
     (let (bResult, s') = seqSet ops (mSequence clip) buffer start len
      in (bResult, MarkChanged (clip \<lparr> mSequence := s' \<rparr>)))"

text \<open>\<^verbatim>\<open>InsertSilence\<close> (source lines 1487-1503).\<close>

definition InsertSilence ::
  "'s sequenceOps \<Rightarrow> 's waveClip \<Rightarrow> real \<Rightarrow> real \<Rightarrow> bool \<times> 's waveClip" where
  "InsertSilence ops clip t len =
     (let s0 = TimeToSamplesClip ops clip t;
          slen = \<lfloor>len * real_of_int (mRate clip) + 0.5\<rfloor>;
          (ok, s') = seqInsertSilence ops (mSequence clip) s0 slen
      in if \<not> ok then (False, clip \<lparr> mSequence := s' \<rparr>)
         else (True, MarkChanged (clip \<lparr> mSequence := s' \<rparr>)))"

text \<open>
  \<^verbatim>\<open>Clear\<close> (source lines 1505-1562). \<^verbatim>\<open>Offset(d)\<close> adds \<open>d\<close> to the offset of the clip.
\<close>

definition Clear ::
  "'s sequenceOps \<Rightarrow> 's waveClip \<Rightarrow> real \<Rightarrow> real \<Rightarrow> bool \<times> 's waveClip" where
  "Clear ops clip t0 t1 =
     (let s0 = TimeToSamplesClip ops clip t0;
          s1 = TimeToSamplesClip ops clip t1;
          (ok, s') = seqDelete ops (mSequence clip) s0 (s1 - s0);
          clip1 = clip \<lparr> mSequence := s' \<rparr>
      in if ok then
           (let clip2 =
                  (if t0 < mOffset clip1
                   then clip1 \<lparr> mOffset := mOffset clip1 + (- (mOffset clip1 - t0)) \<rparr>
                   else clip1)
            in (True, MarkChanged clip2))
         else (False, clip1))"

text \<open>
  \<^verbatim>\<open>Append\<close> (source lines 1248-1298). The loop \<^verbatim>\<open>for(;;)\<close> has no bound of its own: the model
  counts its passes down from \<open>fuel\<close>, and \<open>None\<close> says that the fuel did not suffice.
  \<open>buffer\<close> is what remains of the samples to append.
\<close>

fun AppendLoop ::
  "nat \<Rightarrow> 's sequenceOps \<Rightarrow> int \<Rightarrow> int \<Rightarrow> real list \<Rightarrow> 's waveClip
   \<Rightarrow> (bool \<times> 's waveClip) option" where
  "AppendLoop 0 ops maxBlockSize blockSize buffer clip = None"
| "AppendLoop (Suc fuel) ops maxBlockSize blockSize buffer clip =
     (let flushed =
            (if mAppendBufferLen clip \<ge> blockSize then
               (let (success, s') =
                      seqAppend ops (mSequence clip)
                        (take (nat blockSize) (mAppendBuffer clip))
                in if \<not> success then Inl (clip \<lparr> mSequence := s' \<rparr>)
                   else Inr
                     (clip \<lparr> mSequence := s',
                             mAppendBuffer :=
                               take (nat (mAppendBufferLen clip - blockSize))
                                 (drop (nat blockSize) (mAppendBuffer clip)),
                             mAppendBufferLen := mAppendBufferLen clip - blockSize \<rparr>,
                      seqGetIdealAppendLen ops s'))
             else Inr (clip, blockSize))
      in case flushed of
           Inl failed \<Rightarrow> Some (False, failed)
         | Inr (clip1, blockSize1) \<Rightarrow>
             if buffer = [] then Some (True, MarkChanged clip1)
             else
               (let toCopy0 = maxBlockSize - mAppendBufferLen clip1;
                    toCopy = (if toCopy0 > int (length buffer) then int (length buffer)
                              else toCopy0);
                    clip2 = clip1
                      \<lparr> mAppendBuffer :=
                          take (nat (mAppendBufferLen clip1)) (mAppendBuffer clip1)
                          @ take (nat toCopy) buffer,
                        mAppendBufferLen := mAppendBufferLen clip1 + toCopy \<rparr>
                in AppendLoop fuel ops maxBlockSize blockSize1 (drop (nat toCopy) buffer)
                     clip2))"

definition Append ::
  "nat \<Rightarrow> 's sequenceOps \<Rightarrow> 's waveClip \<Rightarrow> real list \<Rightarrow> (bool \<times> 's waveClip) option" where
  "Append fuel ops clip buffer =
     AppendLoop fuel ops (seqGetMaxBlockSize ops (mSequence clip))
       (seqGetIdealAppendLen ops (mSequence clip)) buffer clip"

text \<open>\<^verbatim>\<open>Flush\<close> (source lines 1324-1343).\<close>

definition Flush :: "'s sequenceOps \<Rightarrow> 's waveClip \<Rightarrow> bool \<times> 's waveClip" where
  "Flush ops clip =
     (if mAppendBufferLen clip > 0 then
        (let (success, s') =
               seqAppend ops (mSequence clip)
                 (take (nat (mAppendBufferLen clip)) (mAppendBuffer clip));
             clip1 = clip \<lparr> mSequence := s' \<rparr>
         in if success then (True, MarkChanged (clip1 \<lparr> mAppendBufferLen := 0 \<rparr>))
            else (False, clip1))
      else (True, clip))"

text \<open>\<^verbatim>\<open>ConvertToSampleFormat\<close> (source lines 1208-1215).\<close>

definition ConvertToSampleFormat ::
  "'s sequenceOps \<Rightarrow> 's waveClip \<Rightarrow> sampleFormat \<Rightarrow> 's waveClip" where
  "ConvertToSampleFormat ops clip format =
     (let (bResult, bChanged, s') = seqConvertToSampleFormat ops (mSequence clip) format;
          clip1 = clip \<lparr> mSequence := s' \<rparr>
      in if bResult \<and> bChanged then MarkChanged clip1 else clip1)"

text \<open>
  \<^verbatim>\<open>Resample\<close> (source lines 1728-1822): on success the sequence and the rate are replaced
  and both caches are replaced by empty ones; the dirty generation is not touched.
\<close>

definition Resample :: "'s sequenceOps \<Rightarrow> 's waveClip \<Rightarrow> int \<Rightarrow> bool \<times> 's waveClip" where
  "Resample ops clip rate =
     (if rate = mRate clip then (True, clip)
      else
        (case seqResampled ops (mSequence clip) (mRate clip) rate of
           None \<Rightarrow> (False, clip)
         | Some newSequence \<Rightarrow>
             (True, clip \<lparr> mSequence := newSequence, mRate := rate,
                           mWaveCache := Some WaveCache_default,
                           mSpecCache := Some SpecCache_default \<rparr>)))"

text \<open>The copying constructor (source lines 307-330).\<close>

definition WaveClip_copy :: "'s waveClip \<Rightarrow> 's waveClip" where
  "WaveClip_copy orig =
     \<lparr> mOffset = mOffset orig, mRate = mRate orig, mSequence = mSequence orig,
       mWaveCache = Some WaveCache_default, mSpecCache = Some SpecCache_default,
       mAppendBuffer = [], mAppendBufferLen = 0, mDirty = 0 \<rparr>"

text \<open>\<^verbatim>\<open>Paste\<close> (source lines 1435-1485).\<close>

definition Paste ::
  "'s sequenceOps \<Rightarrow> 's waveClip \<Rightarrow> real \<Rightarrow> 's waveClip \<Rightarrow> bool \<times> 's waveClip" where
  "Paste ops clip t0 other =
     (let clipNeedsResampling = (mRate other \<noteq> mRate clip);
          clipNeedsNewFormat =
            (seqGetSampleFormat ops (mSequence other)
             \<noteq> seqGetSampleFormat ops (mSequence clip));
          pastedClip =
            (if clipNeedsResampling \<or> clipNeedsNewFormat then
               (let newClip = WaveClip_copy other;
                    resampled =
                      (if clipNeedsResampling
                       then (case Resample ops newClip (mRate clip) of
                               (True, r) \<Rightarrow> Some r
                             | (False, r) \<Rightarrow> None)
                       else Some newClip)
                in map_option
                     (\<lambda>r. if clipNeedsNewFormat
                          then ConvertToSampleFormat ops r
                                 (seqGetSampleFormat ops (mSequence clip))
                          else r)
                     resampled)
             else Some other)
      in case pastedClip of
           None \<Rightarrow> (False, clip)
         | Some pasted \<Rightarrow>
             (let s0 = TimeToSamplesClip ops clip t0;
                  (ok, s') = seqPaste ops (mSequence clip) s0 (mSequence pasted);
                  clip1 = clip \<lparr> mSequence := s' \<rparr>
              in if ok then (True, MarkChanged clip1) else (False, clip1)))"


section \<open>A concrete Sample Sequence\<close>

text \<open>
  To run the model on concrete inputs the collaborator is instantiated by a sequence that
  is known by its number of samples only: every column it summarises has minimum \<open>- 1\<close>,
  maximum \<open>1\<close>, root mean square \<open>1\<close> and block flag \<open>1\<close>. The two booleans say whether its
  summarising call and its appending call succeed; a failing call writes nothing and
  leaves the sequence as it is.
\<close>

definition squareOps :: "bool \<Rightarrow> bool \<Rightarrow> int sequenceOps" where
  "squareOps displayOk appendOk =
     \<lparr> seqGetNumSamples = (\<lambda>s. s),
       seqGetSampleFormat = (\<lambda>s. floatSample),
       seqGetMaxBlockSize = (\<lambda>s. 4),
       seqGetIdealAppendLen = (\<lambda>s. 2),
       seqGetWaveDisplay = (\<lambda>s len wh.
         if displayOk
         then (True, \<lparr> col_min = replicate (nat len) (- 1), col_max = replicate (nat len) 1,
                       col_rms = replicate (nat len) 1, col_bl = replicate (nat len) 1 \<rparr>)
         else (False, \<lparr> col_min = [], col_max = [], col_rms = [], col_bl = [] \<rparr>)),
       seqSet = (\<lambda>s buffer start len. (True, s)),
       seqAppend = (\<lambda>s buffer. if appendOk then (True, s + int (length buffer)) else (False, s)),
       seqInsertSilence = (\<lambda>s s0 slen. (True, s + slen)),
       seqDelete = (\<lambda>s s0 len. (True, s - len)),
       seqPaste = (\<lambda>s s0 other. (True, s + other)),
       seqConvertToSampleFormat = (\<lambda>s format. (True, False, s)),
       seqResampled = (\<lambda>s oldRate newRate. Some (s * newRate div oldRate)) \<rparr>"

text \<open>
  A display that owns zeroed buffers and the mapping \<open>wh\<close>, and a display without buffers
  of its own, both \<open>n\<close> pixels wide.
\<close>

definition ownedDisplay :: "int \<Rightarrow> int list \<Rightarrow> waveDisplay" where
  "ownedDisplay n wh =
     \<lparr> d_width = n, d_where = Some wh, d_min = replicate (nat n) 0,
       d_max = replicate (nat n) 0, d_rms = replicate (nat n) 0,
       d_bl = replicate (nat n) 0 \<rparr>"

definition emptyDisplay :: "int \<Rightarrow> waveDisplay" where
  "emptyDisplay n =
     \<lparr> d_width = n, d_where = None, d_min = [], d_max = [], d_rms = [], d_bl = [] \<rparr>"


text \<open>
  A clip of 1000 samples at rate 100 as the constructor leaves it, and three caches of the
  view that starts at time 0 with ten pixels per second (ten samples to the pixel): of five
  columns before the sequence has filled them, of five columns filled, and of no column.
\<close>

definition freshClip :: "int waveClip" where
  "freshClip = WaveClip_new 1000 100"

definition unfilledCache :: waveCache where
  "unfilledCache = (WaveCache_new 5 10 100 0 0) \<lparr> wc_where := [0, 10, 20, 30, 40, 50] \<rparr>"

definition filledCache :: waveCache where
  "filledCache = unfilledCache
     \<lparr> wc_min := [- 1, - 1, - 1, - 1, - 1], wc_max := [1, 1, 1, 1, 1],
       wc_rms := [1, 1, 1, 1, 1], wc_bl := [1, 1, 1, 1, 1] \<rparr>"

definition zeroCache :: waveCache where
  "zeroCache = (WaveCache_new 0 10 100 0 0) \<lparr> wc_where := [0] \<rparr>"

text \<open>
  A cache of ten columns, one sample to the pixel, with two regions; the unfilled cache of
  five columns with the columns 1 and 2 invalid; and a sequence that answers every column
  as not yet loaded (a negative block count).
\<close>

definition twoRegionCache :: waveCache where
  "twoRegionCache = (WaveCache_new 10 100 100 0 0)
     \<lparr> wc_mRegions := [\<lparr> region_start = 2, region_end = 3 \<rparr>,
                        \<lparr> region_start = 7, region_end = 8 \<rparr>] \<rparr>"

definition staleCache :: waveCache where
  "staleCache = unfilledCache \<lparr> wc_mRegions := [\<lparr> region_start = 1, region_end = 3 \<rparr>] \<rparr>"

definition onDemandOps :: "int sequenceOps" where
  "onDemandOps = (squareOps True True)
     \<lparr> seqGetWaveDisplay := (\<lambda>s len wh.
          (True, \<lparr> col_min = replicate (nat len) 0, col_max = replicate (nat len) 0,
                  col_rms = replicate (nat len) 0, col_bl = replicate (nat len) (- 1) \<rparr>)) \<rparr>"

text \<open>
  For the spectrogram the computation of one column is instantiated by a function that
  writes the power 10 into the first bin of the column it is asked for, when the column is
  one of the cache, and reports that nothing was reassigned. The settings have a window of
  two samples, so that a column has one bin. The old cache covers three columns from time
  0 at ten pixels per second, with 7 in every bin.
\<close>

definition markColumn :: calculateOneSpectrum where
  "markColumn gainFactors xx lowerBoundX upperBoundX c =
     (False, if 0 \<le> xx \<and> xx < sc_len c then (sc_freq c)[nat xx := 10] else sc_freq c)"

definition stftSettings :: spectrogramSettings where
  "stftSettings =
     \<lparr> ss_algorithm = algSTFT, ss_windowType = 3, ss_windowSize = 2,
       ss_zeroPaddingFactor = 1, ss_frequencyGain = 0, ss_Points = 1 \<rparr>"

definition reassignmentSettings :: spectrogramSettings where
  "reassignmentSettings = stftSettings \<lparr> ss_algorithm := algReassignment \<rparr>"

definition oldSpecCache :: "algorithm \<Rightarrow> specCache" where
  "oldSpecCache alg =
     (SpecCache_new 3 alg 10 0 3 2 1 0)
       \<lparr> sc_where := [1, 11, 21, 31], sc_freq := [7, 7, 7], sc_dirty := 0 \<rparr>"

text \<open>The clip after a waveform query and a spectrogram query of the view from time 0.\<close>

definition cachedClip :: "int waveClip" where
  "cachedClip = freshClip \<lparr> mWaveCache := Some filledCache,
                            mSpecCache := Some (oldSpecCache algSTFT) \<rparr>"

section \<open>Notions used in the statements\<close>

text \<open>A region covers the closed range \<open>[x, y]\<close> of pixel columns.\<close>

definition covers :: "invalidRegion \<Rightarrow> int \<Rightarrow> int \<Rightarrow> bool" where
  "covers r x y = (region_start r \<le> x \<and> y \<le> region_end r)"

text \<open>
  The pixel columns of a region, a closed range, and those of a list of regions.
\<close>

definition regionPixels :: "invalidRegion \<Rightarrow> int set" where
  "regionPixels r = {region_start r .. region_end r}"

definition invalidPixels :: "invalidRegion list \<Rightarrow> int set" where
  "invalidPixels rs = \<Union> (regionPixels ` set rs)"

text \<open>Every region has its start at or before its end.\<close>

definition wellFormed :: "invalidRegion list \<Rightarrow> bool" where
  "wellFormed rs = (\<forall>r \<in> set rs. region_start r \<le> region_end r)"

text \<open>Every region lies within \<open>[0, len]\<close>, the range to which \<^verbatim>\<open>AddInvalidRegion\<close> clips.\<close>

definition regionsWithin :: "int \<Rightarrow> invalidRegion list \<Rightarrow> bool" where
  "regionsWithin len rs = (\<forall>r \<in> set rs. 0 \<le> region_start r \<and> region_end r \<le> len)"

text \<open>
  The four arrays of a cache at one pixel column, and what the sequence summarises for the
  columns \<open>[region_start, region_end)\<close> of a region from the mapping \<open>wh\<close>.
\<close>

definition columnAt :: "waveColumns \<Rightarrow> nat \<Rightarrow> real \<times> real \<times> real \<times> int" where
  "columnAt cols i = (col_min cols ! i, col_max cols ! i, col_rms cols ! i, col_bl cols ! i)"

definition regionColumns ::
  "'s sequenceOps \<Rightarrow> 's \<Rightarrow> int list \<Rightarrow> invalidRegion \<Rightarrow> waveColumns" where
  "regionColumns ops s wh r =
     snd (seqGetWaveDisplay ops s (region_end r - region_start r)
            (drop (nat (region_start r)) wh))"

text \<open>
  The column \<open>i\<close> of a cache whose invalid regions have been loaded in the order of the
  container: what the sequence summarises for the last region that holds \<open>i\<close>, and the
  cached column when no region holds it.
\<close>

definition drainedColumn ::
  "'s sequenceOps \<Rightarrow> 's \<Rightarrow> waveCache \<Rightarrow> nat \<Rightarrow> real \<times> real \<times> real \<times> int" where
  "drainedColumn ops s c i =
     (case find (\<lambda>r. region_start r \<le> int i \<and> int i < region_end r) (rev (wc_mRegions c)) of
        None \<Rightarrow> columnAt (cacheColumns c) i
      | Some r \<Rightarrow> columnAt (regionColumns ops s (wc_where c) r) (i - nat (region_start r)))"

text \<open>The summarising call of the sequence writes every column it is asked for.\<close>

definition fullColumns :: "'s sequenceOps \<Rightarrow> 's \<Rightarrow> bool" where
  "fullColumns ops s =
     (\<forall>n wh. length (col_min (snd (seqGetWaveDisplay ops s n wh))) = nat n
           \<and> length (col_max (snd (seqGetWaveDisplay ops s n wh))) = nat n
           \<and> length (col_rms (snd (seqGetWaveDisplay ops s n wh))) = nat n
           \<and> length (col_bl (snd (seqGetWaveDisplay ops s n wh))) = nat n)"

text \<open>
  The four arrays of the cache have \<open>len\<close> entries, as its constructor allocates them, and
  its regions lie within \<open>[0, len]\<close>.
\<close>

definition wellSized :: "waveCache \<Rightarrow> bool" where
  "wellSized c =
     (length (wc_min c) = nat (wc_len c) \<and> length (wc_max c) = nat (wc_len c)
      \<and> length (wc_rms c) = nat (wc_len c) \<and> length (wc_bl c) = nat (wc_len c)
      \<and> regionsWithin (wc_len c) (wc_mRegions c))"

text \<open>
  The spec's condition for dropping a range, in its own words: both converted endpoints lie
  beyond the closed range \<open>[0, len]\<close> on the same side.
\<close>

definition beyondSameSide :: "int \<Rightarrow> int \<Rightarrow> int \<Rightarrow> bool" where
  "beyondSameSide len a b = ((a < 0 \<and> b < 0) \<or> (a > len \<and> b > len))"

text \<open>
  The spec's condition for the full hit of the waveform query, in its own words: the cached
  dirty value is the clip's, the pixels per second match under the tolerance over the
  requested pixels, the cached start is the requested one and the cached length is at
  least the requested pixel count.
\<close>

definition fullHitPerSpec :: "'s waveClip \<Rightarrow> int \<Rightarrow> real \<Rightarrow> real \<Rightarrow> bool" where
  "fullHitPerSpec clip numPixels t0 pixelsPerSecond =
     (case mWaveCache clip of
        None \<Rightarrow> False
      | Some c \<Rightarrow>
          wc_dirty c = mDirty clip
          \<and> ppsMatches pixelsPerSecond (wc_pps c) numPixels (mRate clip)
          \<and> wc_start c = t0
          \<and> wc_len c \<ge> numPixels)"

text \<open>A spectrogram cache without its buffer: what identifies the view.\<close>

definition specKey :: "specCache \<Rightarrow> specCache" where
  "specKey c = c \<lparr> sc_freq := [] \<rparr>"

text \<open>
  No cache of the clip is tagged with a later generation than the clip's own. The
  constructor establishes this, and the queries and \<^verbatim>\<open>MarkChanged\<close> keep it.
\<close>

definition cachesNotNewer :: "'s waveClip \<Rightarrow> bool" where
  "cachesNotNewer clip =
     ((case mWaveCache clip of None \<Rightarrow> True | Some c \<Rightarrow> wc_dirty c \<le> mDirty clip)
      \<and> (case mSpecCache clip of None \<Rightarrow> True | Some c \<Rightarrow> sc_dirty c \<le> mDirty clip))"

text \<open>The second clip is the first after one \<^verbatim>\<open>MarkChanged\<close>, with the same caches.\<close>

definition markedChanged :: "'s waveClip \<Rightarrow> 's waveClip \<Rightarrow> bool" where
  "markedChanged clip clip' =
     (mDirty clip' = mDirty clip + 1
      \<and> mWaveCache clip' = mWaveCache clip
      \<and> mSpecCache clip' = mSpecCache clip)"

section \<open>Properties of the correction engine\<close>

lemma fold_update_upt:
  "a \<le> b \<Longrightarrow> b \<le> length w \<Longrightarrow>
   fold (\<lambda>x w. w[x := f x]) [a ..< b] w = take a w @ map f [a ..< b] @ drop b w"
proof (induction b)
  case 0
  then show ?case by simp
next
  case (Suc b)
  show ?case
  proof (cases "a = Suc b")
    case True
    then show ?thesis by simp
  next
    case False
    with Suc.prems have ab: "a \<le> b" and bl: "b < length w" by simp_all
    have "fold (\<lambda>x w. w[x := f x]) [a ..< Suc b] w
          = (take a w @ map f [a ..< b] @ drop b w)[b := f b]"
      using ab bl Suc.IH by simp
    also have "\<dots> = take a w @ map f [a ..< b] @ (drop b w)[0 := f b]"
      using ab bl by (simp add: list_update_append)
    also have "(drop b w)[0 := f b] = f b # drop (Suc b) w"
      using bl by (metis Cons_nth_drop_Suc list_update_code(2))
    finally show ?thesis using ab by simp
  qed
qed

text \<open>
  On a vector of \<open>len + 1\<close> entries, as both cache constructors allocate it, \<^verbatim>\<open>fillWhere\<close>
  leaves the clamped first entry followed by one floor for each further column.
\<close>

lemma fillWhere_closed:
  assumes "length wh = nat len + 1"
  shows "fillWhere wh len bias correction t0 rate spp =
         max 0 \<lfloor>0.5 + correction + bias + t0 * rate\<rfloor>
         # map (\<lambda>x. \<lfloor>0.5 + correction + bias + t0 * rate + real x * spp\<rfloor>)
               [1 ..< nat len + 1]"
proof -
  obtain v vs where wh: "wh = v # vs" and lvs: "length vs = nat len"
    using assms by (cases wh) auto
  show ?thesis
  proof (cases "0 \<le> len")
    case True
    then have "nat (len + 1) = nat len + 1" by auto
    then show ?thesis
      using lvs unfolding fillWhere_def Let_def wh
      by (simp add: fold_update_upt del: upt_Suc)
  next
    case False
    then have "nat (len + 1) = 0" "nat len = 0" by auto
    then show ?thesis
      using lvs unfolding fillWhere_def Let_def wh by simp
  qed
qed

lemma sorted_fillWhere_closed:
  assumes spp: "0 \<le> spp" and first: "0 \<le> \<lfloor>w0 + spp\<rfloor>"
  shows "sorted (max 0 \<lfloor>w0\<rfloor> # map (\<lambda>x. \<lfloor>w0 + real x * spp\<rfloor>) [1 ..< n])"
proof -
  have mono: "\<lfloor>w0 + real x * spp\<rfloor> \<le> \<lfloor>w0 + real y * spp\<rfloor>" if "x \<le> y" for x y
    using that spp by (intro floor_mono) (simp add: mult_right_mono)
  have hd: "max 0 \<lfloor>w0\<rfloor> \<le> \<lfloor>w0 + real x * spp\<rfloor>" if "1 \<le> x" for x
  proof -
    have a: "\<lfloor>w0 + spp\<rfloor> \<le> \<lfloor>w0 + real x * spp\<rfloor>" using mono[OF that] by simp
    have b: "\<lfloor>w0\<rfloor> \<le> \<lfloor>w0 + spp\<rfloor>" using spp by (intro floor_mono) simp
    show ?thesis using a b first by linarith
  qed
  have "sorted (map (\<lambda>x. \<lfloor>w0 + real x * spp\<rfloor>) [1 ..< n])"
    unfolding sorted_map by (rule sorted_wrt_mono_rel[OF _ sorted_upt]) (simp add: mono)
  then show ?thesis using hd by auto
qed

text \<open>The clamp of source line 479 keeps the correction within one pixel's samples.\<close>

lemma findCorrection_bound:
  "\<bar>snd (findCorrection oldWhere oldLen newLen t0 rate spp)\<bar> \<le> \<bar>spp\<bar>"
  unfolding findCorrection_def Let_def by (auto simp: abs_le_iff)


text \<open>
  Claim C1, as the source has it. For a positive pixel count, positive pixels per second
  and a positive rate, the mapping that \<^verbatim>\<open>fillWhere\<close> writes into a vector of
  \<open>numPixels + 1\<close> entries has \<open>numPixels + 1\<close> entries and starts at a sample index that is
  not negative, whatever the start time; it is non-decreasing when the start time is not
  negative. The bias is the one of the waveform (\<open>0\<close>) or of the spectrogram (\<open>1/2\<close>), and
  the correction is \<open>0\<close> or the one \<^verbatim>\<open>findCorrection\<close> gives, as in both queries.
\<close>

theorem fillWhere_sorted:
  assumes "0 < numPixels" and "0 < pixelsPerSecond" and "0 < rate"
    and "bias = 0 \<or> bias = 1 / 2"
    and "correction = 0
         \<or> correction = snd (findCorrection oldWhere oldLen numPixels t0 (real_of_int rate)
                               (real_of_int rate * (1 / pixelsPerSecond)))"
    and "length wh = nat (1 + numPixels)"
  shows "length (fillWhere wh numPixels bias correction t0 (real_of_int rate)
                   (real_of_int rate * (1 / pixelsPerSecond))) = nat numPixels + 1
       \<and> 0 \<le> fillWhere wh numPixels bias correction t0 (real_of_int rate)
                   (real_of_int rate * (1 / pixelsPerSecond)) ! 0
       \<and> (0 \<le> t0
            \<longrightarrow> sorted (fillWhere wh numPixels bias correction t0 (real_of_int rate)
                          (real_of_int rate * (1 / pixelsPerSecond))))"
proof -
  let ?spp = "real_of_int rate * (1 / pixelsPerSecond)"
  let ?w0 = "0.5 + correction + bias + t0 * real_of_int rate"
  let ?tail = "map (\<lambda>x. \<lfloor>?w0 + real x * ?spp\<rfloor>) [1 ..< nat numPixels + 1]"
  have len: "length wh = nat numPixels + 1" using assms by auto
  have spp: "0 \<le> ?spp" using assms by simp
  have closed: "fillWhere wh numPixels bias correction t0 (real_of_int rate) ?spp
                = max 0 \<lfloor>?w0\<rfloor> # ?tail"
    by (rule fillWhere_closed[OF len])
  have "length (max 0 \<lfloor>?w0\<rfloor> # ?tail) = nat numPixels + 1"
    by simp
  moreover have "0 \<le> (max 0 \<lfloor>?w0\<rfloor> # ?tail) ! 0"
    by simp
  moreover have "sorted (max 0 \<lfloor>?w0\<rfloor> # ?tail)" if t0: "0 \<le> t0"
  proof -
    have "\<bar>correction\<bar> \<le> \<bar>?spp\<bar>"
      using assms(5) findCorrection_bound[of oldWhere oldLen numPixels t0 "real_of_int rate" ?spp]
      by auto
    then have corr: "- ?spp \<le> correction" using spp by linarith
    have bias: "0 \<le> bias" using assms(4) by auto
    have "0 \<le> t0 * real_of_int rate" using assms(3) t0 by simp
    then have "0 \<le> ?w0 + ?spp" using bias corr by linarith
    then have first: "0 \<le> \<lfloor>?w0 + ?spp\<rfloor>" by simp
    show ?thesis
      by (rule sorted_fillWhere_closed[OF spp first])
  qed
  ultimately show ?thesis
    unfolding closed by blast
qed

text \<open>
  The theorem at two pixels, ten pixels per second and rate 100: from the start 0.25 the
  mapping is \<open>[25, 35, 45]\<close>; from the start \<open>- 2\<close> its first entry is 0.
\<close>

theorem fillWhere_sorted_witness:
  "fillWhere (replicate 3 0) 2 0 0 (1 / 4) (real_of_int 100) (real_of_int 100 * (1 / 10))
     = [25, 35, 45]
   \<and> sorted (fillWhere (replicate 3 0) 2 0 0 (1 / 4) (real_of_int 100)
               (real_of_int 100 * (1 / 10)))
   \<and> length (fillWhere (replicate 3 0) 2 0 0 (- 2) (real_of_int 100)
               (real_of_int 100 * (1 / 10))) = nat 2 + 1
   \<and> 0 \<le> fillWhere (replicate 3 0) 2 0 0 (- 2) (real_of_int 100)
               (real_of_int 100 * (1 / 10)) ! 0"
proof -
  have "fillWhere (replicate 3 0) 2 0 0 (1 / 4) (real_of_int 100) (real_of_int 100 * (1 / 10))
        = [25, 35, 45]"
    by (simp add: fillWhere_def upt_rec eval_nat_numeral)
  moreover have "sorted (fillWhere (replicate 3 0) 2 0 0 (1 / 4) (real_of_int 100)
                   (real_of_int 100 * (1 / 10)))"
    using fillWhere_sorted[of 2 10 100 0 0 "[]" 0 "1 / 4" "replicate 3 0"]
    by simp
  moreover have "length (fillWhere (replicate 3 0) 2 0 0 (- 2) (real_of_int 100)
                   (real_of_int 100 * (1 / 10))) = nat 2 + 1
      \<and> 0 \<le> fillWhere (replicate 3 0) 2 0 0 (- 2) (real_of_int 100)
                   (real_of_int 100 * (1 / 10)) ! 0"
    using fillWhere_sorted[of 2 10 100 0 0 "[]" 0 "- 2" "replicate 3 0"]
    by simp
  ultimately show ?thesis by blast
qed

text \<open>
  Claim C1 as stated, with any start time, fails: at start \<open>- 2\<close> seconds, rate 44100 and one
  pixel per second the mapping of two columns is \<open>[0, - 44100, 0]\<close>. Only the first entry
  is clamped at zero (source line 490).
\<close>

theorem fillWhere_negative_start_not_sorted:
  "fillWhere (replicate 3 0) 2 0 0 (- 2) 44100 (44100 * (1 / 1)) = [0, - 44100, 0]
   \<and> \<not> sorted (fillWhere (replicate 3 0) 2 0 0 (- 2) 44100 (44100 * (1 / 1)))"
  by (simp add: fillWhere_def upt_rec eval_nat_numeral)

text \<open>
  Claim C5. When the sample range of the old cache ends at or before the first sample of the
  new view, or the new view ends at or before the origin of the old cache, or the length
  of the old cache in samples is below one half, \<^verbatim>\<open>findCorrection\<close> gives the old length
  for \<^verbatim>\<open>oldX0\<close> and a correction of zero.
\<close>

theorem findCorrection_degenerate:
  assumes "real_of_int (oldWhere ! 1) - samplesPerPixel + real_of_int oldLen * samplesPerPixel
             \<le> t0 * rate
         \<or> t0 * rate + real_of_int newLen * samplesPerPixel
             \<le> real_of_int (oldWhere ! 1) - samplesPerPixel
         \<or> real_of_int oldLen * samplesPerPixel < 1 / 2"
  shows "findCorrection oldWhere oldLen newLen t0 rate samplesPerPixel = (oldLen, 0)"
  using assms unfolding findCorrection_def Let_def by auto

text \<open>One input for each of the three cases.\<close>

theorem findCorrection_degenerate_witness:
  "findCorrection [0, 10, 20, 30] 3 3 5 10 10 = (3, 0)
   \<and> findCorrection [100, 110, 120, 130] 3 3 0 10 10 = (3, 0)
   \<and> findCorrection [0, 0, 0, 0] 3 3 0 10 (1 / 10) = (3, 0)"
  using findCorrection_degenerate[of "[0, 10, 20, 30]" 10 3 5 10 3]
    findCorrection_degenerate[of "[100, 110, 120, 130]" 10 3 0 10 3]
    findCorrection_degenerate[of "[0, 0, 0, 0]" "1 / 10" 3 0 10 3]
  by simp

text \<open>
  Claim C6, as the source has it. The correction is bounded in magnitude by the samples of
  one pixel column, \<^verbatim>\<open>samplesPerPixel\<close>, to which line 479 clamps it.
\<close>

theorem findCorrection_within_pixel:
  "\<bar>snd (findCorrection oldWhere oldLen newLen t0 rate samplesPerPixel)\<bar>
   \<le> \<bar>samplesPerPixel\<bar>"
  by (rule findCorrection_bound)

text \<open>
  Claim C6 as stated, with a bound of one sample period, fails: an old cache whose origin is
  sample 4, ten samples to the pixel, and a new view that starts at time zero are not
  degenerate and give a correction of four samples.
\<close>

theorem findCorrection_exceeds_one_sample:
  "findCorrection [4, 14, 24, 34, 44, 54, 64, 74, 84, 94, 104] 10 10 0 10 (10 * (1 / 1))
     = (0, 4)
   \<and> \<not> \<bar>snd (findCorrection [4, 14, 24, 34, 44, 54, 64, 74, 84, 94, 104] 10 10 0 10
               (10 * (1 / 1)))\<bar> \<le> 1"
  by (simp add: findCorrection_def Let_def)


text \<open>
  In exact arithmetic the clamp never acts: outside the degenerate case, for an old cache of
  positive length, the correction is at most half the samples of one pixel, as the
  assertion of source line 480 expects.
\<close>

lemma findCorrection_half_pixel:
  assumes nd: "\<not> (real_of_int (oldWhere ! 1) - spp + real_of_int oldLen * spp \<le> t0 * rate
         \<or> t0 * rate + real_of_int newLen * spp \<le> real_of_int (oldWhere ! 1) - spp
         \<or> real_of_int oldLen * spp < 1 / 2)"
    and "0 < oldLen"
  shows "\<bar>snd (findCorrection oldWhere oldLen newLen t0 rate spp)\<bar> \<le> spp / 2"
proof -
  let ?o = "real_of_int (oldWhere ! 1) - spp"
  let ?g = "t0 * rate"
  have len: "0 < real_of_int oldLen" using assms by simp
  have d: "1 / 2 \<le> real_of_int oldLen * spp" using nd by simp
  have spp: "0 < spp"
  proof (rule ccontr)
    assume "\<not> 0 < spp"
    then have "real_of_int oldLen * spp \<le> 0" using len by (simp add: mult_le_0_iff)
    then show False using d by simp
  qed
  let ?y = "(?g - ?o) / spp"
  have q: "real_of_int oldLen * (?g - ?o) / (real_of_int oldLen * spp) = ?y"
    using len by simp
  let ?x = "\<lfloor>0.5 + ?y\<rfloor>"
  have x1: "real_of_int ?x \<le> 0.5 + ?y" by (rule of_int_floor_le)
  have x2: "0.5 + ?y < real_of_int ?x + 1" by linarith
  have c0: "?o + real_of_int ?x * spp - ?g = spp * (real_of_int ?x - ?y)"
    using spp by (simp add: field_simps)
  have d1: "real_of_int ?x - ?y \<le> 1 / 2" using x1 by linarith
  have d2: "- (1 / 2) \<le> real_of_int ?x - ?y" using x2 by linarith
  have s0: "0 \<le> spp" using spp by simp
  have b1: "spp * (real_of_int ?x - ?y) \<le> spp * (1 / 2)"
    by (rule mult_left_mono[OF d1 s0])
  have b2: "spp * (- (1 / 2)) \<le> spp * (real_of_int ?x - ?y)"
    by (rule mult_left_mono[OF d2 s0])
  have bound: "\<bar>?o + real_of_int ?x * spp - ?g\<bar> \<le> spp / 2"
    unfolding c0 using b1 b2 by (simp add: abs_le_iff)
  have eq: "findCorrection oldWhere oldLen newLen t0 rate spp
        = (?x, max (- spp) (min spp (?o + real_of_int ?x * spp - ?g)))"
    using nd assms(2) by (simp add: findCorrection_def Let_def)
  let ?c = "?o + real_of_int ?x * spp - ?g"
  have "- spp \<le> ?c \<and> ?c \<le> spp" using bound spp by linarith
  then have "max (- spp) (min spp ?c) = ?c" by linarith
  then show ?thesis
    unfolding eq using bound by simp
qed


section \<open>Properties of the invalid regions\<close>

lemma unionFirst_covers:
  "unionFirst x y rs = Some rs' \<Longrightarrow> \<exists>r \<in> set rs'. covers r x y"
proof (induction rs arbitrary: rs')
  case Nil
  then show ?case by simp
next
  case (Cons region rest)
  show ?case
  proof (cases "region_start region \<le> y + 1 \<and> region_end region \<ge> x - 1")
    case True
    with Cons.prems show ?thesis by (auto simp: covers_def)
  next
    case False
    with Cons.prems obtain rest' where "unionFirst x y rest = Some rest'" "rs' = region # rest'"
      by auto
    with Cons.IH show ?thesis by auto
  qed
qed

lemma erase_merged_covers:
  assumes i: "0 < i" "i < length rs"
    and m: "region_start merged \<le> region_start (rs ! i)" "region_end (rs ! i) \<le> region_end merged"
           "region_start merged \<le> region_start (rs ! (i - 1))"
           "region_end (rs ! (i - 1)) \<le> region_end merged"
    and r: "r \<in> set rs" "covers r x y"
  shows "\<exists>r' \<in> set (take (i - 1) rs @ merged # drop (i + 1) rs). covers r' x y"
proof -
  obtain k where k: "k < length rs" "rs ! k = r"
    using r(1) by (auto simp: in_set_conv_nth)
  consider "k < i - 1" | "k = i - 1 \<or> k = i" | "i < k" by linarith
  then show ?thesis
  proof cases
    case 1
    then have "r \<in> set (take (i - 1) rs)"
      using k i by (auto simp: in_set_conv_nth)
    then show ?thesis using r(2) by auto
  next
    case 2
    then have "covers merged x y"
      using m r(2) k(2) unfolding covers_def by auto
    then show ?thesis by auto
  next
    case 3
    then have "r \<in> set (drop (i + 1) rs)"
      using k by (auto simp: in_set_conv_nth intro!: exI[of _ "k - (i + 1)"])
    then show ?thesis using r(2) by auto
  qed
qed

lemma patchRegions_covers:
  "\<exists>r \<in> set rs. covers r x y \<Longrightarrow> \<exists>r \<in> set (patchRegions i invalEnd rs). covers r x y"
proof (induction i invalEnd rs rule: patchRegions.induct)
  case (1 i invalEnd rs)
  show ?case
  proof (cases "0 < i \<and> i < length rs")
    case False
    then have "patchRegions i invalEnd rs = rs"
      by (subst patchRegions.simps) (simp only: if_False simp_thms)
    then show ?thesis using "1.prems" by simp
  next
    case inr: True
    let ?region = "rs ! i" and ?prev = "rs ! (i - 1)"
    show ?thesis
    proof (cases "region_start ?region \<le> region_end ?prev + 1
                  \<and> region_end ?region \<ge> region_start ?prev - 1")
      case meet: True
      let ?merged = "?region
          \<lparr> region_start := (if region_start ?region > region_start ?prev
                             then region_start ?prev else region_start ?region),
            region_end := (if region_end ?region < region_end ?prev
                           then region_end ?prev else region_end ?region) \<rparr>"
      let ?rs' = "take (i - 1) rs @ ?merged # drop (i + 1) rs"
      obtain r where r: "r \<in> set rs" "covers r x y" using "1.prems" by auto
      have cov: "\<exists>r \<in> set ?rs'. covers r x y"
        by (rule erase_merged_covers[OF _ _ _ _ _ _ r]) (use inr in auto)
      have eq: "patchRegions i invalEnd rs =
            (if i < length ?rs' \<and> region_start (?rs' ! i) > invalEnd then ?rs'
             else patchRegions i invalEnd ?rs')"
        using inr meet by (subst patchRegions.simps) (simp only: Let_def if_True if_False simp_thms)
      show ?thesis
      proof (cases "i < length ?rs' \<and> region_start (?rs' ! i) > invalEnd")
        case True
        then have "patchRegions i invalEnd rs = ?rs'"
          using eq by (simp only: if_True simp_thms)
        then show ?thesis using cov by simp
      next
        case False
        have "\<exists>r \<in> set (patchRegions i invalEnd ?rs'). covers r x y"
          by (rule "1.IH"(1)[OF inr refl refl meet refl refl False cov])
        moreover have "patchRegions i invalEnd rs = patchRegions i invalEnd ?rs'"
          using eq False by (simp only: if_False simp_thms)
        ultimately show ?thesis by simp
      qed
    next
      case apart: False
      have eq: "patchRegions i invalEnd rs =
            (if region_start ?region > invalEnd then rs else patchRegions (i + 1) invalEnd rs)"
        using inr apart by (subst patchRegions.simps) (simp only: Let_def if_True if_False simp_thms)
      show ?thesis
      proof (cases "region_start ?region > invalEnd")
        case True
        then have "patchRegions i invalEnd rs = rs" using eq by (simp only: if_True simp_thms)
        then show ?thesis using "1.prems" by simp
      next
        case False
        have "\<exists>r \<in> set (patchRegions (i + 1) invalEnd rs). covers r x y"
          by (rule "1.IH"(2)[OF inr refl refl apart False "1.prems"])
        moreover have "patchRegions i invalEnd rs = patchRegions (i + 1) invalEnd rs"
          using eq False by (simp only: if_False simp_thms)
        ultimately show ?thesis by simp
      qed
    qed
  qed
qed


text \<open>
  The pixel columns held by the regions. The union that \<^verbatim>\<open>AddInvalidRegion\<close> takes of two
  ranges that meet or are pixel adjacent holds the columns of both and no other, so that
  neither the insertion nor the patch loop adds or loses a column.
\<close>

lemma hull_pixels:
  fixes s1 e1 s2 e2 :: int
  assumes "s1 \<le> e1" "s2 \<le> e2" "s1 \<le> e2 + 1" "s2 - 1 \<le> e1"
  shows "{(if s1 > s2 then s2 else s1) .. (if e1 < e2 then e2 else e1)} = {s1 .. e1} \<union> {s2 .. e2}"
  using assms by auto

lemma invalidPixels_simps [simp]:
  "invalidPixels [] = {}"
  "invalidPixels (r # rs) = regionPixels r \<union> invalidPixels rs"
  "invalidPixels (xs @ ys) = invalidPixels xs \<union> invalidPixels ys"
  by (auto simp: invalidPixels_def)

lemma wellFormed_simps [simp]:
  "wellFormed []"
  "wellFormed (r # rs) \<longleftrightarrow> region_start r \<le> region_end r \<and> wellFormed rs"
  "wellFormed (xs @ ys) \<longleftrightarrow> wellFormed xs \<and> wellFormed ys"
  by (auto simp: wellFormed_def)

lemma unionFirst_pixels:
  assumes "wellFormed rs" and "x \<le> y" and "unionFirst x y rs = Some rs'"
  shows "invalidPixels rs' = invalidPixels rs \<union> {x .. y} \<and> wellFormed rs'"
  using assms
proof (induction rs arbitrary: rs')
  case Nil
  then show ?case by simp
next
  case (Cons region rest)
  show ?case
  proof (cases "region_start region \<le> y + 1 \<and> region_end region \<ge> x - 1")
    case True
    let ?m = "region \<lparr> region_start :=
                    (if region_start region > x then x else region_start region),
                  region_end :=
                    (if region_end region < y then y else region_end region) \<rparr>"
    have rs': "rs' = ?m # rest" using Cons.prems True by simp
    have wf: "region_start region \<le> region_end region" "wellFormed rest"
      using Cons.prems by simp_all
    have "regionPixels ?m = regionPixels region \<union> {x .. y}"
      unfolding regionPixels_def using hull_pixels[of "region_start region" "region_end region" x y]
        wf(1) Cons.prems(2) True by simp
    moreover have "region_start ?m \<le> region_end ?m" using wf(1) Cons.prems(2) by simp
    ultimately show ?thesis unfolding rs' using wf(2) by (simp del: invalidRegion.simps) blast
  next
    case False
    with Cons.prems obtain rest' where r: "unionFirst x y rest = Some rest'" "rs' = region # rest'"
      by auto
    have "invalidPixels rest' = invalidPixels rest \<union> {x .. y} \<and> wellFormed rest'"
      using Cons.IH[OF _ Cons.prems(2) r(1)] Cons.prems(1) by simp
    then show ?thesis using r(2) Cons.prems(1) by auto
  qed
qed

lemma split_at_pair:
  assumes "0 < i" "i < length rs"
  shows "rs = take (i - 1) rs @ rs ! (i - 1) # rs ! i # drop (i + 1) rs"
proof -
  have "rs = take (i - 1) rs @ rs ! (i - 1) # drop i rs"
    using assms id_take_nth_drop[of "i - 1" rs] by simp
  moreover have "drop i rs = rs ! i # drop (i + 1) rs"
    using assms by (simp add: Cons_nth_drop_Suc)
  ultimately show ?thesis by simp
qed

lemma erase_merged_pixels:
  assumes i: "0 < i" "i < length rs"
    and wf: "wellFormed rs"
    and meet: "region_start (rs ! i) \<le> region_end (rs ! (i - 1)) + 1
               \<and> region_end (rs ! i) \<ge> region_start (rs ! (i - 1)) - 1"
    and m: "merged = (rs ! i)
          \<lparr> region_start := (if region_start (rs ! i) > region_start (rs ! (i - 1))
                             then region_start (rs ! (i - 1)) else region_start (rs ! i)),
            region_end := (if region_end (rs ! i) < region_end (rs ! (i - 1))
                           then region_end (rs ! (i - 1)) else region_end (rs ! i)) \<rparr>"
  shows "invalidPixels (take (i - 1) rs @ merged # drop (i + 1) rs) = invalidPixels rs
         \<and> wellFormed (take (i - 1) rs @ merged # drop (i + 1) rs)"
proof -
  let ?r = "rs ! i" and ?p = "rs ! (i - 1)"
  have sp: "rs = take (i - 1) rs @ ?p # ?r # drop (i + 1) rs"
    by (rule split_at_pair[OF i])
  have wfs: "wellFormed (take (i - 1) rs)" "region_start ?p \<le> region_end ?p"
    "region_start ?r \<le> region_end ?r" "wellFormed (drop (i + 1) rs)"
    using wf by (subst (asm) sp, simp)+
  have mp: "regionPixels merged = regionPixels ?r \<union> regionPixels ?p"
    unfolding regionPixels_def m
    using hull_pixels[of "region_start ?r" "region_end ?r" "region_start ?p" "region_end ?p"]
      wfs(2,3) meet by simp
  have mw: "region_start merged \<le> region_end merged"
    unfolding m using wfs(2,3) by simp
  have "invalidPixels rs = invalidPixels (take (i - 1) rs) \<union> regionPixels ?p \<union> regionPixels ?r
          \<union> invalidPixels (drop (i + 1) rs)"
    by (subst sp) (simp add: Un_assoc)
  then show ?thesis using mp mw wfs(1,4) by (simp del: invalidRegion.simps) blast
qed

lemma patchRegions_pixels:
  "wellFormed rs \<Longrightarrow>
   invalidPixels (patchRegions i invalEnd rs) = invalidPixels rs
   \<and> wellFormed (patchRegions i invalEnd rs)"
proof (induction i invalEnd rs rule: patchRegions.induct)
  case (1 i invalEnd rs)
  show ?case
  proof (cases "0 < i \<and> i < length rs")
    case False
    then have "patchRegions i invalEnd rs = rs"
      by (subst patchRegions.simps) (simp only: if_False simp_thms)
    then show ?thesis using "1.prems" by simp
  next
    case inr: True
    let ?region = "rs ! i" and ?prev = "rs ! (i - 1)"
    show ?thesis
    proof (cases "region_start ?region \<le> region_end ?prev + 1
                  \<and> region_end ?region \<ge> region_start ?prev - 1")
      case meet: True
      let ?merged = "?region
          \<lparr> region_start := (if region_start ?region > region_start ?prev
                             then region_start ?prev else region_start ?region),
            region_end := (if region_end ?region < region_end ?prev
                           then region_end ?prev else region_end ?region) \<rparr>"
      let ?rs' = "take (i - 1) rs @ ?merged # drop (i + 1) rs"
      have step: "invalidPixels ?rs' = invalidPixels rs \<and> wellFormed ?rs'"
        by (rule erase_merged_pixels[OF _ _ "1.prems" meet refl]) (use inr in auto)
      have eq: "patchRegions i invalEnd rs =
            (if i < length ?rs' \<and> region_start (?rs' ! i) > invalEnd then ?rs'
             else patchRegions i invalEnd ?rs')"
        using inr meet by (subst patchRegions.simps) (simp only: Let_def if_True if_False simp_thms)
      show ?thesis
      proof (cases "i < length ?rs' \<and> region_start (?rs' ! i) > invalEnd")
        case True
        then have "patchRegions i invalEnd rs = ?rs'"
          using eq by (simp only: if_True simp_thms)
        then show ?thesis using step by simp
      next
        case False
        have wf': "wellFormed ?rs'" using step by blast
        have "invalidPixels (patchRegions i invalEnd ?rs') = invalidPixels ?rs'
              \<and> wellFormed (patchRegions i invalEnd ?rs')"
          by (rule "1.IH"(1)[OF inr refl refl meet refl refl False wf'])
        moreover have "patchRegions i invalEnd rs = patchRegions i invalEnd ?rs'"
          using eq False by (simp only: if_False simp_thms)
        ultimately show ?thesis using step by simp
      qed
    next
      case apart: False
      have eq: "patchRegions i invalEnd rs =
            (if region_start ?region > invalEnd then rs else patchRegions (i + 1) invalEnd rs)"
        using inr apart by (subst patchRegions.simps) (simp only: Let_def if_True if_False simp_thms)
      show ?thesis
      proof (cases "region_start ?region > invalEnd")
        case True
        then have "patchRegions i invalEnd rs = rs" using eq by (simp only: if_True simp_thms)
        then show ?thesis using "1.prems" by simp
      next
        case False
        have "invalidPixels (patchRegions (i + 1) invalEnd rs) = invalidPixels rs
              \<and> wellFormed (patchRegions (i + 1) invalEnd rs)"
          by (rule "1.IH"(2)[OF inr refl refl apart False "1.prems"])
        moreover have "patchRegions i invalEnd rs = patchRegions (i + 1) invalEnd rs"
          using eq False by (simp only: if_False simp_thms)
        ultimately show ?thesis by simp
      qed
    qed
  qed
qed

lemma double_to_int_mono:
  assumes "x \<le> y"
  shows "double_to_int x \<le> double_to_int y"
proof (cases "0 \<le> x")
  case True
  then show ?thesis using assms by (simp add: double_to_int_def floor_mono)
next
  case neg: False
  show ?thesis
  proof (cases "0 \<le> y")
    case True
    have a: "\<lceil>x\<rceil> \<le> (0::int)" using neg by (simp add: ceiling_le_zero)
    have b: "(0::int) \<le> \<lfloor>y\<rfloor>" using True by simp
    have "double_to_int x = \<lceil>x\<rceil>" "double_to_int y = \<lfloor>y\<rfloor>"
      using neg True by (simp_all add: double_to_int_def)
    then show ?thesis using order_trans[OF a b] by (simp only:)
  next
    case False
    then show ?thesis using neg assms by (simp add: double_to_int_def ceiling_mono)
  qed
qed

lemma invalPixels_ordered:
  assumes "0 < wc_rate c" "0 < wc_pps c" "sampleStart \<le> sampleEnd"
  shows "fst (invalPixels c sampleStart sampleEnd) \<le> snd (invalPixels c sampleStart sampleEnd)"
proof -
  let ?spp = "real_of_int (wc_rate c) / wc_pps c"
  let ?o = "wc_start c * real_of_int (wc_rate c)"
  have spp: "0 < ?spp" using assms by simp
  have "(real_of_int sampleStart - ?o) / ?spp \<le> (real_of_int sampleEnd - ?o) / ?spp"
    using assms(3) spp by (intro divide_right_mono) simp_all
  then have "(real_of_int sampleStart - ?o) / ?spp \<le> (real_of_int sampleEnd - ?o) / ?spp + 1"
    by linarith
  then show ?thesis
    unfolding invalPixels_def Let_def by (simp add: double_to_int_mono del: times_divide_eq_left divide_divide_eq_left divide_divide_eq_right)
qed

lemma clipPixel_within:
  "0 \<le> len \<Longrightarrow> 0 \<le> clipPixel len x \<and> clipPixel len x \<le> len"
  by (simp add: clipPixel_def)

lemma clipPixel_mono: "0 \<le> len \<Longrightarrow> x \<le> y \<Longrightarrow> clipPixel len x \<le> clipPixel len y"
  by (simp add: clipPixel_def)

lemma regionsWithin_pixels:
  assumes "wellFormed rs"
  shows "regionsWithin len rs \<longleftrightarrow> invalidPixels rs \<subseteq> {0 .. len}"
  using assms unfolding regionsWithin_def wellFormed_def invalidPixels_def regionPixels_def
  by (auto; force)

text \<open>The call adds at most one region to the container.\<close>

lemma unionFirst_length: "unionFirst x y rs = Some rs' \<Longrightarrow> length rs' = length rs"
proof (induction rs arbitrary: rs')
  case Nil
  then show ?case by simp
next
  case (Cons region rest)
  then show ?case
    by (cases "region_start region \<le> y + 1 \<and> region_end region \<ge> x - 1") auto
qed

lemma patchRegions_length: "length (patchRegions i invalEnd rs) \<le> length rs"
proof (induction i invalEnd rs rule: patchRegions.induct)
  case (1 i invalEnd rs)
  show ?case
  proof (cases "0 < i \<and> i < length rs")
    case False
    then have "patchRegions i invalEnd rs = rs"
      by (subst patchRegions.simps) (simp only: if_False simp_thms)
    then show ?thesis by simp
  next
    case inr: True
    let ?region = "rs ! i" and ?prev = "rs ! (i - 1)"
    show ?thesis
    proof (cases "region_start ?region \<le> region_end ?prev + 1
                  \<and> region_end ?region \<ge> region_start ?prev - 1")
      case meet: True
      let ?merged = "?region
          \<lparr> region_start := (if region_start ?region > region_start ?prev
                             then region_start ?prev else region_start ?region),
            region_end := (if region_end ?region < region_end ?prev
                           then region_end ?prev else region_end ?region) \<rparr>"
      let ?rs' = "take (i - 1) rs @ ?merged # drop (i + 1) rs"
      have step: "length ?rs' \<le> length rs" using inr by auto
      have eq: "patchRegions i invalEnd rs =
            (if i < length ?rs' \<and> region_start (?rs' ! i) > invalEnd then ?rs'
             else patchRegions i invalEnd ?rs')"
        using inr meet by (subst patchRegions.simps) (simp only: Let_def if_True if_False simp_thms)
      show ?thesis
      proof (cases "i < length ?rs' \<and> region_start (?rs' ! i) > invalEnd")
        case True
        then have same: "patchRegions i invalEnd rs = ?rs'"
          using eq by (simp only: if_True simp_thms)
        show ?thesis unfolding same by (rule step)
      next
        case False
        have ih: "length (patchRegions i invalEnd ?rs') \<le> length ?rs'"
          by (rule "1.IH"(1)[OF inr refl refl meet refl refl False])
        have same: "patchRegions i invalEnd rs = patchRegions i invalEnd ?rs'"
          using eq False by (simp only: if_False simp_thms)
        show ?thesis unfolding same by (rule order_trans[OF ih step])
      qed
    next
      case apart: False
      have eq: "patchRegions i invalEnd rs =
            (if region_start ?region > invalEnd then rs else patchRegions (i + 1) invalEnd rs)"
        using inr apart by (subst patchRegions.simps) (simp only: Let_def if_True if_False simp_thms)
      show ?thesis
      proof (cases "region_start ?region > invalEnd")
        case True
        then have "patchRegions i invalEnd rs = rs" using eq by (simp only: if_True simp_thms)
        then show ?thesis by simp
      next
        case False
        have "length (patchRegions (i + 1) invalEnd rs) \<le> length rs"
          by (rule "1.IH"(2)[OF inr refl refl apart False])
        moreover have "patchRegions i invalEnd rs = patchRegions (i + 1) invalEnd rs"
          using eq False by (simp only: if_False simp_thms)
        ultimately show ?thesis by simp
      qed
    qed
  qed
qed

lemma inserted_length:
  "length (patchRegions 1 y (case unionFirst x y rs of Some rs' \<Rightarrow> rs'
             | None \<Rightarrow> \<lparr> region_start = x, region_end = y \<rparr> # rs)) \<le> length rs + 1"
proof (cases "unionFirst x y rs")
  case None
  then show ?thesis
    using patchRegions_length[of 1 y "\<lparr> region_start = x, region_end = y \<rparr> # rs"] by simp
next
  case (Some rs')
  then show ?thesis
    using patchRegions_length[of 1 y rs'] unionFirst_length[OF Some] by simp
qed

text \<open>
  Claim C7, as the source has it. With \<open>(a, b)\<close> the sample range in pixel columns of the
  cache: the call changes nothing when the pixels per second are zero, and, for a rate that
  is not zero (the conversion divides by the samples of one pixel), when both \<open>a\<close> and \<open>b\<close>
  are negative or both are at least the length of the cache. An ordered sample range gives
  \<open>a \<le> b\<close> when the rate and the pixels per second are positive. In every other case only
  the regions change, at most one region is added, the range clipped to \<open>[0, len]\<close> is
  covered by a region afterwards, and it is the one region when there was none before. When the length is not negative,
  \<open>a \<le> b\<close> and every region starts at or before its end, the pixel columns held by the
  regions afterwards are those held before and those of the clipped range, no other; every
  region still starts at or before its end, and regions within \<open>[0, len]\<close> stay within it.
\<close>

theorem AddInvalidRegion_cases:
  assumes px: "invalPixels c sampleStart sampleEnd = (a, b)"
  shows "(wc_pps c = 0 \<longrightarrow> AddInvalidRegion c sampleStart sampleEnd = c)
       \<and> (wc_pps c \<noteq> 0 \<and> wc_rate c \<noteq> 0
            \<and> ((a < 0 \<and> b < 0) \<or> (a \<ge> wc_len c \<and> b \<ge> wc_len c))
            \<longrightarrow> AddInvalidRegion c sampleStart sampleEnd = c)
       \<and> (0 < wc_pps c \<and> 0 < wc_rate c \<and> sampleStart \<le> sampleEnd \<longrightarrow> a \<le> b)
       \<and> (wc_pps c \<noteq> 0 \<and> wc_rate c \<noteq> 0
            \<and> \<not> ((a < 0 \<and> b < 0) \<or> (a \<ge> wc_len c \<and> b \<ge> wc_len c))
            \<longrightarrow> AddInvalidRegion c sampleStart sampleEnd
                  = c \<lparr> wc_mRegions :=
                         wc_mRegions (AddInvalidRegion c sampleStart sampleEnd) \<rparr>
              \<and> (\<exists>r \<in> set (wc_mRegions (AddInvalidRegion c sampleStart sampleEnd)).
                    covers r (clipPixel (wc_len c) a) (clipPixel (wc_len c) b))
              \<and> (wc_mRegions c = []
                   \<longrightarrow> wc_mRegions (AddInvalidRegion c sampleStart sampleEnd)
                       = [\<lparr> region_start = clipPixel (wc_len c) a,
                            region_end = clipPixel (wc_len c) b \<rparr>])
              \<and> length (wc_mRegions (AddInvalidRegion c sampleStart sampleEnd))
                  \<le> length (wc_mRegions c) + 1
              \<and> (0 \<le> wc_len c \<and> a \<le> b \<and> wellFormed (wc_mRegions c)
                   \<longrightarrow> invalidPixels (wc_mRegions (AddInvalidRegion c sampleStart sampleEnd))
                         = invalidPixels (wc_mRegions c)
                           \<union> {clipPixel (wc_len c) a .. clipPixel (wc_len c) b}
                       \<and> wellFormed (wc_mRegions (AddInvalidRegion c sampleStart sampleEnd))
                       \<and> (regionsWithin (wc_len c) (wc_mRegions c)
                            \<longrightarrow> regionsWithin (wc_len c)
                                  (wc_mRegions (AddInvalidRegion c sampleStart sampleEnd)))))"
proof (intro conjI impI)
  assume "wc_pps c = 0"
  then show "AddInvalidRegion c sampleStart sampleEnd = c"
    unfolding AddInvalidRegion_def by simp
next
  assume "wc_pps c \<noteq> 0 \<and> wc_rate c \<noteq> 0
            \<and> ((a < 0 \<and> b < 0) \<or> (a \<ge> wc_len c \<and> b \<ge> wc_len c))"
  then show "AddInvalidRegion c sampleStart sampleEnd = c"
    unfolding AddInvalidRegion_def px Let_def by auto
next
  assume "0 < wc_pps c \<and> 0 < wc_rate c \<and> sampleStart \<le> sampleEnd"
  then show "a \<le> b"
    using invalPixels_ordered[of c sampleStart sampleEnd] px by simp
next
  assume kept: "wc_pps c \<noteq> 0 \<and> wc_rate c \<noteq> 0
            \<and> \<not> ((a < 0 \<and> b < 0) \<or> (a \<ge> wc_len c \<and> b \<ge> wc_len c))"
  let ?a = "clipPixel (wc_len c) a" and ?b = "clipPixel (wc_len c) b"
  let ?inserted = "case unionFirst ?a ?b (wc_mRegions c) of
                     Some rs \<Rightarrow> rs
                   | None \<Rightarrow> \<lparr> region_start = ?a, region_end = ?b \<rparr> # wc_mRegions c"
  have eq: "AddInvalidRegion c sampleStart sampleEnd
            = c \<lparr> wc_mRegions := patchRegions 1 ?b ?inserted \<rparr>"
    using kept unfolding AddInvalidRegion_def px Let_def by auto
  show "AddInvalidRegion c sampleStart sampleEnd
          = c \<lparr> wc_mRegions := wc_mRegions (AddInvalidRegion c sampleStart sampleEnd) \<rparr>"
    unfolding eq by simp
  have "\<exists>r \<in> set ?inserted. covers r ?a ?b"
  proof (cases "unionFirst ?a ?b (wc_mRegions c)")
    case None
    then show ?thesis by (simp add: covers_def)
  next
    case (Some rs)
    then show ?thesis using unionFirst_covers[OF Some] by simp
  qed
  then have "\<exists>r \<in> set (patchRegions 1 ?b ?inserted). covers r ?a ?b"
    by (rule patchRegions_covers)
  then show "\<exists>r \<in> set (wc_mRegions (AddInvalidRegion c sampleStart sampleEnd)).
               covers r ?a ?b"
    unfolding eq by simp
  show "wc_mRegions (AddInvalidRegion c sampleStart sampleEnd)
             = [\<lparr> region_start = ?a, region_end = ?b \<rparr>]" if "wc_mRegions c = []"
    using that unfolding eq by (simp add: patchRegions.simps)
  show "length (wc_mRegions (AddInvalidRegion c sampleStart sampleEnd))
          \<le> length (wc_mRegions c) + 1"
    unfolding eq using inserted_length[of ?b ?a "wc_mRegions c"] by simp
  have grown: "invalidPixels (wc_mRegions (AddInvalidRegion c sampleStart sampleEnd))
                 = invalidPixels (wc_mRegions c) \<union> {?a .. ?b}
               \<and> wellFormed (wc_mRegions (AddInvalidRegion c sampleStart sampleEnd))"
    if h: "0 \<le> wc_len c \<and> a \<le> b \<and> wellFormed (wc_mRegions c)"
  proof -
    have ab: "?a \<le> ?b" using h by (simp add: clipPixel_mono)
    have ins: "invalidPixels ?inserted = invalidPixels (wc_mRegions c) \<union> {?a .. ?b}
               \<and> wellFormed ?inserted"
    proof (cases "unionFirst ?a ?b (wc_mRegions c)")
      case None
      then show ?thesis using h ab by (auto simp: regionPixels_def)
    next
      case (Some rs)
      then show ?thesis using unionFirst_pixels[OF _ ab Some] h by simp
    qed
    then have "invalidPixels (patchRegions 1 ?b ?inserted) = invalidPixels ?inserted
               \<and> wellFormed (patchRegions 1 ?b ?inserted)"
      by (intro patchRegions_pixels) blast
    then show ?thesis unfolding eq using ins by simp
  qed
  then show "invalidPixels (wc_mRegions (AddInvalidRegion c sampleStart sampleEnd))
                 = invalidPixels (wc_mRegions c) \<union> {?a .. ?b}"
    and "wellFormed (wc_mRegions (AddInvalidRegion c sampleStart sampleEnd))"
    if "0 \<le> wc_len c \<and> a \<le> b \<and> wellFormed (wc_mRegions c)"
    using that by blast+
  show "regionsWithin (wc_len c) (wc_mRegions (AddInvalidRegion c sampleStart sampleEnd))"
    if h: "0 \<le> wc_len c \<and> a \<le> b \<and> wellFormed (wc_mRegions c)"
      and w: "regionsWithin (wc_len c) (wc_mRegions c)"
  proof -
    have "invalidPixels (wc_mRegions c) \<subseteq> {0 .. wc_len c}"
      using w h regionsWithin_pixels by blast
    moreover have "{?a .. ?b} \<subseteq> {0 .. wc_len c}"
      using h clipPixel_within[of "wc_len c"] by auto
    ultimately have "invalidPixels (wc_mRegions (AddInvalidRegion c sampleStart sampleEnd))
                     \<subseteq> {0 .. wc_len c}"
      using grown[OF h] by simp
    then show ?thesis using grown[OF h] regionsWithin_pixels by blast
  qed
qed

text \<open>
  The theorem on caches of ten columns with one sample to the pixel: the empty cache of the
  constructor, a range to the left, a range from the last entry on, a range that straddles
  the left edge, and the same on a cache that holds the regions \<open>[2, 3]\<close> and \<open>[7, 8]\<close>: the
  range \<open>[- 3, 1]\<close> is clipped to \<open>[0, 1]\<close> and joined to \<open>[2, 3]\<close>.
\<close>

theorem AddInvalidRegion_cases_witness:
  "AddInvalidRegion WaveCache_default 0 10 = WaveCache_default
   \<and> AddInvalidRegion (WaveCache_new 10 100 100 0 0) (- 50) (- 20)
       = WaveCache_new 10 100 100 0 0
   \<and> AddInvalidRegion (WaveCache_new 10 100 100 0 0) 10 12 = WaveCache_new 10 100 100 0 0
   \<and> wc_mRegions (AddInvalidRegion (WaveCache_new 10 100 100 0 0) (- 3) 4)
       = [\<lparr> region_start = 0, region_end = 5 \<rparr>]
   \<and> invalidPixels (wc_mRegions (AddInvalidRegion twoRegionCache (- 3) 0))
       = {0 .. 3} \<union> {7 .. 8}
   \<and> wellFormed (wc_mRegions (AddInvalidRegion twoRegionCache (- 3) 0))
   \<and> regionsWithin 10 (wc_mRegions (AddInvalidRegion twoRegionCache (- 3) 0))
   \<and> wc_mRegions (AddInvalidRegion twoRegionCache (- 3) 0)
       = [\<lparr> region_start = 0, region_end = 3 \<rparr>, \<lparr> region_start = 7, region_end = 8 \<rparr>]"
proof -
  let ?c = "WaveCache_new 10 100 100 0 0"
  have p0: "invalPixels WaveCache_default 0 10 = (0, 1)"
    by (simp add: invalPixels_def WaveCache_default_def double_to_int_def)
  have p1: "invalPixels ?c (- 50) (- 20) = (- 50, - 19)"
    by (simp add: invalPixels_def WaveCache_new_def double_to_int_def Let_def)
  have p2: "invalPixels ?c 10 12 = (10, 13)"
    by (simp add: invalPixels_def WaveCache_new_def double_to_int_def Let_def)
  have p3: "invalPixels ?c (- 3) 4 = (- 3, 5)"
    by (simp add: invalPixels_def WaveCache_new_def double_to_int_def Let_def)
  have p4: "invalPixels twoRegionCache (- 3) 0 = (- 3, 1)"
    by (simp add: invalPixels_def twoRegionCache_def WaveCache_new_def double_to_int_def Let_def)
  have c: "wc_pps ?c = 100" "wc_len ?c = 10" "wc_mRegions ?c = []" "wc_rate ?c = 100"
    by (simp_all add: WaveCache_new_def Let_def)
  have t: "wc_pps twoRegionCache = 100" "wc_len twoRegionCache = 10" "wc_rate twoRegionCache = 100"
    "wc_mRegions twoRegionCache = [\<lparr> region_start = 2, region_end = 3 \<rparr>,
                                     \<lparr> region_start = 7, region_end = 8 \<rparr>]"
    by (simp_all add: twoRegionCache_def WaveCache_new_def Let_def)
  have "AddInvalidRegion WaveCache_default 0 10 = WaveCache_default"
    using AddInvalidRegion_cases[OF p0] by (simp add: WaveCache_default_def)
  moreover have "AddInvalidRegion ?c (- 50) (- 20) = ?c"
    using AddInvalidRegion_cases[OF p1] c by simp
  moreover have "AddInvalidRegion ?c 10 12 = ?c"
    using AddInvalidRegion_cases[OF p2] c by simp
  moreover have "wc_mRegions (AddInvalidRegion ?c (- 3) 4)
                 = [\<lparr> region_start = 0, region_end = 5 \<rparr>]"
    using AddInvalidRegion_cases[OF p3] c by (simp add: clipPixel_def)
  moreover have "invalidPixels (wc_mRegions (AddInvalidRegion twoRegionCache (- 3) 0))
                   = {0 .. 3} \<union> {7 .. 8}
      \<and> wellFormed (wc_mRegions (AddInvalidRegion twoRegionCache (- 3) 0))
      \<and> regionsWithin 10 (wc_mRegions (AddInvalidRegion twoRegionCache (- 3) 0))"
  proof -
    have pre: "wc_pps twoRegionCache \<noteq> 0 \<and> wc_rate twoRegionCache \<noteq> 0
            \<and> \<not> ((- 3 < (0::int) \<and> 1 < (0::int))
                  \<or> (- 3 \<ge> wc_len twoRegionCache \<and> 1 \<ge> wc_len twoRegionCache))"
      and pre2: "0 \<le> wc_len twoRegionCache \<and> - 3 \<le> (1::int)
                 \<and> wellFormed (wc_mRegions twoRegionCache)"
      and pre3: "regionsWithin (wc_len twoRegionCache) (wc_mRegions twoRegionCache)"
      by (simp_all add: t regionsWithin_def)
    have "{2 .. 3} \<union> {7 .. 8} \<union> {0 .. 1} = {0 .. 3} \<union> {7 .. (8::int)}"
      by auto
    then show ?thesis
      using AddInvalidRegion_cases[OF p4] pre pre2 pre3
      by (simp add: t clipPixel_def regionPixels_def)
  qed
  moreover have "wc_mRegions (AddInvalidRegion twoRegionCache (- 3) 0)
       = [\<lparr> region_start = 0, region_end = 3 \<rparr>, \<lparr> region_start = 7, region_end = 8 \<rparr>]"
    by code_simp
  ultimately show ?thesis by blast
qed

text \<open>
  Claim C7 as stated fails at the upper edge: a range whose first pixel is the entry \<open>len\<close>
  itself is not beyond \<open>[0, len]\<close>, and the source drops it (line 122 tests \<open>\<ge> len\<close>)
  where the claim has it clipped and inserted.
\<close>

theorem AddInvalidRegion_drops_range_at_len:
  "wc_pps (WaveCache_new 10 100 100 0 0) = 100
   \<and> wc_len (WaveCache_new 10 100 100 0 0) = 10
   \<and> invalPixels (WaveCache_new 10 100 100 0 0) 10 12 = (10, 13)
   \<and> \<not> beyondSameSide 10 10 13
   \<and> wc_mRegions (AddInvalidRegion (WaveCache_new 10 100 100 0 0) 10 12) = []"
  by code_simp

lemma AddInvalidRegion_example_overlap:
  "wc_mRegions
     (AddInvalidRegion (AddInvalidRegion (WaveCache_new 200 100 100 0 0) 10 19) 19 29)
   = [\<lparr> region_start = 10, region_end = 30 \<rparr>]"
  by code_simp

lemma AddInvalidRegion_example_disjoint:
  "wc_mRegions
     (AddInvalidRegion (AddInvalidRegion (WaveCache_new 200 100 100 0 0) 0 4) 100 109)
   = [\<lparr> region_start = 100, region_end = 110 \<rparr>, \<lparr> region_start = 0, region_end = 5 \<rparr>]"
  by code_simp

lemma AddInvalidRegion_example_out_of_order:
  "wc_mRegions
     (AddInvalidRegion (AddInvalidRegion (AddInvalidRegion (AddInvalidRegion
        (WaveCache_new 200 100 100 0 0) 0 4) 100 109) 50 59) 6 48)
   = [\<lparr> region_start = 6, region_end = 60 \<rparr>,
      \<lparr> region_start = 100, region_end = 110 \<rparr>,
      \<lparr> region_start = 0, region_end = 5 \<rparr>]"
  by code_simp

text \<open>
  Claim C3 on the source, with one sample to the pixel on a cache of 200 columns. The two
  examples of the claim come out as it says: the pixel ranges \<open>[10, 20]\<close> and \<open>[19, 30]\<close>
  leave the one region \<open>[10, 30]\<close>, and \<open>[0, 5]\<close> and \<open>[100, 110]\<close> leave two regions. The
  invariant does not hold for every order of arrival: after \<open>[0, 5]\<close>, \<open>[100, 110]\<close> and
  \<open>[50, 60]\<close> the range \<open>[6, 49]\<close> is joined to \<open>[50, 60]\<close>, the first region in the
  container that it touches, and the patch loop compares neighbours in the container only,
  so that \<open>[6, 60]\<close> and \<open>[0, 5]\<close> remain, two regions that are pixel adjacent.
\<close>

theorem AddInvalidRegion_adjacent_regions_remain:
  "wc_mRegions
     (AddInvalidRegion (AddInvalidRegion (WaveCache_new 200 100 100 0 0) 10 19) 19 29)
     = [\<lparr> region_start = 10, region_end = 30 \<rparr>]
   \<and> wc_mRegions
     (AddInvalidRegion (AddInvalidRegion (WaveCache_new 200 100 100 0 0) 0 4) 100 109)
     = [\<lparr> region_start = 100, region_end = 110 \<rparr>, \<lparr> region_start = 0, region_end = 5 \<rparr>]
   \<and> wc_mRegions
     (AddInvalidRegion (AddInvalidRegion (AddInvalidRegion (AddInvalidRegion
        (WaveCache_new 200 100 100 0 0) 0 4) 100 109) 50 59) 6 48)
     = [\<lparr> region_start = 6, region_end = 60 \<rparr>,
        \<lparr> region_start = 100, region_end = 110 \<rparr>,
        \<lparr> region_start = 0, region_end = 5 \<rparr>]
   \<and> region_start \<lparr> region_start = 6, region_end = 60 \<rparr>
       \<le> region_end \<lparr> region_start = 0, region_end = 5 \<rparr> + 1"
  using AddInvalidRegion_example_overlap AddInvalidRegion_example_disjoint
    AddInvalidRegion_example_out_of_order
  by simp


section \<open>Properties of the waveform query\<close>

lemmas wave_eval =
  GetWaveDisplay_def rebuildWaveCache_def waveReuse_def waveCacheFullHit_def
  waveCacheMatch_def ppsMatches_def fullHitPerSpec_def
  WaveClip_new_def WaveCache_default_def WaveCache_new_def emptyDisplay_def ownedDisplay_def
  squareOps_def freshClip_def unfilledCache_def filledCache_def zeroCache_def
  fetchColumns_def narrow_int_def appendStart_def appendColumn_def writeColumns_def blit_def
  cacheColumns_def setCacheColumns_def setDisplay_def displayColumns_def
  fillWhere_def findCorrection_def copyRange_def CountODPixels_def
  LoadInvalidRegions_def LoadInvalidRegion_def ClearInvalidRegions_def
  staleCache_def onDemandOps_def
  Let_def upt_rec upto.simps eval_nat_numeral

text \<open>The source's test of the full hit is the spec's condition and a cache of some column.\<close>

lemma waveCacheFullHit_iff:
  "waveCacheFullHit clip numPixels t0 pixelsPerSecond
   \<longleftrightarrow> fullHitPerSpec clip numPixels t0 pixelsPerSecond
       \<and> (\<exists>c. mWaveCache clip = Some c \<and> wc_len c > 0)"
  by (auto simp: waveCacheFullHit_def waveCacheMatch_def fullHitPerSpec_def split: option.splits)

lemma fetchColumns_cache_irrelevant:
  "fetchColumns ops (clip \<lparr> mWaveCache := x \<rparr>) wh p0 p1 cols
   = fetchColumns ops clip wh p0 p1 cols"
  by (simp add: fetchColumns_def Let_def split_beta)

lemma GetWaveDisplay_hit:
  assumes "d_where display = None"
    and "waveCacheFullHit clip (d_width display) t0 pixelsPerSecond"
    and "mWaveCache clip = Some c"
  shows "GetWaveDisplay ops clip display t0 pixelsPerSecond =
         (let c' = ClearInvalidRegions (LoadInvalidRegions ops (mSequence clip) True c)
          in (True, wc_numODPixels c' > 0, setDisplay display (cacheColumns c') (wc_where c'),
              clip \<lparr> mWaveCache := Some c' \<rparr>))"
  using assms by (simp add: GetWaveDisplay_def Let_def)

lemma GetWaveDisplay_miss:
  assumes "d_where display = None"
    and "\<not> waveCacheFullHit clip (d_width display) t0 pixelsPerSecond"
  shows "GetWaveDisplay ops clip display t0 pixelsPerSecond =
         (let r = rebuildWaveCache ops clip (d_width display) t0 pixelsPerSecond
          in if fst r
             then (True, wc_numODPixels (snd r) > 0,
                   setDisplay display (cacheColumns (snd r)) (wc_where (snd r)),
                   clip \<lparr> mWaveCache := Some (snd r) \<rparr>)
             else (False, False, display, clip \<lparr> mWaveCache := Some (snd r) \<rparr>))"
  using assms by (simp add: GetWaveDisplay_def Let_def split_beta)

text \<open>The key of a rebuilt cache is the request, whatever the old cache and the sequence.\<close>

lemma rebuildWaveCache_key:
  "wc_len (snd (rebuildWaveCache ops clip numPixels t0 pixelsPerSecond)) = numPixels"
  "wc_start (snd (rebuildWaveCache ops clip numPixels t0 pixelsPerSecond)) = t0"
  "wc_pps (snd (rebuildWaveCache ops clip numPixels t0 pixelsPerSecond)) = pixelsPerSecond"
  "wc_dirty (snd (rebuildWaveCache ops clip numPixels t0 pixelsPerSecond)) = mDirty clip"
  "wc_rate (snd (rebuildWaveCache ops clip numPixels t0 pixelsPerSecond)) = mRate clip"
  "wc_mRegions (snd (rebuildWaveCache ops clip numPixels t0 pixelsPerSecond)) = []"
  "wc_numODPixels (snd (rebuildWaveCache ops clip numPixels t0 pixelsPerSecond)) = 0"
  by (simp_all add: rebuildWaveCache_def Let_def split_beta setCacheColumns_def
        WaveCache_new_def CountODPixels_def)

lemma GetWaveDisplay_owned:
  assumes "d_where display = Some ownWhere"
  shows "snd (snd (snd (GetWaveDisplay ops clip display t0 pixelsPerSecond))) = clip"
    and "fst (GetWaveDisplay ops clip display t0 pixelsPerSecond)
         = fst (fetchColumns ops clip ownWhere 0 (d_width display) (displayColumns display))"
  using assms by (simp_all add: GetWaveDisplay_def Let_def split_beta)

text \<open>
  After a rebuild the loading flag is \<^verbatim>\<open>false\<close>: the count of on-demand pixels of the new
  cache is taken by its constructor, before any column is computed, and not again.
\<close>

lemma GetWaveDisplay_rebuild_reports_not_loading:
  assumes "d_where display = None"
    and "\<not> waveCacheFullHit clip (d_width display) t0 pixelsPerSecond"
  shows "fst (snd (GetWaveDisplay ops clip display t0 pixelsPerSecond)) = False"
  unfolding GetWaveDisplay_miss[OF assms] by (simp add: Let_def rebuildWaveCache_key)

text \<open>
  Loading the invalid regions. A region is loaded by one summarising call that writes the
  columns \<open>[region_start, region_end)\<close>; the key of the cache, its mapping and the sizes of
  its arrays stay as they are, and a column keeps what the last region that holds it has
  written.
\<close>

lemma fold_update_shift_length:
  "length (fold (\<lambda>k d. d[a + k := f k]) [0 ..< m] d) = length d"
  by (induction m) simp_all

lemma fold_update_shift_nth:
  "(fold (\<lambda>k d. d[a + k := f k]) [0 ..< m] d) ! i
   = (if a \<le> i \<and> i < a + m \<and> i < length d then f (i - a) else d ! i)"
proof (induction m)
  case 0
  then show ?case by auto
next
  case (Suc m)
  have "fold (\<lambda>k d. d[a + k := f k]) [0 ..< Suc m] d
        = (fold (\<lambda>k d. d[a + k := f k]) [0 ..< m] d)[a + m := f m]"
    by simp
  moreover have "xs[a + m := v] ! i = (if i = a + m \<and> i < length xs then v else xs ! i)"
    for xs :: "'a list" and v
    by (cases "a + m < length xs") (auto simp: nth_list_update list_update_beyond)
  ultimately show ?case
    using Suc.IH by (auto simp: fold_update_shift_length)
qed

lemma blit_length: "length (blit dst p n src) = length dst"
  unfolding blit_def by (rule fold_update_shift_length)

lemma blit_nth:
  "blit dst p n src ! i
   = (if nat p \<le> i \<and> i < nat p + min (nat n) (length src) \<and> i < length dst
      then src ! (i - nat p) else dst ! i)"
  unfolding blit_def by (rule fold_update_shift_nth)

lemma LoadInvalidRegion_key:
  "wc_dirty (LoadInvalidRegion ops s u r c) = wc_dirty c"
  "wc_len (LoadInvalidRegion ops s u r c) = wc_len c"
  "wc_start (LoadInvalidRegion ops s u r c) = wc_start c"
  "wc_pps (LoadInvalidRegion ops s u r c) = wc_pps c"
  "wc_rate (LoadInvalidRegion ops s u r c) = wc_rate c"
  "wc_where (LoadInvalidRegion ops s u r c) = wc_where c"
  "wc_mRegions (LoadInvalidRegion ops s u r c) = wc_mRegions c"
  "length (wc_min (LoadInvalidRegion ops s u r c)) = length (wc_min c)"
  "length (wc_max (LoadInvalidRegion ops s u r c)) = length (wc_max c)"
  "length (wc_rms (LoadInvalidRegion ops s u r c)) = length (wc_rms c)"
  "length (wc_bl (LoadInvalidRegion ops s u r c)) = length (wc_bl c)"
  by (simp_all add: LoadInvalidRegion_def Let_def split_beta setCacheColumns_def
        writeColumns_def cacheColumns_def blit_length)

lemma fold_LoadInvalidRegion_key:
  "wc_dirty (fold (LoadInvalidRegion ops s u) rs c) = wc_dirty c
   \<and> wc_len (fold (LoadInvalidRegion ops s u) rs c) = wc_len c
   \<and> wc_start (fold (LoadInvalidRegion ops s u) rs c) = wc_start c
   \<and> wc_pps (fold (LoadInvalidRegion ops s u) rs c) = wc_pps c
   \<and> wc_rate (fold (LoadInvalidRegion ops s u) rs c) = wc_rate c
   \<and> wc_where (fold (LoadInvalidRegion ops s u) rs c) = wc_where c
   \<and> wc_mRegions (fold (LoadInvalidRegion ops s u) rs c) = wc_mRegions c
   \<and> length (wc_min (fold (LoadInvalidRegion ops s u) rs c)) = length (wc_min c)
   \<and> length (wc_max (fold (LoadInvalidRegion ops s u) rs c)) = length (wc_max c)
   \<and> length (wc_rms (fold (LoadInvalidRegion ops s u) rs c)) = length (wc_rms c)
   \<and> length (wc_bl (fold (LoadInvalidRegion ops s u) rs c)) = length (wc_bl c)"
  by (induction rs arbitrary: c) (simp_all add: LoadInvalidRegion_key)

lemma LoadInvalidRegion_column:
  assumes full: "fullColumns ops s"
    and start: "0 \<le> region_start r"
    and i: "i < length (wc_min c)" "i < length (wc_max c)" "i < length (wc_rms c)"
           "i < length (wc_bl c)"
  shows "columnAt (cacheColumns (LoadInvalidRegion ops s u r c)) i
         = (if region_start r \<le> int i \<and> int i < region_end r
            then columnAt (regionColumns ops s (wc_where c) r) (i - nat (region_start r))
            else columnAt (cacheColumns c) i)"
proof -
  let ?n = "region_end r - region_start r"
  let ?out = "snd (seqGetWaveDisplay ops s ?n (drop (nat (region_start r)) (wc_where c)))"
  have len: "length (col_min ?out) = nat ?n" "length (col_max ?out) = nat ?n"
    "length (col_rms ?out) = nat ?n" "length (col_bl ?out) = nat ?n"
    using full unfolding fullColumns_def by blast+
  have w: "(nat (region_start r) \<le> i \<and> i < nat (region_start r) + nat ?n)
           \<longleftrightarrow> (region_start r \<le> int i \<and> int i < region_end r)"
    using start by auto
  show ?thesis
    using i w
    by (simp add: LoadInvalidRegion_def Let_def split_beta setCacheColumns_def
          writeColumns_def cacheColumns_def columnAt_def regionColumns_def blit_nth len)
qed

lemma fold_LoadInvalidRegion_column:
  assumes full: "fullColumns ops s"
    and start: "\<forall>r \<in> set rs. 0 \<le> region_start r"
    and i: "i < length (wc_min c)" "i < length (wc_max c)" "i < length (wc_rms c)"
           "i < length (wc_bl c)"
  shows "columnAt (cacheColumns (fold (LoadInvalidRegion ops s u) rs c)) i
         = (case find (\<lambda>r. region_start r \<le> int i \<and> int i < region_end r) (rev rs) of
              None \<Rightarrow> columnAt (cacheColumns c) i
            | Some r \<Rightarrow> columnAt (regionColumns ops s (wc_where c) r) (i - nat (region_start r)))"
  using start
proof (induction rs rule: rev_induct)
  case Nil
  then show ?case by simp
next
  case (snoc r rs)
  let ?c = "fold (LoadInvalidRegion ops s u) rs c"
  have k: "wc_where ?c = wc_where c" "length (wc_min ?c) = length (wc_min c)"
    "length (wc_max ?c) = length (wc_max c)" "length (wc_rms ?c) = length (wc_rms c)"
    "length (wc_bl ?c) = length (wc_bl c)"
    using fold_LoadInvalidRegion_key[of ops s u rs c] by simp_all
  have r: "0 \<le> region_start r" using snoc.prems by simp
  have "columnAt (cacheColumns (LoadInvalidRegion ops s u r ?c)) i
         = (if region_start r \<le> int i \<and> int i < region_end r
            then columnAt (regionColumns ops s (wc_where ?c) r) (i - nat (region_start r))
            else columnAt (cacheColumns ?c) i)"
    by (rule LoadInvalidRegion_column[OF full r]) (simp_all add: k i)
  moreover have "columnAt (cacheColumns ?c) i
         = (case find (\<lambda>r. region_start r \<le> int i \<and> int i < region_end r) (rev rs) of
              None \<Rightarrow> columnAt (cacheColumns c) i
            | Some r \<Rightarrow> columnAt (regionColumns ops s (wc_where c) r) (i - nat (region_start r)))"
    using snoc.IH snoc.prems by simp
  ultimately show ?case by (simp add: k)
qed

lemma drained_cache:
  fixes c :: waveCache and ops :: "'s sequenceOps" and s :: 's and u :: bool
  defines "c' \<equiv> ClearInvalidRegions (LoadInvalidRegions ops s u c)"
  shows "wc_mRegions c' = []"
    and "wc_dirty c' = wc_dirty c" and "wc_len c' = wc_len c" and "wc_start c' = wc_start c"
    and "wc_pps c' = wc_pps c" and "wc_rate c' = wc_rate c" and "wc_where c' = wc_where c"
    and "wellSized c \<Longrightarrow> wellSized c'"
    and "wellSized c \<Longrightarrow> fullColumns ops s \<Longrightarrow> i < nat (wc_len c) \<Longrightarrow>
         columnAt (cacheColumns c') i = drainedColumn ops s c i"
proof -
  note k = fold_LoadInvalidRegion_key[of ops s u "wc_mRegions c" c]
  show "wc_mRegions c' = []" "wc_dirty c' = wc_dirty c" "wc_len c' = wc_len c"
    "wc_start c' = wc_start c" "wc_pps c' = wc_pps c" "wc_rate c' = wc_rate c"
    "wc_where c' = wc_where c"
    using k by (simp_all add: c'_def ClearInvalidRegions_def LoadInvalidRegions_def)
  show "wellSized c'" if "wellSized c"
    using that k
    by (simp add: c'_def ClearInvalidRegions_def LoadInvalidRegions_def wellSized_def
          regionsWithin_def)
  show "columnAt (cacheColumns c') i = drainedColumn ops s c i"
    if ws: "wellSized c" and full: "fullColumns ops s" and i: "i < nat (wc_len c)"
  proof -
    have st: "\<forall>r \<in> set (wc_mRegions c). 0 \<le> region_start r"
      using ws by (simp add: wellSized_def regionsWithin_def)
    have "columnAt (cacheColumns (fold (LoadInvalidRegion ops s u) (wc_mRegions c) c)) i
          = drainedColumn ops s c i"
      unfolding drainedColumn_def
      by (rule fold_LoadInvalidRegion_column[OF full st]) (use ws i in \<open>simp_all add: wellSized_def\<close>)
    then show ?thesis
      by (simp add: c'_def ClearInvalidRegions_def LoadInvalidRegions_def cacheColumns_def)
  qed
qed

text \<open>
  Claim C2, as the source has it. For a display without buffers of its own, the query is
  served from the cache exactly when the spec's four conditions hold and the cache has at
  least one column: it returns \<^verbatim>\<open>true\<close> with the arrays of that cache, which stays in the
  clip under its key and its mapping, its invalid regions loaded from the sequence and its
  list of regions empty. When the arrays of the cache have \<open>len\<close> entries, its regions lie
  within \<open>[0, len]\<close> and the sequence writes every column it is asked for, each returned
  column is what the sequence summarises for the last region that holds it, and the cached
  column when no region holds it. Otherwise a new cache keyed by the request, without
  regions, replaces the old one. For a display that owns its buffers the cache is not
  consulted: the clip is left as it is and the columns are computed into the buffers of
  the display.
\<close>

theorem GetWaveDisplay_full_hit_iff:
  "(d_where display = None
      \<and> fullHitPerSpec clip (d_width display) t0 pixelsPerSecond
      \<and> (\<exists>c. mWaveCache clip = Some c \<and> wc_len c > 0)
    \<longrightarrow> (\<exists>c c'. mWaveCache clip = Some c
           \<and> c' = ClearInvalidRegions (LoadInvalidRegions ops (mSequence clip) True c)
           \<and> fst (GetWaveDisplay ops clip display t0 pixelsPerSecond) = True
           \<and> fst (snd (snd (GetWaveDisplay ops clip display t0 pixelsPerSecond)))
               = setDisplay display (cacheColumns c') (wc_where c')
           \<and> snd (snd (snd (GetWaveDisplay ops clip display t0 pixelsPerSecond)))
               = clip \<lparr> mWaveCache := Some c' \<rparr>
           \<and> wc_mRegions c' = []
           \<and> wc_dirty c' = wc_dirty c \<and> wc_len c' = wc_len c \<and> wc_start c' = wc_start c
           \<and> wc_pps c' = wc_pps c \<and> wc_rate c' = wc_rate c \<and> wc_where c' = wc_where c
           \<and> (wellSized c \<and> fullColumns ops (mSequence clip)
                \<longrightarrow> wellSized c'
                    \<and> (\<forall>i < nat (wc_len c).
                          columnAt (cacheColumns c') i
                          = drainedColumn ops (mSequence clip) c i))))
   \<and> (d_where display = None
      \<and> \<not> (fullHitPerSpec clip (d_width display) t0 pixelsPerSecond
            \<and> (\<exists>c. mWaveCache clip = Some c \<and> wc_len c > 0))
    \<longrightarrow> (\<exists>new. new = snd (rebuildWaveCache ops clip (d_width display) t0 pixelsPerSecond)
           \<and> snd (snd (snd (GetWaveDisplay ops clip display t0 pixelsPerSecond)))
               = clip \<lparr> mWaveCache := Some new \<rparr>
           \<and> wc_len new = d_width display \<and> wc_start new = t0
           \<and> wc_pps new = pixelsPerSecond \<and> wc_dirty new = mDirty clip
           \<and> wc_mRegions new = []))
   \<and> (d_where display \<noteq> None
    \<longrightarrow> snd (snd (snd (GetWaveDisplay ops clip display t0 pixelsPerSecond))) = clip
        \<and> fst (GetWaveDisplay ops clip display t0 pixelsPerSecond)
           = fst (fetchColumns ops clip (the (d_where display)) 0 (d_width display)
                    (displayColumns display)))"
proof (intro conjI impI)
  assume h: "d_where display = None
      \<and> fullHitPerSpec clip (d_width display) t0 pixelsPerSecond
      \<and> (\<exists>c. mWaveCache clip = Some c \<and> wc_len c > 0)"
  then obtain c where c: "mWaveCache clip = Some c" by blast
  let ?c' = "ClearInvalidRegions (LoadInvalidRegions ops (mSequence clip) True c)"
  have hit: "waveCacheFullHit clip (d_width display) t0 pixelsPerSecond"
    using h by (simp add: waveCacheFullHit_iff)
  have res: "GetWaveDisplay ops clip display t0 pixelsPerSecond
             = (True, wc_numODPixels ?c' > 0,
                setDisplay display (cacheColumns ?c') (wc_where ?c'),
                clip \<lparr> mWaveCache := Some ?c' \<rparr>)"
    using GetWaveDisplay_hit[OF _ hit c, of ops] h by (simp add: Let_def)
  have cols: "wellSized ?c'
      \<and> (\<forall>i < nat (wc_len c).
            columnAt (cacheColumns ?c') i = drainedColumn ops (mSequence clip) c i)"
    if "wellSized c \<and> fullColumns ops (mSequence clip)"
    using that drained_cache(8,9)[where c = c and ops = ops and s = "mSequence clip" and u = True]
    by blast
  show "\<exists>c c'. mWaveCache clip = Some c
           \<and> c' = ClearInvalidRegions (LoadInvalidRegions ops (mSequence clip) True c)
           \<and> fst (GetWaveDisplay ops clip display t0 pixelsPerSecond) = True
           \<and> fst (snd (snd (GetWaveDisplay ops clip display t0 pixelsPerSecond)))
               = setDisplay display (cacheColumns c') (wc_where c')
           \<and> snd (snd (snd (GetWaveDisplay ops clip display t0 pixelsPerSecond)))
               = clip \<lparr> mWaveCache := Some c' \<rparr>
           \<and> wc_mRegions c' = []
           \<and> wc_dirty c' = wc_dirty c \<and> wc_len c' = wc_len c \<and> wc_start c' = wc_start c
           \<and> wc_pps c' = wc_pps c \<and> wc_rate c' = wc_rate c \<and> wc_where c' = wc_where c
           \<and> (wellSized c \<and> fullColumns ops (mSequence clip)
                \<longrightarrow> wellSized c'
                    \<and> (\<forall>i < nat (wc_len c).
                          columnAt (cacheColumns c') i
                          = drainedColumn ops (mSequence clip) c i))"
  proof (rule exI[of _ c], rule exI[of _ ?c'], intro conjI impI)
    show "mWaveCache clip = Some c" by (rule c)
    show "?c' = ?c'" by (rule refl)
    show "fst (GetWaveDisplay ops clip display t0 pixelsPerSecond) = True"
      unfolding res by simp
    show "fst (snd (snd (GetWaveDisplay ops clip display t0 pixelsPerSecond)))
               = setDisplay display (cacheColumns ?c') (wc_where ?c')"
      unfolding res by simp
    show "snd (snd (snd (GetWaveDisplay ops clip display t0 pixelsPerSecond)))
               = clip \<lparr> mWaveCache := Some ?c' \<rparr>"
      unfolding res by simp
    show "wc_mRegions ?c' = []" "wc_dirty ?c' = wc_dirty c" "wc_len ?c' = wc_len c"
      "wc_start ?c' = wc_start c" "wc_pps ?c' = wc_pps c" "wc_rate ?c' = wc_rate c"
      "wc_where ?c' = wc_where c"
      by (rule drained_cache)+
    show "wellSized ?c'" if "wellSized c \<and> fullColumns ops (mSequence clip)"
      using cols[OF that] by blast
    show "\<forall>i < nat (wc_len c).
            columnAt (cacheColumns ?c') i = drainedColumn ops (mSequence clip) c i"
      if "wellSized c \<and> fullColumns ops (mSequence clip)"
      using cols[OF that] by blast
  qed
next
  assume h: "d_where display = None
      \<and> \<not> (fullHitPerSpec clip (d_width display) t0 pixelsPerSecond
            \<and> (\<exists>c. mWaveCache clip = Some c \<and> wc_len c > 0))"
  have miss: "\<not> waveCacheFullHit clip (d_width display) t0 pixelsPerSecond"
    using h by (simp add: waveCacheFullHit_iff)
  have "snd (snd (snd (GetWaveDisplay ops clip display t0 pixelsPerSecond)))
        = clip \<lparr> mWaveCache :=
                   Some (snd (rebuildWaveCache ops clip (d_width display) t0 pixelsPerSecond)) \<rparr>"
    using GetWaveDisplay_miss[OF _ miss, of ops] h by (simp add: Let_def)
  then show "\<exists>new. new = snd (rebuildWaveCache ops clip (d_width display) t0 pixelsPerSecond)
           \<and> snd (snd (snd (GetWaveDisplay ops clip display t0 pixelsPerSecond)))
               = clip \<lparr> mWaveCache := Some new \<rparr>
           \<and> wc_len new = d_width display \<and> wc_start new = t0
           \<and> wc_pps new = pixelsPerSecond \<and> wc_dirty new = mDirty clip
           \<and> wc_mRegions new = []"
    by (simp add: rebuildWaveCache_key)
next
  assume "d_where display \<noteq> None"
  then obtain ownWhere where o: "d_where display = Some ownWhere" by auto
  show "snd (snd (snd (GetWaveDisplay ops clip display t0 pixelsPerSecond))) = clip"
    by (rule GetWaveDisplay_owned(1)[OF o])
  show "fst (GetWaveDisplay ops clip display t0 pixelsPerSecond)
           = fst (fetchColumns ops clip (the (d_where display)) 0 (d_width display)
                    (displayColumns display))"
    using GetWaveDisplay_owned(2)[OF o] o by simp
qed

text \<open>
  The three cases of the theorem. A cache of five unfilled columns of which the columns 1
  and 2 are invalid serves the request with these two columns loaded from the sequence and
  the others as cached, and keeps no region. With a sequence whose summarising call fails,
  the clip without a usable cache gets a new cache of five columns, and the display with
  buffers of its own leaves the clip alone.
\<close>

lemma drained_staleCache:
  "ClearInvalidRegions (LoadInvalidRegions (squareOps True True) 1000 True staleCache)
   = unfilledCache \<lparr> wc_min := [0, - 1, - 1, 0, 0], wc_max := [0, 1, 1, 0, 0],
                      wc_rms := [0, 1, 1, 0, 0], wc_bl := [0, 1, 1, 0, 0] \<rparr>"
  by code_simp

theorem GetWaveDisplay_full_hit_iff_witness:
  "fst (GetWaveDisplay (squareOps True True) (freshClip \<lparr> mWaveCache := Some staleCache \<rparr>)
          (emptyDisplay 5) 0 10) = True
   \<and> fst (snd (snd (GetWaveDisplay (squareOps True True)
          (freshClip \<lparr> mWaveCache := Some staleCache \<rparr>) (emptyDisplay 5) 0 10)))
     = \<lparr> d_width = 5, d_where = Some [0, 10, 20, 30, 40, 50],
         d_min = [0, - 1, - 1, 0, 0], d_max = [0, 1, 1, 0, 0],
         d_rms = [0, 1, 1, 0, 0], d_bl = [0, 1, 1, 0, 0] \<rparr>
   \<and> snd (snd (snd (GetWaveDisplay (squareOps True True)
          (freshClip \<lparr> mWaveCache := Some staleCache \<rparr>) (emptyDisplay 5) 0 10)))
     = freshClip \<lparr> mWaveCache := Some
         (unfilledCache \<lparr> wc_min := [0, - 1, - 1, 0, 0], wc_max := [0, 1, 1, 0, 0],
                           wc_rms := [0, 1, 1, 0, 0], wc_bl := [0, 1, 1, 0, 0] \<rparr>) \<rparr>
   \<and> wc_mRegions (unfilledCache \<lparr> wc_min := [0, - 1, - 1, 0, 0], wc_max := [0, 1, 1, 0, 0],
                           wc_rms := [0, 1, 1, 0, 0], wc_bl := [0, 1, 1, 0, 0] \<rparr>) = []
   \<and> drainedColumn (squareOps True True) 1000 staleCache 2 = (- 1, 1, 1, 1)
   \<and> drainedColumn (squareOps True True) 1000 staleCache 3 = (0, 0, 0, 0)
   \<and> wc_len (the (mWaveCache (snd (snd (snd
        (GetWaveDisplay (squareOps False True) freshClip (emptyDisplay 5) 0 10)))))) = 5
   \<and> snd (snd (snd (GetWaveDisplay (squareOps False True)
        (freshClip \<lparr> mWaveCache := Some filledCache \<rparr>)
        (ownedDisplay 5 [0, 10, 20, 30, 40, 50]) 0 10)))
     = freshClip \<lparr> mWaveCache := Some filledCache \<rparr>"
proof -
  let ?ops = "squareOps True True"
  let ?fail = "squareOps False True"
  let ?stale = "freshClip \<lparr> mWaveCache := Some staleCache \<rparr>"
  let ?cached = "freshClip \<lparr> mWaveCache := Some filledCache \<rparr>"
  let ?drained = "unfilledCache \<lparr> wc_min := [0, - 1, - 1, 0, 0], wc_max := [0, 1, 1, 0, 0],
                                  wc_rms := [0, 1, 1, 0, 0], wc_bl := [0, 1, 1, 0, 0] \<rparr>"
  have a1: "d_where (emptyDisplay 5) = None
      \<and> fullHitPerSpec ?stale (d_width (emptyDisplay 5)) 0 10
      \<and> (\<exists>c. mWaveCache ?stale = Some c \<and> wc_len c > 0)"
    by (simp add: wave_eval)
  have seq: "mSequence ?stale = 1000"
    by (simp add: freshClip_def WaveClip_new_def)
  have sized: "wellSized staleCache \<and> fullColumns ?ops 1000"
    by (simp add: wellSized_def fullColumns_def regionsWithin_def wave_eval)
  have len: "nat (wc_len staleCache) = 5"
    by (simp add: wave_eval)
  from GetWaveDisplay_full_hit_iff[of "emptyDisplay 5" ?stale 0 10 ?ops] a1
  obtain c c' where c: "mWaveCache ?stale = Some c"
    and c': "c' = ClearInvalidRegions (LoadInvalidRegions ?ops (mSequence ?stale) True c)"
    and ok: "fst (GetWaveDisplay ?ops ?stale (emptyDisplay 5) 0 10) = True"
    and disp: "fst (snd (snd (GetWaveDisplay ?ops ?stale (emptyDisplay 5) 0 10)))
               = setDisplay (emptyDisplay 5) (cacheColumns c') (wc_where c')"
    and clip: "snd (snd (snd (GetWaveDisplay ?ops ?stale (emptyDisplay 5) 0 10)))
               = ?stale \<lparr> mWaveCache := Some c' \<rparr>"
    and regions: "wc_mRegions c' = []"
    and cols: "wellSized c \<and> fullColumns ?ops (mSequence ?stale)
               \<longrightarrow> wellSized c'
                   \<and> (\<forall>i < nat (wc_len c).
                         columnAt (cacheColumns c') i = drainedColumn ?ops (mSequence ?stale) c i)"
    by blast
  have cs: "c = staleCache" using c by simp
  have cd: "c' = ?drained" unfolding c' cs seq by (rule drained_staleCache)
  have "fst (snd (snd (GetWaveDisplay ?ops ?stale (emptyDisplay 5) 0 10)))
     = \<lparr> d_width = 5, d_where = Some [0, 10, 20, 30, 40, 50],
         d_min = [0, - 1, - 1, 0, 0], d_max = [0, 1, 1, 0, 0],
         d_rms = [0, 1, 1, 0, 0], d_bl = [0, 1, 1, 0, 0] \<rparr>"
    unfolding disp cd
    by (simp add: setDisplay_def cacheColumns_def emptyDisplay_def unfilledCache_def)
  moreover have "snd (snd (snd (GetWaveDisplay ?ops ?stale (emptyDisplay 5) 0 10)))
     = freshClip \<lparr> mWaveCache := Some ?drained \<rparr>"
    unfolding clip cd by simp
  moreover have "wc_mRegions ?drained = []"
    using regions unfolding cd .
  moreover have "drainedColumn ?ops 1000 staleCache 2 = (- 1, 1, 1, 1)
      \<and> drainedColumn ?ops 1000 staleCache 3 = (0, 0, 0, 0)"
  proof -
    have all: "\<forall>i < 5. columnAt (cacheColumns ?drained) i = drainedColumn ?ops 1000 staleCache i"
      using cols sized unfolding cs seq cd len by blast
    have "columnAt (cacheColumns ?drained) 2 = (- 1, 1, 1, 1)"
      "columnAt (cacheColumns ?drained) 3 = (0, 0, 0, 0)"
      by (simp_all add: columnAt_def cacheColumns_def)
    then show ?thesis using all by simp
  qed
  moreover
  have a2: "d_where (emptyDisplay 5) = None
      \<and> \<not> (fullHitPerSpec freshClip (d_width (emptyDisplay 5)) 0 10
            \<and> (\<exists>c. mWaveCache freshClip = Some c \<and> wc_len c > 0))"
    by (simp add: wave_eval)
  have "wc_len (the (mWaveCache (snd (snd (snd
        (GetWaveDisplay ?fail freshClip (emptyDisplay 5) 0 10)))))) = 5"
    using GetWaveDisplay_full_hit_iff[of "emptyDisplay 5" freshClip 0 10 ?fail] a2
    by (simp add: emptyDisplay_def)
  moreover
  have a3: "d_where (ownedDisplay 5 [0, 10, 20, 30, 40, 50]) \<noteq> None"
    by (simp add: ownedDisplay_def)
  have "snd (snd (snd (GetWaveDisplay ?fail ?cached (ownedDisplay 5 [0, 10, 20, 30, 40, 50]) 0 10)))
        = ?cached"
    using GetWaveDisplay_full_hit_iff[of "ownedDisplay 5 [0, 10, 20, 30, 40, 50]" ?cached 0 10 ?fail]
      a3 by blast
  ultimately show ?thesis using ok by blast
qed

text \<open>
  The loading flag is left out of the theorem. The source reports it from the counter
  \<^verbatim>\<open>numODPixels\<close>, which the constructor sets before any column is computed and which is
  later changed only by the difference a loaded region makes. With a sequence that answers
  every column as not yet loaded, the rebuild and the full hit that follows both report
  \<^verbatim>\<open>false\<close> for a display of five such columns.
\<close>

lemma GetWaveDisplay_loading_flag_not_recounted:
  "GetWaveDisplay onDemandOps freshClip (emptyDisplay 5) 0 10
     = (True, False,
        \<lparr> d_width = 5, d_where = Some [0, 10, 20, 30, 40, 50],
          d_min = [0, 0, 0, 0, 0], d_max = [0, 0, 0, 0, 0],
          d_rms = [0, 0, 0, 0, 0], d_bl = [- 1, - 1, - 1, - 1, - 1] \<rparr>,
        freshClip \<lparr> mWaveCache := Some (unfilledCache \<lparr> wc_bl := [- 1, - 1, - 1, - 1, - 1] \<rparr>) \<rparr>)
   \<and> GetWaveDisplay onDemandOps
        (freshClip \<lparr> mWaveCache := Some (unfilledCache \<lparr> wc_bl := [- 1, - 1, - 1, - 1, - 1] \<rparr>) \<rparr>)
        (emptyDisplay 5) 0 10
     = (True, False,
        \<lparr> d_width = 5, d_where = Some [0, 10, 20, 30, 40, 50],
          d_min = [0, 0, 0, 0, 0], d_max = [0, 0, 0, 0, 0],
          d_rms = [0, 0, 0, 0, 0], d_bl = [- 1, - 1, - 1, - 1, - 1] \<rparr>,
        freshClip \<lparr> mWaveCache := Some (unfilledCache \<lparr> wc_bl := [- 1, - 1, - 1, - 1, - 1] \<rparr>) \<rparr>)
   \<and> CountODPixels [- 1, - 1, - 1, - 1, - 1] 0 5 = 5"
  by (simp add: wave_eval)

text \<open>
  Claim C2 as stated, with the four conditions alone, fails in two ways. A display that owns
  its buffers is not served from the cache although the four conditions hold: with a
  sequence whose summarising call fails the query fails, where a full hit would not have
  called the sequence. And a cache of no column meets the four conditions for a request of
  no pixel, but the source's test of the match asks for a positive cached length (line 544).
\<close>

theorem GetWaveDisplay_conditions_without_hit:
  "fullHitPerSpec (freshClip \<lparr> mWaveCache := Some filledCache \<rparr>) 5 0 10
   \<and> GetWaveDisplay (squareOps False True) (freshClip \<lparr> mWaveCache := Some filledCache \<rparr>)
       (ownedDisplay 5 [0, 10, 20, 30, 40, 50]) 0 10
     = (False, False, ownedDisplay 5 [0, 10, 20, 30, 40, 50],
        freshClip \<lparr> mWaveCache := Some filledCache \<rparr>)
   \<and> GetWaveDisplay (squareOps True True) freshClip (emptyDisplay 0) 0 10
     = (True, False,
        \<lparr> d_width = 0, d_where = Some [0], d_min = [], d_max = [], d_rms = [], d_bl = [] \<rparr>,
        freshClip \<lparr> mWaveCache := Some zeroCache \<rparr>)
   \<and> fullHitPerSpec (freshClip \<lparr> mWaveCache := Some zeroCache \<rparr>) 0 0 10
   \<and> \<not> waveCacheFullHit (freshClip \<lparr> mWaveCache := Some zeroCache \<rparr>) 0 0 10"
  by (simp add: wave_eval)

text \<open>
  Claim C4 on the source. The clip has no usable cache and the summarising call of the
  sequence fails. The query returns \<^verbatim>\<open>false\<close>, the loading flag is \<^verbatim>\<open>false\<close> and the display
  is not touched, as the claim says. The new cache, of which no column has been computed,
  is nevertheless left in the clip under the key of the request (it was installed at source
  line 584, before the call that failed), and the same query repeated is a full hit on it:
  it returns \<^verbatim>\<open>true\<close> with the zeroed arrays, the sequence failing as before.
\<close>

theorem GetWaveDisplay_failure_keeps_unfilled_cache:
  "GetWaveDisplay (squareOps False True) freshClip (emptyDisplay 5) 0 10
     = (False, False, emptyDisplay 5, freshClip \<lparr> mWaveCache := Some unfilledCache \<rparr>)
   \<and> GetWaveDisplay (squareOps False True) (freshClip \<lparr> mWaveCache := Some unfilledCache \<rparr>)
       (emptyDisplay 5) 0 10
     = (True, False,
        \<lparr> d_width = 5, d_where = Some [0, 10, 20, 30, 40, 50],
          d_min = [0, 0, 0, 0, 0], d_max = [0, 0, 0, 0, 0],
          d_rms = [0, 0, 0, 0, 0], d_bl = [0, 0, 0, 0, 0] \<rparr>,
        freshClip \<lparr> mWaveCache := Some unfilledCache \<rparr>)"
  by (simp add: wave_eval)

text \<open>With a sequence that answers, the same request fills the five columns.\<close>

lemma GetWaveDisplay_success_fills_cache:
  "GetWaveDisplay (squareOps True True) freshClip (emptyDisplay 5) 0 10
     = (True, False,
        \<lparr> d_width = 5, d_where = Some [0, 10, 20, 30, 40, 50],
          d_min = [- 1, - 1, - 1, - 1, - 1], d_max = [1, 1, 1, 1, 1],
          d_rms = [1, 1, 1, 1, 1], d_bl = [1, 1, 1, 1, 1] \<rparr>,
        freshClip \<lparr> mWaveCache := Some filledCache \<rparr>)"
  by (simp add: wave_eval)


section \<open>Properties of the spectrogram query\<close>

lemmas spec_eval =
  GetSpectrogram_def rebuildSpecCache_def specReuse_def specCacheFullHit_def
  specCacheMatch_def Matches_def ppsMatches_def Populate_def populateRange_def
  convertColumn_def ComputeSpectrogramGainFactors_def SpecCache_new_def SpecCache_default_def
  double_to_int_def markColumn_def stftSettings_def reassignmentSettings_def oldSpecCache_def
  WaveClip_new_def freshClip_def
  fillWhere_def findCorrection_def copyRange_def blit_def
  Let_def upt_rec upto.simps eval_nat_numeral

lemma specCacheFullHit_iff:
  "specCacheFullHit clip settings numPixels t0 pixelsPerSecond
   \<longleftrightarrow> (\<exists>c. mSpecCache clip = Some c \<and> sc_len c > 0
          \<and> Matches c (mDirty clip) pixelsPerSecond settings (mRate clip)
          \<and> sc_start c = t0 \<and> sc_len c \<ge> numPixels)"
  by (auto simp: specCacheFullHit_def specCacheMatch_def split: option.splits)

lemma specReuse_reassignment:
  "ss_algorithm settings = algReassignment \<Longrightarrow>
   specReuse clip settings numPixels t0 pixelsPerSecond = (None, 0, 0, 0, 0)"
  by (simp add: specReuse_def Let_def split: option.splits)

lemma specReuse_no_match:
  "\<not> specCacheMatch clip settings pixelsPerSecond \<Longrightarrow>
   specReuse clip settings numPixels t0 pixelsPerSecond = (None, 0, 0, 0, 0)"
  by (simp add: specReuse_def Let_def split: option.splits)

lemma rebuildSpecCache_no_reuse:
  assumes "specReuse clip settings numPixels t0 pixelsPerSecond = (None, 0, 0, 0, 0)"
  shows "rebuildSpecCache calc zeroPadded settings clip numPixels t0 pixelsPerSecond
         = (let zeroPaddingFactor =
                  (if zeroPadded
                   then (if ss_algorithm settings = algPitchEAC then 1
                         else ss_zeroPaddingFactor settings)
                   else 1);
                new0 = SpecCache_new numPixels (ss_algorithm settings) pixelsPerSecond t0
                         (ss_windowType settings) (ss_windowSize settings) zeroPaddingFactor
                         (ss_frequencyGain settings);
                new1 = new0 \<lparr> sc_where :=
                         fillWhere (sc_where new0) numPixels 0.5 0 t0
                           (real_of_int (mRate clip))
                           (real_of_int (mRate clip) * (1 / pixelsPerSecond)) \<rparr>
            in (Populate calc settings zeroPadded 0 0 numPixels
                  (real_of_int (mRate clip)) pixelsPerSecond new1) \<lparr> sc_dirty := mDirty clip \<rparr>)"
  using assms by (simp add: rebuildSpecCache_def Let_def)

lemma GetSpectrogram_hit:
  assumes "specCacheFullHit clip settings numPixels t0 pixelsPerSecond"
    and "mSpecCache clip = Some c"
  shows "GetSpectrogram calc zeroPadded settings clip numPixels t0 pixelsPerSecond
         = (False, sc_freq c, sc_where c, clip)"
  using assms by (simp add: GetSpectrogram_def)

lemma GetSpectrogram_miss:
  assumes "\<not> specCacheFullHit clip settings numPixels t0 pixelsPerSecond"
  shows "GetSpectrogram calc zeroPadded settings clip numPixels t0 pixelsPerSecond
         = (let new = rebuildSpecCache calc zeroPadded settings clip numPixels t0 pixelsPerSecond
            in (True, sc_freq new, sc_where new, clip \<lparr> mSpecCache := Some new \<rparr>))"
  using assms by (simp add: GetSpectrogram_def)

lemma specReuse_cache_None:
  "specReuse (clip \<lparr> mSpecCache := None \<rparr>) settings numPixels t0 pixelsPerSecond
   = (None, 0, 0, 0, 0)"
  by (simp add: specReuse_def Let_def specCacheMatch_def)

lemma rebuildSpecCache_stale:
  assumes "specReuse clip settings numPixels t0 pixelsPerSecond = (None, 0, 0, 0, 0)"
  shows "rebuildSpecCache calc zeroPadded settings clip numPixels t0 pixelsPerSecond
         = rebuildSpecCache calc zeroPadded settings (clip \<lparr> mSpecCache := None \<rparr>)
             numPixels t0 pixelsPerSecond"
  by (simp add: rebuildSpecCache_no_reuse[OF assms] rebuildSpecCache_no_reuse[OF specReuse_cache_None])


text \<open>\<^verbatim>\<open>Populate\<close> writes the buffer \<^verbatim>\<open>freq\<close> and nothing else of the cache.\<close>

lemma specKey_freq [simp]: "specKey (c \<lparr> sc_freq := x \<rparr>) = specKey c"
  by (simp add: specKey_def)

lemma fold_specKey:
  "specKey (fold (\<lambda>xx c. c \<lparr> sc_freq := f xx c \<rparr>) xs c) = specKey c"
  by (induction xs arbitrary: c) simp_all

lemma lookBefore_specKey:
  "specKey (lookBefore calc gf lb ub n xx c) = specKey c"
  by (induction n arbitrary: xx c) (simp_all add: split_beta Let_def)

lemma lookAfter_specKey:
  "specKey (lookAfter calc gf lb ub n xx c) = specKey c"
  by (induction n arbitrary: xx c) (simp_all add: split_beta Let_def)

lemma populateRange_specKey:
  "specKey (populateRange calc settings gf half limit lb ub c) = specKey c"
  by (simp add: populateRange_def Let_def fold_specKey lookBefore_specKey lookAfter_specKey)

lemma Populate_specKey:
  "specKey (Populate calc settings zeroPadded copyBegin copyEnd numPixels rate pps c)
   = specKey c"
  by (simp add: Populate_def Let_def populateRange_specKey)

lemma Populate_fields:
  "sc_len (Populate calc settings zeroPadded copyBegin copyEnd numPixels rate pps c) = sc_len c"
  "sc_start (Populate calc settings zeroPadded copyBegin copyEnd numPixels rate pps c)
     = sc_start c"
  "sc_pps (Populate calc settings zeroPadded copyBegin copyEnd numPixels rate pps c) = sc_pps c"
  "sc_where (Populate calc settings zeroPadded copyBegin copyEnd numPixels rate pps c)
     = sc_where c"
  "sc_algorithm (Populate calc settings zeroPadded copyBegin copyEnd numPixels rate pps c)
     = sc_algorithm c"
proof -
  let ?p = "Populate calc settings zeroPadded copyBegin copyEnd numPixels rate pps c"
  have k: "specKey ?p = specKey c" by (rule Populate_specKey)
  show "sc_len ?p = sc_len c"
    using arg_cong[OF k, of sc_len] by (simp add: specKey_def)
  show "sc_start ?p = sc_start c"
    using arg_cong[OF k, of sc_start] by (simp add: specKey_def)
  show "sc_pps ?p = sc_pps c"
    using arg_cong[OF k, of sc_pps] by (simp add: specKey_def)
  show "sc_where ?p = sc_where c"
    using arg_cong[OF k, of sc_where] by (simp add: specKey_def)
  show "sc_algorithm ?p = sc_algorithm c"
    using arg_cong[OF k, of sc_algorithm] by (simp add: specKey_def)
qed

lemma rebuildSpecCache_key:
  "sc_len (rebuildSpecCache calc zeroPadded settings clip numPixels t0 pixelsPerSecond)
     = numPixels"
  "sc_start (rebuildSpecCache calc zeroPadded settings clip numPixels t0 pixelsPerSecond) = t0"
  "sc_pps (rebuildSpecCache calc zeroPadded settings clip numPixels t0 pixelsPerSecond)
     = pixelsPerSecond"
  "sc_algorithm (rebuildSpecCache calc zeroPadded settings clip numPixels t0 pixelsPerSecond)
     = Some (ss_algorithm settings)"
  "sc_dirty (rebuildSpecCache calc zeroPadded settings clip numPixels t0 pixelsPerSecond)
     = mDirty clip"
  by (simp_all add: rebuildSpecCache_def Let_def split_beta Populate_fields SpecCache_new_def
        split: option.splits)

text \<open>
  Claim C8. With the reassignment algorithm the query either is a complete hit (a cache of
  some column whose dirty value, settings and pixels per second match, whose start is the
  requested one and whose length suffices) and returns the buffers of the cache, or takes
  nothing from the old cache: no range is copied, and the result is what \<^verbatim>\<open>Populate\<close>
  computes over all the columns \<open>[0, numPixels)\<close> on a new zeroed cache.
\<close>

theorem GetSpectrogram_reassignment_no_partial_reuse:
  assumes "ss_algorithm settings = algReassignment"
  shows "((\<exists>c. mSpecCache clip = Some c \<and> sc_len c > 0
            \<and> Matches c (mDirty clip) pixelsPerSecond settings (mRate clip)
            \<and> sc_start c = t0 \<and> sc_len c \<ge> numPixels)
          \<longrightarrow> (\<exists>c. mSpecCache clip = Some c
                \<and> GetSpectrogram calc zeroPadded settings clip numPixels t0 pixelsPerSecond
                    = (False, sc_freq c, sc_where c, clip)))
       \<and> (\<not> (\<exists>c. mSpecCache clip = Some c \<and> sc_len c > 0
            \<and> Matches c (mDirty clip) pixelsPerSecond settings (mRate clip)
            \<and> sc_start c = t0 \<and> sc_len c \<ge> numPixels)
          \<longrightarrow> specReuse clip settings numPixels t0 pixelsPerSecond = (None, 0, 0, 0, 0)
              \<and> GetSpectrogram calc zeroPadded settings clip numPixels t0 pixelsPerSecond
                  = (let zeroPaddingFactor = (if zeroPadded then ss_zeroPaddingFactor settings else 1);
                         new0 = SpecCache_new numPixels algReassignment pixelsPerSecond t0
                                  (ss_windowType settings) (ss_windowSize settings)
                                  zeroPaddingFactor (ss_frequencyGain settings);
                         new1 = new0 \<lparr> sc_where :=
                                  fillWhere (sc_where new0) numPixels 0.5 0 t0
                                    (real_of_int (mRate clip))
                                    (real_of_int (mRate clip) * (1 / pixelsPerSecond)) \<rparr>;
                         new = (Populate calc settings zeroPadded 0 0 numPixels
                                  (real_of_int (mRate clip)) pixelsPerSecond new1)
                               \<lparr> sc_dirty := mDirty clip \<rparr>
                     in (True, sc_freq new, sc_where new, clip \<lparr> mSpecCache := Some new \<rparr>)))"
proof (intro conjI impI)
  assume "\<exists>c. mSpecCache clip = Some c \<and> sc_len c > 0
            \<and> Matches c (mDirty clip) pixelsPerSecond settings (mRate clip)
            \<and> sc_start c = t0 \<and> sc_len c \<ge> numPixels"
  then obtain c where c: "mSpecCache clip = Some c"
    and hit: "specCacheFullHit clip settings numPixels t0 pixelsPerSecond"
    unfolding specCacheFullHit_iff by blast
  show "\<exists>c. mSpecCache clip = Some c
          \<and> GetSpectrogram calc zeroPadded settings clip numPixels t0 pixelsPerSecond
              = (False, sc_freq c, sc_where c, clip)"
    using GetSpectrogram_hit[OF hit c] c by blast
next
  assume "\<not> (\<exists>c. mSpecCache clip = Some c \<and> sc_len c > 0
            \<and> Matches c (mDirty clip) pixelsPerSecond settings (mRate clip)
            \<and> sc_start c = t0 \<and> sc_len c \<ge> numPixels)"
  then have miss: "\<not> specCacheFullHit clip settings numPixels t0 pixelsPerSecond"
    unfolding specCacheFullHit_iff .
  show reuse: "specReuse clip settings numPixels t0 pixelsPerSecond = (None, 0, 0, 0, 0)"
    by (rule specReuse_reassignment[OF assms])
  show "GetSpectrogram calc zeroPadded settings clip numPixels t0 pixelsPerSecond
        = (let zeroPaddingFactor = (if zeroPadded then ss_zeroPaddingFactor settings else 1);
               new0 = SpecCache_new numPixels algReassignment pixelsPerSecond t0
                        (ss_windowType settings) (ss_windowSize settings)
                        zeroPaddingFactor (ss_frequencyGain settings);
               new1 = new0 \<lparr> sc_where :=
                        fillWhere (sc_where new0) numPixels 0.5 0 t0
                          (real_of_int (mRate clip))
                          (real_of_int (mRate clip) * (1 / pixelsPerSecond)) \<rparr>;
               new = (Populate calc settings zeroPadded 0 0 numPixels
                        (real_of_int (mRate clip)) pixelsPerSecond new1)
                     \<lparr> sc_dirty := mDirty clip \<rparr>
           in (True, sc_freq new, sc_where new, clip \<lparr> mSpecCache := Some new \<rparr>))"
    unfolding GetSpectrogram_miss[OF miss] rebuildSpecCache_no_reuse[OF reuse]
    using assms by (simp add: Let_def)
qed

text \<open>
  The theorem on a cache of three columns: the same view is a complete hit; the view one
  pixel later recomputes all three columns, where the standard algorithm copies two.
\<close>

theorem GetSpectrogram_reassignment_no_partial_reuse_witness:
  "GetSpectrogram markColumn True reassignmentSettings
       (freshClip \<lparr> mSpecCache := Some (oldSpecCache algReassignment) \<rparr>) 3 0 10
     = (False, [7, 7, 7], [1, 11, 21, 31],
        freshClip \<lparr> mSpecCache := Some (oldSpecCache algReassignment) \<rparr>)
   \<and> fst (snd (GetSpectrogram markColumn True reassignmentSettings
        (freshClip \<lparr> mSpecCache := Some (oldSpecCache algReassignment) \<rparr>) 3 (1 / 10) 10))
     = [10, 10, 10]
   \<and> fst (snd (GetSpectrogram markColumn True stftSettings
        (freshClip \<lparr> mSpecCache := Some (oldSpecCache algSTFT) \<rparr>) 3 (1 / 10) 10))
     = [7, 7, 10]"
proof -
  let ?clip = "freshClip \<lparr> mSpecCache := Some (oldSpecCache algReassignment) \<rparr>"
  have alg: "ss_algorithm reassignmentSettings = algReassignment"
    by (simp add: reassignmentSettings_def)
  have hit: "\<exists>c. mSpecCache ?clip = Some c \<and> sc_len c > 0
            \<and> Matches c (mDirty ?clip) 10 reassignmentSettings (mRate ?clip)
            \<and> sc_start c = 0 \<and> sc_len c \<ge> 3"
    by (simp add: spec_eval)
  have miss: "\<not> (\<exists>c. mSpecCache ?clip = Some c \<and> sc_len c > 0
            \<and> Matches c (mDirty ?clip) 10 reassignmentSettings (mRate ?clip)
            \<and> sc_start c = 1 / 10 \<and> sc_len c \<ge> 3)"
    by (simp add: spec_eval)
  have "GetSpectrogram markColumn True reassignmentSettings ?clip 3 0 10
        = (False, [7, 7, 7], [1, 11, 21, 31], ?clip)"
    using GetSpectrogram_reassignment_no_partial_reuse[OF alg, of ?clip 10 0 3 markColumn True]
      hit by (simp add: oldSpecCache_def)
  moreover have "fst (snd (GetSpectrogram markColumn True reassignmentSettings ?clip 3 (1 / 10) 10))
        = [10, 10, 10]"
    using GetSpectrogram_reassignment_no_partial_reuse[OF alg, of ?clip 10 "1 / 10" 3 markColumn
        True] miss
    by (simp add: spec_eval)
  moreover have "fst (snd (GetSpectrogram markColumn True stftSettings
        (freshClip \<lparr> mSpecCache := Some (oldSpecCache algSTFT) \<rparr>) 3 (1 / 10) 10))
     = [7, 7, 10]"
    by (simp add: spec_eval)
  ultimately show ?thesis by blast
qed

text \<open>
  Claim C10. Whatever the computation of the columns does or reports, the query returns,
  and it returns \<^verbatim>\<open>false\<close> exactly when the request is a complete hit: the clip is then
  left as it is and the buffers of its cache are returned. It returns \<^verbatim>\<open>true\<close> in every
  other case, with the buffers of a rebuilt cache keyed by the request, which replaces the
  old one. No result of the function stands for a failure.
\<close>

theorem GetSpectrogram_result_is_recomputed:
  "(fst (GetSpectrogram calc zeroPadded settings clip numPixels t0 pixelsPerSecond) = False
      \<longleftrightarrow> (\<exists>c. mSpecCache clip = Some c \<and> sc_len c > 0
            \<and> Matches c (mDirty clip) pixelsPerSecond settings (mRate clip)
            \<and> sc_start c = t0 \<and> sc_len c \<ge> numPixels))
   \<and> (fst (GetSpectrogram calc zeroPadded settings clip numPixels t0 pixelsPerSecond) = False
      \<longrightarrow> (\<exists>c. mSpecCache clip = Some c
            \<and> GetSpectrogram calc zeroPadded settings clip numPixels t0 pixelsPerSecond
                = (False, sc_freq c, sc_where c, clip)))
   \<and> (fst (GetSpectrogram calc zeroPadded settings clip numPixels t0 pixelsPerSecond) = True
      \<longrightarrow> (\<exists>new. new = rebuildSpecCache calc zeroPadded settings clip numPixels t0
                          pixelsPerSecond
            \<and> GetSpectrogram calc zeroPadded settings clip numPixels t0 pixelsPerSecond
                = (True, sc_freq new, sc_where new, clip \<lparr> mSpecCache := Some new \<rparr>)
            \<and> sc_len new = numPixels \<and> sc_start new = t0 \<and> sc_pps new = pixelsPerSecond
            \<and> sc_dirty new = mDirty clip))"
proof (cases "specCacheFullHit clip settings numPixels t0 pixelsPerSecond")
  case True
  then obtain c where c: "mSpecCache clip = Some c"
    by (auto simp: specCacheFullHit_def split: option.splits)
  show ?thesis
    using True GetSpectrogram_hit[OF True c, of calc zeroPadded] c
    by (simp add: specCacheFullHit_iff)
next
  case False
  show ?thesis
    using False GetSpectrogram_miss[OF False, of calc zeroPadded]
    by (simp add: specCacheFullHit_iff Let_def rebuildSpecCache_key)
qed


text \<open>
  The theorem on the clip as constructed, whose empty cache matches nothing, and then on
  the clip that the first query leaves.
\<close>

theorem GetSpectrogram_result_is_recomputed_witness:
  "GetSpectrogram markColumn True stftSettings freshClip 3 0 10
     = (True, [10, 10, 10], [1, 11, 21, 31],
        freshClip \<lparr> mSpecCache := Some ((oldSpecCache algSTFT) \<lparr> sc_freq := [10, 10, 10] \<rparr>) \<rparr>)
   \<and> GetSpectrogram markColumn True stftSettings
        (freshClip \<lparr> mSpecCache := Some ((oldSpecCache algSTFT) \<lparr> sc_freq := [10, 10, 10] \<rparr>) \<rparr>)
        3 0 10
     = (False, [10, 10, 10], [1, 11, 21, 31],
        freshClip \<lparr> mSpecCache := Some ((oldSpecCache algSTFT) \<lparr> sc_freq := [10, 10, 10] \<rparr>) \<rparr>)"
proof -
  let ?after = "freshClip \<lparr> mSpecCache := Some ((oldSpecCache algSTFT) \<lparr> sc_freq := [10, 10, 10] \<rparr>) \<rparr>"
  have miss: "\<not> (\<exists>c. mSpecCache freshClip = Some c \<and> sc_len c > 0
            \<and> Matches c (mDirty freshClip) 10 stftSettings (mRate freshClip)
            \<and> sc_start c = 0 \<and> sc_len c \<ge> 3)"
    by (simp add: spec_eval)
  have hit: "\<exists>c. mSpecCache ?after = Some c \<and> sc_len c > 0
            \<and> Matches c (mDirty ?after) 10 stftSettings (mRate ?after)
            \<and> sc_start c = 0 \<and> sc_len c \<ge> 3"
    by (simp add: spec_eval)
  have new: "rebuildSpecCache markColumn True stftSettings freshClip 3 0 10
             = (oldSpecCache algSTFT) \<lparr> sc_freq := [10, 10, 10] \<rparr>"
    by (simp add: spec_eval)
  have "GetSpectrogram markColumn True stftSettings freshClip 3 0 10
        = (True, [10, 10, 10], [1, 11, 21, 31], ?after)"
    using GetSpectrogram_result_is_recomputed[of markColumn True stftSettings freshClip 3 0 10]
      miss new by (simp add: oldSpecCache_def)
  moreover have "GetSpectrogram markColumn True stftSettings ?after 3 0 10
        = (False, [10, 10, 10], [1, 11, 21, 31], ?after)"
    using GetSpectrogram_result_is_recomputed[of markColumn True stftSettings ?after 3 0 10]
      hit by (simp add: oldSpecCache_def)
  ultimately show ?thesis by blast
qed


section \<open>Mutations and the dirty generation\<close>

lemma waveReuse_no_match:
  "\<not> waveCacheMatch clip numPixels pixelsPerSecond \<Longrightarrow>
   waveReuse clip numPixels t0 pixelsPerSecond = (None, 0, 0, 0, 0)"
  by (simp add: waveReuse_def Let_def split: option.splits)

lemma rebuildWaveCache_no_reuse:
  assumes "waveReuse clip numPixels t0 pixelsPerSecond = (None, 0, 0, 0, 0)"
  shows "rebuildWaveCache ops clip numPixels t0 pixelsPerSecond
         = rebuildWaveCache ops (clip \<lparr> mWaveCache := None \<rparr>) numPixels t0 pixelsPerSecond"
proof -
  have "waveReuse (clip \<lparr> mWaveCache := None \<rparr>) numPixels t0 pixelsPerSecond
        = (None, 0, 0, 0, 0)"
    by (simp add: waveReuse_def Let_def waveCacheMatch_def)
  then show ?thesis
    using assms by (simp add: rebuildWaveCache_def Let_def fetchColumns_cache_irrelevant)
qed

lemma GetWaveDisplay_no_match:
  assumes "\<not> waveCacheMatch clip (d_width display) pixelsPerSecond"
  shows "GetWaveDisplay ops clip display t0 pixelsPerSecond
         = (case GetWaveDisplay ops (clip \<lparr> mWaveCache := None \<rparr>) display t0 pixelsPerSecond of
              (r, l, d', clip') \<Rightarrow> (r, l, d', if d_where display = None then clip' else clip))"
proof (cases "d_where display")
  case (Some ownWhere)
  then show ?thesis
    by (simp add: GetWaveDisplay_def Let_def split_beta fetchColumns_cache_irrelevant)
next
  case None
  have m1: "\<not> waveCacheFullHit clip (d_width display) t0 pixelsPerSecond"
    using assms by (simp add: waveCacheFullHit_def split: option.splits)
  have m2: "\<not> waveCacheFullHit (clip \<lparr> mWaveCache := None \<rparr>) (d_width display) t0 pixelsPerSecond"
    by (simp add: waveCacheFullHit_def)
  show ?thesis
    unfolding GetWaveDisplay_miss[OF None m1] GetWaveDisplay_miss[OF None m2]
      rebuildWaveCache_no_reuse[OF waveReuse_no_match[OF assms], symmetric]
    using None by (simp add: Let_def)
qed

lemma GetSpectrogram_no_match:
  assumes "\<not> specCacheMatch clip settings pixelsPerSecond"
  shows "GetSpectrogram calc zeroPadded settings clip numPixels t0 pixelsPerSecond
         = GetSpectrogram calc zeroPadded settings (clip \<lparr> mSpecCache := None \<rparr>)
             numPixels t0 pixelsPerSecond"
proof -
  have m1: "\<not> specCacheFullHit clip settings numPixels t0 pixelsPerSecond"
    using assms by (simp add: specCacheFullHit_def split: option.splits)
  have m2: "\<not> specCacheFullHit (clip \<lparr> mSpecCache := None \<rparr>) settings numPixels t0
                pixelsPerSecond"
    by (simp add: specCacheFullHit_def)
  show ?thesis
    unfolding GetSpectrogram_miss[OF m1] GetSpectrogram_miss[OF m2]
      rebuildSpecCache_stale[OF specReuse_no_match[OF assms], symmetric]
    by (simp add: Let_def)
qed

lemma markedChanged_stale:
  assumes "cachesNotNewer clip" and "markedChanged clip clip'"
  shows "\<not> waveCacheMatch clip' numPixels pixelsPerSecond"
    and "\<not> specCacheMatch clip' settings pixelsPerSecond"
  using assms
  by (auto simp: cachesNotNewer_def markedChanged_def waveCacheMatch_def specCacheMatch_def
        Matches_def split: option.splits)

lemma MarkChanged_marked:
  "mDirty c = mDirty clip \<Longrightarrow> mWaveCache c = mWaveCache clip \<Longrightarrow> mSpecCache c = mSpecCache clip
   \<Longrightarrow> markedChanged clip (MarkChanged c)"
  by (simp add: markedChanged_def MarkChanged_def)

lemma SetSamples_marked: "markedChanged clip (snd (SetSamples ops clip buffer start len))"
  by (simp add: SetSamples_def split_beta Let_def MarkChanged_marked)

lemma InsertSilence_marked:
  "InsertSilence ops clip t len = (True, clip') \<Longrightarrow> markedChanged clip clip'"
  by (auto simp: InsertSilence_def split_beta Let_def MarkChanged_marked split: if_splits)

lemma Clear_marked:
  "Clear ops clip t0 t1 = (True, clip') \<Longrightarrow> markedChanged clip clip'"
  by (auto simp: Clear_def split_beta Let_def MarkChanged_marked split: if_splits)

lemma Flush_marked:
  "Flush ops clip = (True, clip') \<Longrightarrow> mAppendBufferLen clip > 0 \<Longrightarrow> markedChanged clip clip'"
  by (auto simp: Flush_def split_beta Let_def MarkChanged_marked split: if_splits)

lemma Paste_marked:
  "Paste ops clip t other = (True, clip') \<Longrightarrow> markedChanged clip clip'"
  by (auto simp: Paste_def split_beta Let_def MarkChanged_marked split: if_splits option.splits)

lemma AppendLoop_marked:
  "AppendLoop fuel ops maxBlockSize blockSize buffer clip = Some (True, clip')
   \<Longrightarrow> markedChanged clip clip'"
proof (induction fuel arbitrary: blockSize buffer clip)
  case 0
  then show ?case by simp
next
  case (Suc fuel)
  let ?flushed = "(if mAppendBufferLen clip \<ge> blockSize then
               (let (success, s') =
                      seqAppend ops (mSequence clip)
                        (take (nat blockSize) (mAppendBuffer clip))
                in if \<not> success then Inl (clip \<lparr> mSequence := s' \<rparr>)
                   else Inr
                     (clip \<lparr> mSequence := s',
                             mAppendBuffer :=
                               take (nat (mAppendBufferLen clip - blockSize))
                                 (drop (nat blockSize) (mAppendBuffer clip)),
                             mAppendBufferLen := mAppendBufferLen clip - blockSize \<rparr>,
                      seqGetIdealAppendLen ops s'))
             else Inr (clip, blockSize))"
  show ?case
  proof (cases ?flushed)
    case (Inl failed)
    then show ?thesis using Suc.prems by (simp add: Let_def)
  next
    case (Inr p)
    obtain clip1 blockSize1 where p: "p = (clip1, blockSize1)" by (cases p)
    have same: "mDirty clip1 = mDirty clip" "mWaveCache clip1 = mWaveCache clip"
      "mSpecCache clip1 = mSpecCache clip"
      using Inr p by (auto simp: Let_def split_beta split: if_splits)
    show ?thesis
    proof (cases "buffer = []")
      case True
      then have "clip' = MarkChanged clip1"
        using Suc.prems Inr p by (simp add: Let_def)
      then show ?thesis using same by (simp add: MarkChanged_marked)
    next
      case False
      let ?toCopy0 = "maxBlockSize - mAppendBufferLen clip1"
      let ?toCopy = "(if ?toCopy0 > int (length buffer) then int (length buffer) else ?toCopy0)"
      let ?clip2 = "clip1
                      \<lparr> mAppendBuffer :=
                          take (nat (mAppendBufferLen clip1)) (mAppendBuffer clip1)
                          @ take (nat ?toCopy) buffer,
                        mAppendBufferLen := mAppendBufferLen clip1 + ?toCopy \<rparr>"
      have "AppendLoop fuel ops maxBlockSize blockSize1 (drop (nat ?toCopy) buffer) ?clip2
            = Some (True, clip')"
        using Suc.prems Inr p False by (simp add: Let_def)
      then have "markedChanged ?clip2 clip'" by (rule Suc.IH)
      then show ?thesis using same by (simp add: markedChanged_def)
    qed
  qed
qed

lemma Append_marked:
  "Append fuel ops clip buffer = Some (True, clip') \<Longrightarrow> markedChanged clip clip'"
  unfolding Append_def by (rule AppendLoop_marked)


lemma markedChanged_notNewer:
  "cachesNotNewer clip \<Longrightarrow> markedChanged clip clip' \<Longrightarrow> cachesNotNewer clip'"
  by (auto simp: cachesNotNewer_def markedChanged_def split: option.splits)

lemma WaveClip_new_notNewer: "cachesNotNewer (WaveClip_new sequence rate)"
  by (simp add: cachesNotNewer_def WaveClip_new_def WaveCache_default_def SpecCache_default_def)

lemma LoadInvalidRegion_dirty:
  "wc_dirty (LoadInvalidRegion ops sequence updateODCount region c) = wc_dirty c"
  by (simp add: LoadInvalidRegion_def Let_def split_beta setCacheColumns_def)

lemma LoadInvalidRegions_dirty:
  "wc_dirty (LoadInvalidRegions ops sequence updateODCount c) = wc_dirty c"
proof -
  have "wc_dirty (fold (LoadInvalidRegion ops sequence updateODCount) rs c) = wc_dirty c" for rs
    by (induction rs arbitrary: c) (simp_all add: LoadInvalidRegion_dirty)
  then show ?thesis by (simp add: LoadInvalidRegions_def)
qed

lemma GetWaveDisplay_notNewer:
  assumes "cachesNotNewer clip"
  shows "cachesNotNewer (snd (snd (snd (GetWaveDisplay ops clip display t0 pixelsPerSecond))))"
proof (cases "d_where display")
  case (Some ownWhere)
  show ?thesis using assms by (simp add: GetWaveDisplay_owned(1)[OF Some])
next
  case None
  show ?thesis
  proof (cases "waveCacheFullHit clip (d_width display) t0 pixelsPerSecond")
    case True
    then obtain c where c: "mWaveCache clip = Some c"
      by (auto simp: waveCacheFullHit_def split: option.splits)
    show ?thesis
      using assms c unfolding GetWaveDisplay_hit[OF None True c]
      by (simp add: Let_def cachesNotNewer_def ClearInvalidRegions_def LoadInvalidRegions_dirty
            split: option.splits)
  next
    case False
    show ?thesis
      using assms unfolding GetWaveDisplay_miss[OF None False]
      by (simp add: Let_def cachesNotNewer_def rebuildWaveCache_key split: option.splits)
  qed
qed

lemma GetSpectrogram_notNewer:
  assumes "cachesNotNewer clip"
  shows "cachesNotNewer (snd (snd (snd
           (GetSpectrogram calc zeroPadded settings clip numPixels t0 pixelsPerSecond))))"
proof (cases "specCacheFullHit clip settings numPixels t0 pixelsPerSecond")
  case True
  then obtain c where c: "mSpecCache clip = Some c"
    by (auto simp: specCacheFullHit_def split: option.splits)
  show ?thesis using assms unfolding GetSpectrogram_hit[OF True c] by simp
next
  case False
  show ?thesis
    using assms unfolding GetSpectrogram_miss[OF False]
    by (simp add: Let_def cachesNotNewer_def rebuildSpecCache_key split: option.splits)
qed

lemma default_caches_match_nothing:
  assumes "mWaveCache clip = Some WaveCache_default" and "mSpecCache clip = Some SpecCache_default"
  shows "\<not> waveCacheMatch clip numPixels pixelsPerSecond"
    and "\<not> specCacheMatch clip settings pixelsPerSecond"
  using assms
  by (simp_all add: waveCacheMatch_def specCacheMatch_def WaveCache_default_def
        SpecCache_default_def)

text \<open>
  Claim C9, as the source has it. On a clip none of whose caches is newer than the clip:
  \<^verbatim>\<open>SetSamples\<close> always, and \<^verbatim>\<open>InsertSilence\<close>, \<^verbatim>\<open>Clear\<close>, \<^verbatim>\<open>Paste\<close>, \<^verbatim>\<open>Append\<close> and a
  \<^verbatim>\<open>Flush\<close> of a buffer that is not empty when they return \<^verbatim>\<open>true\<close>, increase the dirty
  counter by one through \<^verbatim>\<open>MarkChanged\<close>. A successful \<^verbatim>\<open>Resample\<close> to another rate leaves the
  dirty counter as it is and replaces both caches by empty ones. After any of these a
  waveform or spectrogram query, whatever its view, reuses nothing of the caches: it gives
  what it gives on the same clip without a cache.
\<close>

theorem mutation_forces_miss:
  assumes inv: "cachesNotNewer clip"
  shows "(clip' = snd (SetSamples ops clip buffer start len)
          \<or> InsertSilence ops clip t len' = (True, clip')
          \<or> Clear ops clip t0' t1' = (True, clip')
          \<or> Paste ops clip t other = (True, clip')
          \<or> Append fuel ops clip buffer = Some (True, clip')
          \<or> (Flush ops clip = (True, clip') \<and> mAppendBufferLen clip > 0)
         \<longrightarrow> mDirty clip' = mDirty clip + 1 \<and> mDirty clip < mDirty clip')
       \<and> (Resample ops clip rate = (True, clip') \<and> rate \<noteq> mRate clip
         \<longrightarrow> mDirty clip' = mDirty clip
             \<and> mWaveCache clip' = Some WaveCache_default
             \<and> mSpecCache clip' = Some SpecCache_default)
       \<and> (clip' = snd (SetSamples ops clip buffer start len)
          \<or> InsertSilence ops clip t len' = (True, clip')
          \<or> Clear ops clip t0' t1' = (True, clip')
          \<or> Paste ops clip t other = (True, clip')
          \<or> Append fuel ops clip buffer = Some (True, clip')
          \<or> (Flush ops clip = (True, clip') \<and> mAppendBufferLen clip > 0)
          \<or> (Resample ops clip rate = (True, clip') \<and> rate \<noteq> mRate clip)
         \<longrightarrow> GetWaveDisplay ops' clip' display t0 pixelsPerSecond
               = (case GetWaveDisplay ops' (clip' \<lparr> mWaveCache := None \<rparr>) display t0
                         pixelsPerSecond of
                    (r, l, d', c') \<Rightarrow> (r, l, d', if d_where display = None then c' else clip'))
             \<and> GetSpectrogram calc zeroPadded settings clip' numPixels t0 pixelsPerSecond
               = GetSpectrogram calc zeroPadded settings (clip' \<lparr> mSpecCache := None \<rparr>)
                   numPixels t0 pixelsPerSecond)"
proof -
  let ?marking = "clip' = snd (SetSamples ops clip buffer start len)
          \<or> InsertSilence ops clip t len' = (True, clip')
          \<or> Clear ops clip t0' t1' = (True, clip')
          \<or> Paste ops clip t other = (True, clip')
          \<or> Append fuel ops clip buffer = Some (True, clip')
          \<or> (Flush ops clip = (True, clip') \<and> mAppendBufferLen clip > 0)"
  let ?resampling = "Resample ops clip rate = (True, clip') \<and> rate \<noteq> mRate clip"
  have marked: "markedChanged clip clip'" if ?marking
    using that
    by (elim disjE conjE)
       (auto intro: InsertSilence_marked Clear_marked Paste_marked Append_marked Flush_marked
             simp: SetSamples_marked)
  have resampled: "mDirty clip' = mDirty clip
             \<and> mWaveCache clip' = Some WaveCache_default
             \<and> mSpecCache clip' = Some SpecCache_default" if ?resampling
    using that by (auto simp: Resample_def split: option.splits)
  have stale: "\<not> waveCacheMatch clip' (d_width display) pixelsPerSecond
               \<and> \<not> specCacheMatch clip' settings pixelsPerSecond"
    if "?marking \<or> ?resampling"
  proof (cases ?marking)
    case True
    then show ?thesis using markedChanged_stale[OF inv marked] by blast
  next
    case False
    then have ?resampling using that by blast
    then show ?thesis using default_caches_match_nothing resampled by blast
  qed
  have queries: "GetWaveDisplay ops' clip' display t0 pixelsPerSecond
               = (case GetWaveDisplay ops' (clip' \<lparr> mWaveCache := None \<rparr>) display t0
                         pixelsPerSecond of
                    (r, l, d', c') \<Rightarrow> (r, l, d', if d_where display = None then c' else clip'))
             \<and> GetSpectrogram calc zeroPadded settings clip' numPixels t0 pixelsPerSecond
               = GetSpectrogram calc zeroPadded settings (clip' \<lparr> mSpecCache := None \<rparr>)
                   numPixels t0 pixelsPerSecond"
    if "?marking \<or> ?resampling"
    using stale[OF that] GetWaveDisplay_no_match GetSpectrogram_no_match by blast
  show ?thesis
  proof (intro conjI impI)
    assume m: ?marking
    show "mDirty clip' = mDirty clip + 1" "mDirty clip < mDirty clip'"
      using marked[OF m] by (simp_all add: markedChanged_def)
  next
    assume r: ?resampling
    show "mDirty clip' = mDirty clip" "mWaveCache clip' = Some WaveCache_default"
      "mSpecCache clip' = Some SpecCache_default"
      using resampled[OF r] by simp_all
  next
    assume "clip' = snd (SetSamples ops clip buffer start len)
          \<or> InsertSilence ops clip t len' = (True, clip')
          \<or> Clear ops clip t0' t1' = (True, clip')
          \<or> Paste ops clip t other = (True, clip')
          \<or> Append fuel ops clip buffer = Some (True, clip')
          \<or> (Flush ops clip = (True, clip') \<and> mAppendBufferLen clip > 0)
          \<or> (Resample ops clip rate = (True, clip') \<and> rate \<noteq> mRate clip)"
    then have a: "?marking \<or> ?resampling" by blast
    show "GetWaveDisplay ops' clip' display t0 pixelsPerSecond
               = (case GetWaveDisplay ops' (clip' \<lparr> mWaveCache := None \<rparr>) display t0
                         pixelsPerSecond of
                    (r, l, d', c') \<Rightarrow> (r, l, d', if d_where display = None then c' else clip'))"
      using queries[OF a] by blast
    show "GetSpectrogram calc zeroPadded settings clip' numPixels t0 pixelsPerSecond
               = GetSpectrogram calc zeroPadded settings (clip' \<lparr> mSpecCache := None \<rparr>)
                   numPixels t0 pixelsPerSecond"
      using queries[OF a] by blast
  qed
qed

lemmas clip_eval =
  InsertSilence_def TimeToSamplesClip_def MarkChanged_def Resample_def Append_def
  cachedClip_def cachesNotNewer_def

text \<open>
  The theorem on the clip with both caches filled. Before the mutation the waveform query
  is a full hit although the sequence fails. After \<^verbatim>\<open>InsertSilence\<close> of one second the dirty
  counter is 1, the same query goes to the sequence and fails, and the spectrogram query
  computes every column.
\<close>

theorem mutation_forces_miss_witness:
  "GetWaveDisplay (squareOps False True) cachedClip (emptyDisplay 5) 0 10
     = (True, False, setDisplay (emptyDisplay 5) (cacheColumns filledCache) (wc_where filledCache),
        cachedClip)
   \<and> InsertSilence (squareOps True True) cachedClip 1 1
     = (True, cachedClip \<lparr> mSequence := 1100, mDirty := 1 \<rparr>)
   \<and> mDirty cachedClip < mDirty (cachedClip \<lparr> mSequence := 1100, mDirty := 1 \<rparr>)
   \<and> fst (GetWaveDisplay (squareOps False True)
          (cachedClip \<lparr> mSequence := 1100, mDirty := 1 \<rparr>) (emptyDisplay 5) 0 10) = False
   \<and> fst (snd (GetSpectrogram markColumn True stftSettings
          (cachedClip \<lparr> mSequence := 1100, mDirty := 1 \<rparr>) 3 0 10)) = [10, 10, 10]"
proof -
  let ?after = "cachedClip \<lparr> mSequence := 1100, mDirty := 1 \<rparr>"
  have inv: "cachesNotNewer cachedClip"
    by (simp add: clip_eval wave_eval spec_eval)
  have before: "GetWaveDisplay (squareOps False True) cachedClip (emptyDisplay 5) 0 10
     = (True, False, setDisplay (emptyDisplay 5) (cacheColumns filledCache) (wc_where filledCache),
        cachedClip)"
    by (simp add: clip_eval wave_eval)
  have ins: "InsertSilence (squareOps True True) cachedClip 1 1 = (True, ?after)"
    by (simp add: clip_eval wave_eval)
  note inst = mutation_forces_miss[OF inv, where clip' = ?after and ops = "squareOps True True"
      and t = 1 and len' = 1 and ops' = "squareOps False True" and display = "emptyDisplay 5"
      and ?t0.0 = 0 and pixelsPerSecond = 10 and calc = markColumn and zeroPadded = True
      and settings = stftSettings and numPixels = 3]
  have dirty: "mDirty cachedClip < mDirty ?after"
    using inst ins by blast
  have wave: "GetWaveDisplay (squareOps False True) ?after (emptyDisplay 5) 0 10
        = (case GetWaveDisplay (squareOps False True) (?after \<lparr> mWaveCache := None \<rparr>)
                  (emptyDisplay 5) 0 10 of
             (r, l, d', c') \<Rightarrow> (r, l, d', if d_where (emptyDisplay 5) = None then c' else ?after))"
    using inst ins by blast
  have spec: "GetSpectrogram markColumn True stftSettings ?after 3 0 10
        = GetSpectrogram markColumn True stftSettings (?after \<lparr> mSpecCache := None \<rparr>) 3 0 10"
    using inst ins by blast
  have "fst (GetWaveDisplay (squareOps False True) ?after (emptyDisplay 5) 0 10) = False"
    unfolding wave by (simp add: clip_eval wave_eval)
  moreover have "fst (snd (GetSpectrogram markColumn True stftSettings ?after 3 0 10))
                 = [10, 10, 10]"
    unfolding spec by (simp add: clip_eval spec_eval)
  ultimately show ?thesis using before ins dirty by blast
qed

text \<open>
  Claim C9 as stated, for every content mutation, fails for \<^verbatim>\<open>Resample\<close>: the sequence is
  replaced by one of twice the samples, and the dirty counter is not increased (the caches
  are replaced instead, source lines 1808-1818).
\<close>

theorem Resample_keeps_dirty:
  "Resample (squareOps True True) cachedClip 200
     = (True, cachedClip \<lparr> mSequence := 2000, mRate := 200,
                            mWaveCache := Some WaveCache_default,
                            mSpecCache := Some SpecCache_default \<rparr>)
   \<and> mSequence cachedClip = 1000
   \<and> \<not> mDirty cachedClip
         < mDirty (cachedClip \<lparr> mSequence := 2000, mRate := 200,
                                mWaveCache := Some WaveCache_default,
                                mSpecCache := Some SpecCache_default \<rparr>)"
  by (simp add: clip_eval wave_eval)

text \<open>
  \<^verbatim>\<open>Append\<close> leaves by its early return (source line 1267) when the sequence refuses a block:
  samples copied into the append buffer in an earlier pass stay there, and \<^verbatim>\<open>MarkChanged\<close>
  is not reached.
\<close>

lemma Append_failure_after_copy:
  "Append 2 (squareOps True False) freshClip [1, 1, 1]
     = Some (False, freshClip \<lparr> mAppendBuffer := [1, 1, 1], mAppendBufferLen := 3 \<rparr>)
   \<and> mDirty (freshClip \<lparr> mAppendBuffer := [1, 1, 1], mAppendBufferLen := 3 \<rparr>)
       = mDirty freshClip"
  by (simp add: clip_eval wave_eval)

lemma Append_success:
  "Append 3 (squareOps True True) freshClip [1, 1, 1]
     = Some (True, freshClip \<lparr> mSequence := 1002, mAppendBuffer := [1], mAppendBufferLen := 1, mDirty := 1 \<rparr>)"
  by (simp add: clip_eval wave_eval)


section \<open>The mapping of a rebuilt cache\<close>

text \<open>
  Both queries fill the mapping of the cache they rebuild by \<^verbatim>\<open>fillWhere\<close>, with the
  correction of \<^verbatim>\<open>findCorrection\<close> or none. For a view that does not start before time zero
  the mapping that they leave in the cache is non-decreasing and starts at a sample index
  that is not negative.
\<close>

lemma fillWhere_sorted_if:
  assumes spp: "0 \<le> spp"
    and first: "0 \<le> 0.5 + correction + bias + t0 * rate + spp"
    and len: "length wh = nat (1 + len)" "0 \<le> len"
  shows "sorted (fillWhere wh len bias correction t0 rate spp)
       \<and> 0 \<le> fillWhere wh len bias correction t0 rate spp ! 0
       \<and> length (fillWhere wh len bias correction t0 rate spp) = nat len + 1"
proof -
  let ?w0 = "0.5 + correction + bias + t0 * rate"
  let ?tail = "map (\<lambda>x. \<lfloor>?w0 + real x * spp\<rfloor>) [1 ..< nat len + 1]"
  have l: "length wh = nat len + 1" using len by auto
  have f: "0 \<le> \<lfloor>?w0 + spp\<rfloor>" using first by simp
  have closed: "fillWhere wh len bias correction t0 rate spp = max 0 \<lfloor>?w0\<rfloor> # ?tail"
    by (rule fillWhere_closed[OF l])
  have "sorted (max 0 \<lfloor>?w0\<rfloor> # ?tail)"
    by (rule sorted_fillWhere_closed[OF spp f])
  moreover have "0 \<le> (max 0 \<lfloor>?w0\<rfloor> # ?tail) ! 0"
    by simp
  moreover have "length (max 0 \<lfloor>?w0\<rfloor> # ?tail) = nat len + 1"
    by simp
  ultimately show ?thesis
    unfolding closed by blast
qed

lemma findCorrection_bound_div:
  "\<bar>snd (findCorrection oldWhere oldLen newLen t0 rate (a / b))\<bar> \<le> \<bar>a\<bar> / \<bar>b\<bar>"
  using findCorrection_bound[of oldWhere oldLen newLen t0 rate "a / b"] by simp

lemma waveReuse_correction:
  "\<bar>fst (snd (snd (waveReuse clip numPixels t0 pixelsPerSecond)))\<bar>
   \<le> \<bar>real_of_int (mRate clip) * (1 / pixelsPerSecond)\<bar>"
  by (simp add: waveReuse_def Let_def split_beta findCorrection_bound_div split: option.splits)

lemma specReuse_correction:
  "\<bar>fst (snd (snd (specReuse clip settings numPixels t0 pixelsPerSecond)))\<bar>
   \<le> \<bar>real_of_int (mRate clip) * (1 / pixelsPerSecond)\<bar>"
  by (simp add: specReuse_def Let_def split_beta findCorrection_bound_div split: option.splits)

lemma rebuildWaveCache_where:
  "wc_where (snd (rebuildWaveCache ops clip numPixels t0 pixelsPerSecond))
   = fillWhere (replicate (nat (1 + numPixels)) 0) numPixels 0
       (fst (snd (snd (waveReuse clip numPixels t0 pixelsPerSecond)))) t0
       (real_of_int (mRate clip)) (real_of_int (mRate clip) * (1 / pixelsPerSecond))"
  by (simp add: rebuildWaveCache_def Let_def split_beta setCacheColumns_def WaveCache_new_def)

lemma rebuildSpecCache_where:
  "sc_where (rebuildSpecCache calc zeroPadded settings clip numPixels t0 pixelsPerSecond)
   = fillWhere (replicate (nat (1 + numPixels)) 0) numPixels 0.5
       (fst (snd (snd (specReuse clip settings numPixels t0 pixelsPerSecond)))) t0
       (real_of_int (mRate clip)) (real_of_int (mRate clip) * (1 / pixelsPerSecond))"
  by (simp add: rebuildSpecCache_def Let_def split_beta Populate_fields SpecCache_new_def
        split: option.splits)

lemma rebuilt_where_sorted:
  assumes "0 < numPixels" and "0 < pixelsPerSecond" and "0 < mRate clip" and "0 \<le> t0"
  shows "sorted (wc_where (snd (rebuildWaveCache ops clip numPixels t0 pixelsPerSecond)))
       \<and> 0 \<le> wc_where (snd (rebuildWaveCache ops clip numPixels t0 pixelsPerSecond)) ! 0
       \<and> length (wc_where (snd (rebuildWaveCache ops clip numPixels t0 pixelsPerSecond)))
           = nat numPixels + 1"
    and "sorted (sc_where (rebuildSpecCache calc zeroPadded settings clip numPixels t0
                             pixelsPerSecond))
       \<and> 0 \<le> sc_where (rebuildSpecCache calc zeroPadded settings clip numPixels t0
                             pixelsPerSecond) ! 0
       \<and> length (sc_where (rebuildSpecCache calc zeroPadded settings clip numPixels t0
                             pixelsPerSecond))
           = nat numPixels + 1"
proof -
  let ?spp = "real_of_int (mRate clip) * (1 / pixelsPerSecond)"
  have spp: "0 \<le> ?spp" using assms by simp
  have t: "0 \<le> t0 * real_of_int (mRate clip)" using assms by simp
  have w: "0 \<le> 0.5 + fst (snd (snd (waveReuse clip numPixels t0 pixelsPerSecond))) + 0
               + t0 * real_of_int (mRate clip) + ?spp"
    using waveReuse_correction[of clip numPixels t0 pixelsPerSecond] spp t by linarith
  have s: "0 \<le> 0.5 + fst (snd (snd (specReuse clip settings numPixels t0 pixelsPerSecond))) + 0.5
               + t0 * real_of_int (mRate clip) + ?spp"
    using specReuse_correction[of clip settings numPixels t0 pixelsPerSecond] spp t by linarith
  have l: "length (replicate (nat (1 + numPixels)) (0::int)) = nat (1 + numPixels)" by simp
  have n: "0 \<le> numPixels" using assms by simp
  show "sorted (wc_where (snd (rebuildWaveCache ops clip numPixels t0 pixelsPerSecond)))
       \<and> 0 \<le> wc_where (snd (rebuildWaveCache ops clip numPixels t0 pixelsPerSecond)) ! 0
       \<and> length (wc_where (snd (rebuildWaveCache ops clip numPixels t0 pixelsPerSecond)))
           = nat numPixels + 1"
    unfolding rebuildWaveCache_where by (rule fillWhere_sorted_if[OF spp w l n])
  show "sorted (sc_where (rebuildSpecCache calc zeroPadded settings clip numPixels t0
                             pixelsPerSecond))
       \<and> 0 \<le> sc_where (rebuildSpecCache calc zeroPadded settings clip numPixels t0
                             pixelsPerSecond) ! 0
       \<and> length (sc_where (rebuildSpecCache calc zeroPadded settings clip numPixels t0
                             pixelsPerSecond))
           = nat numPixels + 1"
    unfolding rebuildSpecCache_where by (rule fillWhere_sorted_if[OF spp s l n])
qed


end
